theory Spec2Isabelle
  imports Main "HOL-Library.Word"
begin

unbundle bit_operations_syntax

section \<open>The Jailhouse loader driver (driver.c)\<close>

text \<open>
  The driver keeps its state in file-scope variables (\<^verbatim>\<open>enabled\<close>, \<^verbatim>\<open>hypervisor_mem\<close>,
  \<^verbatim>\<open>hv_core_percpu_size\<close>, \<^verbatim>\<open>offlined_cpus\<close>, \<^verbatim>\<open>error_code\<close>, \<^verbatim>\<open>cells\<close>) and calls
  into the kernel and the hypervisor. The model passes the variables as one record and
  takes what the kernel and the hypervisor answer as a record of oracles, so that every
  outcome the C code branches on is a branch here.
\<close>

subsection \<open>Constants of the kernel ABI\<close>

type_synonym u64 = "64 word"

definition ENOENT :: int where "ENOENT = 2"
definition EINTR :: int where "EINTR = 4"
definition ENOMEM :: int where "ENOMEM = 12"
definition EFAULT :: int where "EFAULT = 14"
definition EBUSY :: int where "EBUSY = 16"
definition EEXIST :: int where "EEXIST = 17"
definition EINVAL :: int where "EINVAL = 22"

lemmas errno_defs = ENOENT_def EINTR_def ENOMEM_def EFAULT_def EBUSY_def EEXIST_def EINVAL_def

definition PAGE_SIZE :: u64 where "PAGE_SIZE = 4096"

definition PAGE_ALIGN :: "u64 \<Rightarrow> u64" where
  "PAGE_ALIGN x = (x + (PAGE_SIZE - 1)) AND NOT (PAGE_SIZE - 1)"

text \<open>
  The macros of \<^verbatim>\<open>jailhouse.h\<close> and \<^verbatim>\<open>jailhouse/header.h\<close> that the driver uses are
  parameters of the model.
\<close>

record macros =
  JAILHOUSE_CELL_NAME_MAXLEN :: nat
  JAILHOUSE_SIGNATURE :: string

subsection \<open>Data\<close>

record jailhouse_memory =
  phys_start :: u64
  virt_start :: u64
  mem_size :: u64

text \<open>
  A cell configuration: \<open>desc_name\<close> is the \<^verbatim>\<open>name\<close> character array, \<open>cpu_set\<close> the
  CPU bitmap of \<^verbatim>\<open>cpu_set_size * 8\<close> bits (bit \<open>i\<close> is \<open>cpu_set ! i\<close>), and
  \<open>mem_regions\<close> the \<^verbatim>\<open>num_memory_regions\<close> memory regions.
\<close>

record jailhouse_cell_desc =
  desc_name :: string
  cpu_set :: "bool list"
  mem_regions :: "jailhouse_memory list"

record jailhouse_preload_image =
  source_address :: u64
  image_size :: u64
  target_address :: u64
  source_readable :: bool

text \<open>
  A user pointer is an \<open>option\<close>: \<open>None\<close> when \<^verbatim>\<open>copy_from_user\<close> faults on it.
\<close>

record jailhouse_new_cell =
  new_config :: "jailhouse_cell_desc option"
  new_images :: "jailhouse_preload_image option list"

record jailhouse_cell =
  cell_config :: "jailhouse_cell_desc option"

record jailhouse_header =
  signature :: string
  core_size :: u64
  percpu_size :: u64

record firmware =
  fw_size :: u64
  fw_header :: jailhouse_header

record jailhouse_system =
  system :: jailhouse_cell_desc
  hv_phys_start :: u64
  hv_size :: u64
  system_config_size :: u64
  system_config_readable :: bool

text \<open>\<^verbatim>\<open>struct cell\<close>: the kobject's name and the id; it holds no CPU set.\<close>

record cell =
  kobj_name :: string
  cell_id :: int

text \<open>
  A pointer returned by \<^verbatim>\<open>create_cell\<close> is \<open>Inr\<close> of the cell or \<open>Inl e\<close> for
  \<^verbatim>\<open>ERR_PTR(e)\<close>; \<^verbatim>\<open>ERR_PTR(0)\<close> is the null pointer.
\<close>

type_synonym 'a ptr = "int + 'a"

definition is_null :: "'a ptr \<Rightarrow> bool" where
  "is_null p = (p = Inl 0)"

datatype event =
    Cpu_down nat
  | Cpu_up nat
  | Hc_cell_create
  | Hc_cell_destroy int
  | Hc_disable
  | Hv_entry
  | Ioremap u64 u64
  | Vunmap
  | Memcpy u64
  | Memset u64 u64

text \<open>
  The file-scope variables, then the kernel's own state the driver reads and changes:
  the online mask, the module's reference count, and \<open>trace\<close>, the calls made so far
  into the kernel's CPU hotplug, the mapping service and the hypervisor. A mapped
  \<open>hypervisor_mem\<close> is \<open>Some (phys, size)\<close>.
\<close>

record driver_state =
  enabled :: bool
  hypervisor_mem :: "(u64 \<times> u64) option"
  hv_core_percpu_size :: u64
  offlined_cpus :: "nat set"
  error_code :: int
  cells :: "cell list"
  cpu_online_mask :: "nat set"
  module_refcount :: nat
  trace :: "event list"

text \<open>
  What the kernel and the hypervisor answer during one request. Error results are the
  negative errno values the kernel functions return, \<open>0\<close> is success. \<open>err_init\<close> is
  the indeterminate value of the uninitialised local \<^verbatim>\<open>int err\<close> of
  \<^verbatim>\<open>jailhouse_cell_create\<close>. \<open>entry_rets\<close> and \<open>leave_rets\<close> are the statuses of the
  cores in the order in which they write \<^verbatim>\<open>error_code\<close>. \<open>request_firmware\<close> is the
  value the kernel function returns and the image it hands over when that is 0.
\<close>

record kernel_env =
  lock_ok :: bool
  kmalloc_ok :: bool
  kzalloc_ok :: bool
  kobject_add_err :: int
  module_get_ok :: bool
  ioremap_ok :: "u64 \<Rightarrow> bool"
  cpu_down_err :: "nat \<Rightarrow> int"
  cpu_up_err :: "nat \<Rightarrow> int"
  request_firmware :: "int \<times> firmware"
  num_possible_cpus :: "32 word"
  entry_rets :: "int list"
  leave_rets :: "int list"
  hc_cell_create_ret :: int
  hc_cell_destroy_ret :: int
  err_init :: int

datatype outcome = Return int | Oops

subsection \<open>Cell names and CPU bitmaps\<close>

definition c_str :: "string \<Rightarrow> string" where
  "c_str a = takeWhile (\<lambda>c. c \<noteq> CHR 0x00) a"

text \<open>\<^verbatim>\<open>config->name[JAILHOUSE_CELL_NAME_MAXLEN] = 0\<close>\<close>

definition terminate_name :: "macros \<Rightarrow> jailhouse_cell_desc \<Rightarrow> jailhouse_cell_desc" where
  "terminate_name M d = d\<lparr>desc_name := (desc_name d)[JAILHOUSE_CELL_NAME_MAXLEN M := CHR 0x00]\<rparr>"

text \<open>
  The kernel's \<^verbatim>\<open>find_next_bit(addr, size, offset)\<close>: the index of the first set bit at
  or after \<open>offset\<close>, or \<open>size\<close> when there is none.
\<close>

function find_next_bit :: "bool list \<Rightarrow> nat \<Rightarrow> nat \<Rightarrow> nat" where
  "find_next_bit bits sz off =
     (if off < sz then (if bits ! off then off else find_next_bit bits sz (Suc off)) else sz)"
  by pat_completeness auto
termination
  by (relation "measure (\<lambda>(bits, sz, off). sz - off)") auto

declare find_next_bit.simps [simp del]

definition cell_cpumask_next :: "int \<Rightarrow> jailhouse_cell_desc \<Rightarrow> nat" where
  "cell_cpumask_next n config =
     find_next_bit (cpu_set config) (length (cpu_set config)) (nat (n + 1))"

lemma find_next_bit_ge:
  "find_next_bit bits sz off < sz \<Longrightarrow> off \<le> find_next_bit bits sz off"
proof (induction bits sz off rule: find_next_bit.induct)
  case (1 bits sz off)
  show ?case
  proof (cases "off < sz \<and> \<not> bits ! off")
    case True
    then have e: "find_next_bit bits sz off = find_next_bit bits sz (Suc off)"
      by (subst find_next_bit.simps) simp
    with 1 True show ?thesis by auto
  next
    case False
    then have "find_next_bit bits sz off = (if off < sz then off else sz)"
      by (subst find_next_bit.simps) auto
    with 1(2) show ?thesis by (simp split: if_splits)
  qed
qed

text \<open>
  \<^verbatim>\<open>for_each_cell_cpu(cpu, config)\<close>: the CPUs the loop body runs on, in order. The loop
  variable starts at \<open>-1\<close> and takes \<open>cell_cpumask_next\<close> of itself until that reaches
  the size of the bitmap.
\<close>

function for_each_cell_cpu_from :: "int \<Rightarrow> jailhouse_cell_desc \<Rightarrow> nat list" where
  "for_each_cell_cpu_from cpu config =
     (let c = cell_cpumask_next cpu config
      in if c < length (cpu_set config) then c # for_each_cell_cpu_from (int c) config else [])"
  by pat_completeness auto
termination
proof (relation "measure (\<lambda>(cpu, config). length (cpu_set config) - nat (cpu + 1))", goal_cases)
  case 1
  show ?case by simp
next
  case (2 cpu config c)
  then have "nat (cpu + 1) \<le> c"
    using find_next_bit_ge [of "cpu_set config" "length (cpu_set config)" "nat (cpu + 1)"]
    by (simp add: cell_cpumask_next_def)
  with 2 show ?case by simp
qed

declare for_each_cell_cpu_from.simps [simp del]

definition for_each_cell_cpu :: "jailhouse_cell_desc \<Rightarrow> nat list" where
  "for_each_cell_cpu config = for_each_cell_cpu_from (- 1) config"

subsection \<open>The cell list\<close>

text \<open>
  \<^verbatim>\<open>create_cell\<close> allocates the cell (zeroed, so the id is 0) and adds its kobject under
  the name of the configuration; it returns \<^verbatim>\<open>ERR_PTR\<close> of the error otherwise.
\<close>

definition create_cell :: "kernel_env \<Rightarrow> jailhouse_cell_desc \<Rightarrow> cell ptr" where
  "create_cell k cell_desc =
     (if \<not> kzalloc_ok k then Inl (- ENOMEM)
      else if kobject_add_err k \<noteq> 0 then Inl (kobject_add_err k)
      else Inr \<lparr>kobj_name = c_str (desc_name cell_desc), cell_id = 0\<rparr>)"

definition register_cell :: "cell \<Rightarrow> driver_state \<Rightarrow> driver_state" where
  "register_cell c s = s\<lparr>cells := cells s @ [c]\<rparr>"

definition find_cell :: "driver_state \<Rightarrow> jailhouse_cell_desc \<Rightarrow> cell option" where
  "find_cell s cell_desc = find (\<lambda>c. kobj_name c = c_str (desc_name cell_desc)) (cells s)"

definition delete_cell :: "cell \<Rightarrow> driver_state \<Rightarrow> driver_state" where
  "delete_cell c s = s\<lparr>cells := remove1 c (cells s)\<rparr>"

subsection \<open>CPU hotplug and the CPU masks\<close>

definition cpu_online :: "driver_state \<Rightarrow> nat \<Rightarrow> bool" where
  "cpu_online s cpu = (cpu \<in> cpu_online_mask s)"

text \<open>\<^verbatim>\<open>cpu_down\<close> and \<^verbatim>\<open>cpu_up\<close> change the online mask when they return 0.\<close>

definition cpu_down :: "kernel_env \<Rightarrow> nat \<Rightarrow> driver_state \<Rightarrow> int \<times> driver_state" where
  "cpu_down k cpu s =
     (cpu_down_err k cpu,
      s\<lparr>cpu_online_mask :=
          (if cpu_down_err k cpu = 0 then cpu_online_mask s - {cpu} else cpu_online_mask s),
        trace := trace s @ [Cpu_down cpu]\<rparr>)"

definition cpu_up :: "kernel_env \<Rightarrow> nat \<Rightarrow> driver_state \<Rightarrow> int \<times> driver_state" where
  "cpu_up k cpu s =
     (cpu_up_err k cpu,
      s\<lparr>cpu_online_mask :=
          (if cpu_up_err k cpu = 0 then insert cpu (cpu_online_mask s) else cpu_online_mask s),
        trace := trace s @ [Cpu_up cpu]\<rparr>)"

definition cpu_set_offlined :: "nat \<Rightarrow> driver_state \<Rightarrow> driver_state" where
  "cpu_set_offlined cpu s = s\<lparr>offlined_cpus := insert cpu (offlined_cpus s)\<rparr>"

definition cpu_clear_offlined :: "nat \<Rightarrow> driver_state \<Rightarrow> driver_state" where
  "cpu_clear_offlined cpu s = s\<lparr>offlined_cpus := offlined_cpus s - {cpu}\<rparr>"

subsection \<open>\<^verbatim>\<open>load_image\<close>\<close>

text \<open>
  The loop over the memory regions of \<^verbatim>\<open>load_image\<close>: \<open>Inl\<close> is the early
  \<^verbatim>\<open>return -EINVAL\<close>, \<open>Inr None\<close> is leaving the loop with \<^verbatim>\<open>regions == 0\<close>, and
  \<open>Inr (Some (mem, image_offset))\<close> is the \<^verbatim>\<open>break\<close>.
\<close>

fun find_region ::
  "jailhouse_preload_image \<Rightarrow> jailhouse_memory list \<Rightarrow> int + (jailhouse_memory \<times> u64) option"
where
  "find_region img [] = Inr None"
| "find_region img (mem # rest) =
     (let image_offset = target_address img - virt_start mem
      in if target_address img \<ge> virt_start mem \<and> image_offset < mem_size mem then
           (if image_size img > mem_size mem - image_offset then Inl (- EINVAL)
            else Inr (Some (mem, image_offset)))
         else find_region img rest)"

text \<open>
  The transient mapping of \<^verbatim>\<open>load_image\<close> is released before it returns, so the
  function changes no variable of the driver.
\<close>

definition load_image ::
  "kernel_env \<Rightarrow> jailhouse_cell_desc \<Rightarrow> jailhouse_preload_image option \<Rightarrow> int" where
  "load_image k config uimage =
     (case uimage of
        None \<Rightarrow> - EFAULT
      | Some img \<Rightarrow>
          (case find_region img (mem_regions config) of
             Inl e \<Rightarrow> e
           | Inr None \<Rightarrow> - EINVAL
           | Inr (Some (mem, image_offset)) \<Rightarrow>
               if \<not> ioremap_ok k (phys_start mem + image_offset) then - EBUSY
               else if \<not> source_readable img then - EFAULT
               else 0))"

text \<open>
  The loop over the preload images of \<^verbatim>\<open>jailhouse_cell_create\<close>: \<open>Inl err\<close> is the
  \<^verbatim>\<open>goto unlock_out\<close>, \<open>Inr err\<close> the value of \<^verbatim>\<open>err\<close> when the loop ends.
\<close>

fun load_images ::
  "kernel_env \<Rightarrow> jailhouse_cell_desc \<Rightarrow> jailhouse_preload_image option list \<Rightarrow> int \<Rightarrow> int + int"
where
  "load_images k config [] err = Inr err"
| "load_images k config (img # rest) err =
     (if load_image k config img \<noteq> 0 then Inl (load_image k config img)
      else load_images k config rest (load_image k config img))"

subsection \<open>\<^verbatim>\<open>jailhouse_cell_create\<close>\<close>

text \<open>
  The first \<^verbatim>\<open>for_each_cell_cpu\<close> loop: every CPU of the configuration that is online
  is taken down and set in \<^verbatim>\<open>offlined_cpus\<close>. \<open>Inl err\<close> is the
  \<^verbatim>\<open>goto error_cpu_online\<close>, \<open>Inr err\<close> the value of \<^verbatim>\<open>err\<close> after the loop.
\<close>

fun offline_cell_cpus ::
  "kernel_env \<Rightarrow> nat list \<Rightarrow> int \<Rightarrow> driver_state \<Rightarrow> (int + int) \<times> driver_state"
where
  "offline_cell_cpus k [] err s = (Inr err, s)"
| "offline_cell_cpus k (cpu # rest) err s =
     (if cpu_online s cpu then
        (if fst (cpu_down k cpu s) \<noteq> 0 then (Inl (fst (cpu_down k cpu s)), snd (cpu_down k cpu s))
         else offline_cell_cpus k rest (fst (cpu_down k cpu s))
                (cpu_set_offlined cpu (snd (cpu_down k cpu s))))
      else offline_cell_cpus k rest err s)"

text \<open>
  The loop at \<^verbatim>\<open>error_cpu_online\<close>: every CPU of the configuration that is not online
  is brought up, and cleared from \<^verbatim>\<open>offlined_cpus\<close> when that worked.
\<close>

fun error_cpu_online :: "kernel_env \<Rightarrow> nat list \<Rightarrow> driver_state \<Rightarrow> driver_state" where
  "error_cpu_online k [] s = s"
| "error_cpu_online k (cpu # rest) s =
     (if \<not> cpu_online s cpu then
        (if fst (cpu_up k cpu s) = 0
         then error_cpu_online k rest (cpu_clear_offlined cpu (snd (cpu_up k cpu s)))
         else error_cpu_online k rest (snd (cpu_up k cpu s)))
      else error_cpu_online k rest s)"

definition jailhouse_call1_create :: "kernel_env \<Rightarrow> driver_state \<Rightarrow> int \<times> driver_state" where
  "jailhouse_call1_create k s = (hc_cell_create_ret k, s\<lparr>trace := trace s @ [Hc_cell_create]\<rparr>)"

definition jailhouse_cell_create ::
  "macros \<Rightarrow> kernel_env \<Rightarrow> jailhouse_new_cell option \<Rightarrow> driver_state \<Rightarrow> int \<times> driver_state"
where
  "jailhouse_cell_create M k arg s =
     (case arg of
        None \<Rightarrow> (- EFAULT, s)
      | Some cell_params \<Rightarrow>
          if \<not> kmalloc_ok k then (- ENOMEM, s)
          else
            (case new_config cell_params of
               None \<Rightarrow> (- EFAULT, s)
             | Some user_config \<Rightarrow>
                 let config = terminate_name M user_config in
                 if \<not> lock_ok k then (- EINTR, s)
                 else if \<not> enabled s then (- EINVAL, s)
                 else if find_cell s config \<noteq> None then (- EEXIST, s)
                 else
                   (case load_images k config (new_images cell_params) (err_init k) of
                      Inl e \<Rightarrow> (e, s)
                    | Inr err \<Rightarrow>
                        (case create_cell k config of
                           Inl e \<Rightarrow> (e, s)
                         | Inr c \<Rightarrow>
                             (case offline_cell_cpus k (for_each_cell_cpu config) err s of
                                (Inl e, s1) \<Rightarrow> (e, error_cpu_online k (for_each_cell_cpu config) s1)
                              | (Inr err1, s1) \<Rightarrow>
                                  (case jailhouse_call1_create k s1 of
                                     (id1, s2) \<Rightarrow>
                                       if id1 < 0
                                       then (id1, error_cpu_online k (for_each_cell_cpu config) s2)
                                       else (err1, register_cell (c\<lparr>cell_id := id1\<rparr>) s2)))))))"

subsection \<open>\<^verbatim>\<open>jailhouse_cell_destroy\<close>\<close>

text \<open>
  The \<^verbatim>\<open>for_each_cell_cpu\<close> loop of \<^verbatim>\<open>jailhouse_cell_destroy\<close>: a CPU of the
  configuration that is set in \<^verbatim>\<open>offlined_cpus\<close> is brought up (a failure is only
  logged) and cleared.
\<close>

fun online_cell_cpus :: "kernel_env \<Rightarrow> nat list \<Rightarrow> driver_state \<Rightarrow> driver_state" where
  "online_cell_cpus k [] s = s"
| "online_cell_cpus k (cpu # rest) s =
     (if cpu \<in> offlined_cpus s
      then online_cell_cpus k rest (cpu_clear_offlined cpu (snd (cpu_up k cpu s)))
      else online_cell_cpus k rest s)"

definition jailhouse_call1_destroy :: "kernel_env \<Rightarrow> int \<Rightarrow> driver_state \<Rightarrow> int \<times> driver_state"
where
  "jailhouse_call1_destroy k n s =
     (hc_cell_destroy_ret k, s\<lparr>trace := trace s @ [Hc_cell_destroy n]\<rparr>)"

definition jailhouse_cell_destroy ::
  "macros \<Rightarrow> kernel_env \<Rightarrow> jailhouse_cell option \<Rightarrow> driver_state \<Rightarrow> int \<times> driver_state"
where
  "jailhouse_cell_destroy M k arg s =
     (case arg of
        None \<Rightarrow> (- EFAULT, s)
      | Some cell_params \<Rightarrow>
          if \<not> kmalloc_ok k then (- ENOMEM, s)
          else
            (case cell_config cell_params of
               None \<Rightarrow> (- EFAULT, s)
             | Some user_config \<Rightarrow>
                 let config = terminate_name M user_config in
                 if \<not> lock_ok k then (- EINTR, s)
                 else if \<not> enabled s then (- EINVAL, s)
                 else
                   (case find_cell s config of
                      None \<Rightarrow> (- ENOENT, s)
                    | Some c \<Rightarrow>
                        (case jailhouse_call1_destroy k (cell_id c) s of
                           (err, s1) \<Rightarrow>
                             if err \<noteq> 0 then (err, s1)
                             else (err, online_cell_cpus k (for_each_cell_cpu config)
                                          (delete_cell c s1))))))"

subsection \<open>\<^verbatim>\<open>jailhouse_disable\<close>\<close>

text \<open>
  The loop of \<^verbatim>\<open>leave_hypervisor\<close> that touches the hypervisor pages counts
  \<^verbatim>\<open>size\<close> down by \<^verbatim>\<open>PAGE_SIZE\<close> in unsigned arithmetic until it is 0, so it ends
  only for a multiple of the page size: \<open>None\<close> is a loop that never ends.
\<close>

partial_function (option) touch_pages :: "u64 \<Rightarrow> unit option" where
  "touch_pages sz = (if sz > 0 then touch_pages (sz - PAGE_SIZE) else Some ())"

text \<open>
  One core running \<^verbatim>\<open>leave_hypervisor\<close>: \<open>ret\<close> is what its
  \<^verbatim>\<open>jailhouse_call0(JAILHOUSE_HC_DISABLE)\<close> returns, the result is \<^verbatim>\<open>error_code\<close>.
\<close>

definition leave_hypervisor :: "u64 \<Rightarrow> int \<Rightarrow> int \<Rightarrow> int option" where
  "leave_hypervisor sz ret ec =
     (case touch_pages sz of None \<Rightarrow> None | Some _ \<Rightarrow> Some (if ret \<noteq> 0 then ret else ec))"

fun on_each_cpu_leave :: "u64 \<Rightarrow> int list \<Rightarrow> int \<Rightarrow> int option" where
  "on_each_cpu_leave sz [] ec = Some ec"
| "on_each_cpu_leave sz (ret # rets) ec =
     (case leave_hypervisor sz ret ec of
        None \<Rightarrow> None
      | Some ec1 \<Rightarrow> on_each_cpu_leave sz rets ec1)"

text \<open>\<^verbatim>\<open>for_each_cpu_mask(cpu, offlined_cpus)\<close> of \<^verbatim>\<open>jailhouse_disable\<close>.\<close>

fun online_offlined_cpus :: "kernel_env \<Rightarrow> nat list \<Rightarrow> driver_state \<Rightarrow> driver_state" where
  "online_offlined_cpus k [] s = s"
| "online_offlined_cpus k (cpu # rest) s =
     online_offlined_cpus k rest (cpu_clear_offlined cpu (snd (cpu_up k cpu s)))"

definition vunmap_hypervisor_mem :: "driver_state \<Rightarrow> driver_state" where
  "vunmap_hypervisor_mem s = s\<lparr>hypervisor_mem := None, trace := trace s @ [Vunmap]\<rparr>"

definition module_put :: "driver_state \<Rightarrow> driver_state" where
  "module_put s = s\<lparr>module_refcount := module_refcount s - 1\<rparr>"

text \<open>\<open>None\<close>: the call never returns.\<close>

definition jailhouse_disable :: "kernel_env \<Rightarrow> driver_state \<Rightarrow> (int \<times> driver_state) option" where
  "jailhouse_disable k s =
     (if \<not> lock_ok k then Some (- EINTR, s)
      else if \<not> enabled s then Some (- EINVAL, s)
      else
        (case on_each_cpu_leave (hv_core_percpu_size s) (leave_rets k) 0 of
           None \<Rightarrow> None
         | Some ec \<Rightarrow>
             let s1 = s\<lparr>error_code := ec,
                        trace := trace s @ map (\<lambda>_. Hc_disable) (leave_rets k)\<rparr> in
             if ec \<noteq> 0 then Some (ec, s1)
             else
               let s2 = vunmap_hypervisor_mem s1;
                   s3 = online_offlined_cpus k (sorted_list_of_set (offlined_cpus s2)) s2
               in Some (ec, module_put (s3\<lparr>cells := [], enabled := False\<rparr>))))"

subsection \<open>\<^verbatim>\<open>jailhouse_enable\<close>\<close>

definition enter_hypervisor :: "int \<Rightarrow> int \<Rightarrow> int" where
  "enter_hypervisor ret ec = (if ret \<noteq> 0 then ret else ec)"

definition on_each_cpu_enter :: "int list \<Rightarrow> int \<Rightarrow> int" where
  "on_each_cpu_enter rets ec = foldl (\<lambda>ec ret. enter_hypervisor ret ec) ec rets"

text \<open>
  The error labels of \<^verbatim>\<open>jailhouse_enable\<close>, each falling through to the next.
  \<^verbatim>\<open>kobject_put(&root_cell->kobj)\<close> dereferences \<open>root_cell\<close>: on an
  \<^verbatim>\<open>ERR_PTR\<close> that is an invalid access, the outcome \<open>Oops\<close>.
\<close>

definition error_unlock :: "int \<Rightarrow> driver_state \<Rightarrow> outcome \<times> driver_state" where
  "error_unlock err s = (Return err, s)"

definition error_put_module :: "int \<Rightarrow> driver_state \<Rightarrow> outcome \<times> driver_state" where
  "error_put_module err s = error_unlock err (module_put s)"

definition error_free_cell :: "cell ptr \<Rightarrow> int \<Rightarrow> driver_state \<Rightarrow> outcome \<times> driver_state" where
  "error_free_cell root_cell err s =
     (case root_cell of Inl _ \<Rightarrow> (Oops, s) | Inr _ \<Rightarrow> error_put_module err s)"

definition error_release_fw :: "cell ptr \<Rightarrow> int \<Rightarrow> driver_state \<Rightarrow> outcome \<times> driver_state" where
  "error_release_fw root_cell err s = error_free_cell root_cell err s"

definition error_unmap :: "cell ptr \<Rightarrow> int \<Rightarrow> driver_state \<Rightarrow> outcome \<times> driver_state" where
  "error_unmap root_cell err s = error_release_fw root_cell err (vunmap_hypervisor_mem s)"

text \<open>
  The mapping of the reserved region with the copy of the image and the zero-fill of
  the rest, as \<^verbatim>\<open>memcpy(hypervisor_mem, hypervisor->data, hypervisor->size)\<close> and
  \<^verbatim>\<open>memset(hypervisor_mem + hypervisor->size, 0, hv_mem->size - hypervisor->size)\<close>
  do them: the trace records the length of the copy and the offset and length of the
  fill. The mapping is \<^verbatim>\<open>hv_mem->size\<close> bytes long, so a copy of an image that is
  longer (\<open>copy_overruns\<close>) writes past its end: the access faults inside
  \<^verbatim>\<open>memcpy\<close>, the fill is never reached, and the outcome of the request is \<open>Oops\<close>.
  When the image fits, the fill ends exactly at the end of the mapping.
\<close>

definition copy_overruns :: "jailhouse_system \<Rightarrow> firmware \<Rightarrow> bool" where
  "copy_overruns config_header hypervisor = (hv_size config_header < fw_size hypervisor)"

definition map_and_copy :: "jailhouse_system \<Rightarrow> firmware \<Rightarrow> driver_state \<Rightarrow> driver_state" where
  "map_and_copy config_header hypervisor s =
     s\<lparr>hypervisor_mem := Some (hv_phys_start config_header, hv_size config_header),
       trace := trace s @
         (if copy_overruns config_header hypervisor
          then [Ioremap (hv_phys_start config_header) (hv_size config_header),
                Memcpy (fw_size hypervisor)]
          else [Ioremap (hv_phys_start config_header) (hv_size config_header),
                Memcpy (fw_size hypervisor),
                Memset (fw_size hypervisor) (hv_size config_header - fw_size hypervisor)])\<rparr>"

definition jailhouse_enable ::
  "macros \<Rightarrow> kernel_env \<Rightarrow> jailhouse_system option \<Rightarrow> driver_state \<Rightarrow> outcome \<times> driver_state"
where
  "jailhouse_enable M k arg s =
     (case arg of
        None \<Rightarrow> (Return (- EFAULT), s)
      | Some user_header \<Rightarrow>
          let config_header = user_header\<lparr>system := terminate_name M (system user_header)\<rparr> in
          if \<not> lock_ok k then (Return (- EINTR), s)
          else if enabled s \<or> \<not> module_get_ok k then error_unlock (- EBUSY) s
          else
            let s1 = s\<lparr>module_refcount := module_refcount s + 1\<rparr>;
                root_cell = create_cell k (system config_header) in
            if is_null root_cell then error_put_module (- ENOMEM) s1
            else
              (case request_firmware k of
                 (err, hypervisor) \<Rightarrow>
                   if err \<noteq> 0 then error_free_cell root_cell err s1
                   else
                   let header = fw_header hypervisor in
                   if signature header \<noteq> JAILHOUSE_SIGNATURE M
                   then error_release_fw root_cell (- EINVAL) s1
                   else
                     let s2 = s1\<lparr>hv_core_percpu_size :=
                                  PAGE_ALIGN (core_size header) +
                                  ucast (num_possible_cpus k) * percpu_size header\<rparr>;
                         config_size = system_config_size config_header in
                     if hv_size config_header \<le> hv_core_percpu_size s2 + config_size
                     then error_release_fw root_cell (- EINVAL) s2
                     else if \<not> ioremap_ok k (hv_phys_start config_header)
                     then error_release_fw root_cell (- EINVAL) s2
                     else
                       let s3 = map_and_copy config_header hypervisor s2 in
                       if copy_overruns config_header hypervisor then (Oops, s3)
                       else if \<not> system_config_readable config_header
                       then error_unmap root_cell (- EFAULT) s3
                       else
                         let s4 = s3\<lparr>error_code := on_each_cpu_enter (entry_rets k) 0,
                                    trace := trace s3 @ map (\<lambda>_. Hv_entry) (entry_rets k)\<rparr> in
                         if error_code s4 \<noteq> 0 then error_unmap root_cell (error_code s4) s4
                         else
                           (case root_cell of
                              Inl _ \<Rightarrow> (Oops, s4\<lparr>enabled := True\<rparr>)
                            | Inr c \<Rightarrow>
                                (Return 0,
                                 register_cell (c\<lparr>cell_id := 0\<rparr>) (s4\<lparr>enabled := True\<rparr>)))))"

section \<open>Invariants and stages of a request\<close>

text \<open>While the hypervisor is disabled no cell is registered.\<close>

definition registry_inv :: "driver_state \<Rightarrow> bool" where
  "registry_inv s = (\<not> enabled s \<longrightarrow> cells s = [])"

text \<open>
  The requests of \<^verbatim>\<open>jailhouse_enable\<close> that get as far as the call on every core:
  the lock is taken, the hypervisor is disabled, the module reference, the image with
  its signature, the size check, the mapping, the copy of the image and the copy of
  the configuration all succeed.
\<close>

definition enable_reaches_barrier ::
  "macros \<Rightarrow> kernel_env \<Rightarrow> jailhouse_system \<Rightarrow> driver_state \<Rightarrow> bool" where
  "enable_reaches_barrier M k hdr s =
     (lock_ok k \<and> \<not> enabled s \<and> module_get_ok k \<and>
      (case request_firmware k of
         (err, fw) \<Rightarrow>
           err = 0 \<and> signature (fw_header fw) = JAILHOUSE_SIGNATURE M \<and>
           \<not> hv_size hdr \<le> PAGE_ALIGN (core_size (fw_header fw)) +
                 ucast (num_possible_cpus k) * percpu_size (fw_header fw) +
                 system_config_size hdr \<and>
           \<not> copy_overruns hdr fw) \<and>
      ioremap_ok k (hv_phys_start hdr) \<and> system_config_readable hdr)"

text \<open>
  The requests of \<^verbatim>\<open>jailhouse_cell_create\<close> that get as far as the withdrawal of the
  CPUs: the configuration is read, the lock taken, the hypervisor enabled, the name
  free, every image loaded and the cell object constructed. \<open>new_cell\<close> is the cell
  that a successful call registers.
\<close>

definition create_prepared ::
  "macros \<Rightarrow> kernel_env \<Rightarrow> jailhouse_new_cell \<Rightarrow> jailhouse_cell_desc \<Rightarrow> driver_state \<Rightarrow> bool"
where
  "create_prepared M k p cfg s =
     (kmalloc_ok k \<and> new_config p = Some cfg \<and> lock_ok k \<and> enabled s \<and>
      find_cell s (terminate_name M cfg) = None \<and>
      \<not> isl (load_images k (terminate_name M cfg) (new_images p) (err_init k)) \<and>
      kzalloc_ok k \<and> kobject_add_err k = 0)"

definition new_cell :: "macros \<Rightarrow> kernel_env \<Rightarrow> jailhouse_cell_desc \<Rightarrow> cell" where
  "new_cell M k cfg =
     \<lparr>kobj_name = c_str (desc_name (terminate_name M cfg)), cell_id = hc_cell_create_ret k\<rparr>"

text \<open>
  The size check of \<^verbatim>\<open>jailhouse_enable\<close>. \<open>enable_reaches_check\<close> are the requests
  that get as far as the check with the root cell object constructed,
  \<open>required_size\<close> is the right-hand side of the comparison, in the unsigned 64-bit
  arithmetic of the code, and \<open>copy_in_region sz\<close> says of a recorded copy or fill that
  it stays within a region of \<open>sz\<close> bytes.
\<close>

definition copy_in_region :: "u64 \<Rightarrow> event \<Rightarrow> bool" where
  "copy_in_region sz ev =
     (case ev of
        Memcpy n \<Rightarrow> unat n \<le> unat sz
      | Memset off n \<Rightarrow> unat off + unat n \<le> unat sz
      | _ \<Rightarrow> True)"

definition enable_reaches_check :: "macros \<Rightarrow> kernel_env \<Rightarrow> driver_state \<Rightarrow> bool" where
  "enable_reaches_check M k s =
     (lock_ok k \<and> \<not> enabled s \<and> module_get_ok k \<and> kzalloc_ok k \<and> kobject_add_err k = 0 \<and>
      (case request_firmware k of
         (err, fw) \<Rightarrow> err = 0 \<and> signature (fw_header fw) = JAILHOUSE_SIGNATURE M))"

definition required_size :: "kernel_env \<Rightarrow> firmware \<Rightarrow> jailhouse_system \<Rightarrow> u64" where
  "required_size k fw hdr =
     PAGE_ALIGN (core_size (fw_header fw)) +
     ucast (num_possible_cpus k) * percpu_size (fw_header fw) + system_config_size hdr"

section \<open>Sequences of requests and the CPUs a cell owns\<close>

text \<open>
  \<^verbatim>\<open>struct cell\<close> does not record the CPUs of a cell, so the model of a sequence of
  CreateCell and DestroyCell requests carries them beside the state: \<open>owners\<close> lists,
  for every cell registered after the root cell, its name and the CPU set of the
  configuration it was created with. \<open>succeed\<close> runs one request and is \<open>None\<close>
  unless the request succeeds (a CreateCell registers its cell, a DestroyCell returns
  0); \<open>run\<close> runs a sequence of requests that all succeed. A request is
  \<open>disciplined\<close> when a CreateCell claims only CPUs that are online and a
  DestroyCell supplies the name and the CPU set of a cell in \<open>owners\<close>.
  \<open>conserved\<close> is the conservation property: the offlined CPUs are the union of
  the CPU sets of the registered non-root cells.
\<close>

datatype request =
    Create_cell kernel_env jailhouse_new_cell
  | Destroy_cell kernel_env jailhouse_cell

type_synonym owners = "(string \<times> nat set) list"

definition cell_name :: "macros \<Rightarrow> jailhouse_cell_desc \<Rightarrow> string" where
  "cell_name M cfg = c_str (desc_name (terminate_name M cfg))"

fun succeed :: "macros \<Rightarrow> request \<Rightarrow> driver_state \<times> owners \<Rightarrow> (driver_state \<times> owners) option"
where
  "succeed M (Create_cell k p) (s, own) =
     (case new_config p of
        None \<Rightarrow> None
      | Some cfg \<Rightarrow>
          if length (cells (snd (jailhouse_cell_create M k (Some p) s))) = Suc (length (cells s))
          then Some (snd (jailhouse_cell_create M k (Some p) s),
                     own @ [(cell_name M cfg, set (for_each_cell_cpu cfg))])
          else None)"
| "succeed M (Destroy_cell k p) (s, own) =
     (case cell_config p of
        None \<Rightarrow> None
      | Some cfg \<Rightarrow>
          if fst (jailhouse_cell_destroy M k (Some p) s) = 0
          then Some (snd (jailhouse_cell_destroy M k (Some p) s),
                     filter (\<lambda>e. fst e \<noteq> cell_name M cfg) own)
          else None)"

fun run :: "macros \<Rightarrow> request list \<Rightarrow> driver_state \<times> owners \<Rightarrow> (driver_state \<times> owners) option"
where
  "run M [] c = Some c"
| "run M (q # qs) c = (case succeed M q c of None \<Rightarrow> None | Some c1 \<Rightarrow> run M qs c1)"

fun disciplined :: "macros \<Rightarrow> request \<Rightarrow> driver_state \<times> owners \<Rightarrow> bool" where
  "disciplined M (Create_cell k p) (s, own) =
     (case new_config p of
        None \<Rightarrow> False
      | Some cfg \<Rightarrow> set (for_each_cell_cpu cfg) \<subseteq> cpu_online_mask s)"
| "disciplined M (Destroy_cell k p) (s, own) =
     (case cell_config p of
        None \<Rightarrow> False
      | Some cfg \<Rightarrow> (cell_name M cfg, set (for_each_cell_cpu cfg)) \<in> set own)"

fun all_disciplined :: "macros \<Rightarrow> request list \<Rightarrow> driver_state \<times> owners \<Rightarrow> bool" where
  "all_disciplined M [] c = True"
| "all_disciplined M (q # qs) c =
     (disciplined M q c \<and>
      (case succeed M q c of None \<Rightarrow> True | Some c1 \<Rightarrow> all_disciplined M qs c1))"

fun disjoint_sets :: "nat set list \<Rightarrow> bool" where
  "disjoint_sets [] = True"
| "disjoint_sets (A # As) = (A \<inter> \<Union> (set As) = {} \<and> disjoint_sets As)"

definition tracked :: "driver_state \<Rightarrow> owners \<Rightarrow> bool" where
  "tracked s own =
     (enabled s \<and> cells s \<noteq> [] \<and> map kobj_name (tl (cells s)) = map fst own \<and>
      distinct (map kobj_name (cells s)) \<and> offlined_cpus s \<inter> cpu_online_mask s = {} \<and>
      disjoint_sets (map snd own))"

definition conserved :: "driver_state \<Rightarrow> owners \<Rightarrow> bool" where
  "conserved s own = (offlined_cpus s = \<Union> (set (map snd own)))"

section \<open>Example inputs\<close>

text \<open>
  A machine with four CPUs, a 64 MiB reserved region and a 2 MiB hypervisor image, a
  kernel and a hypervisor that let every call succeed, and the state of the driver
  after loading the module and after enabling the hypervisor.
\<close>

definition ex_macros :: macros where
  "ex_macros = \<lparr>JAILHOUSE_CELL_NAME_MAXLEN = 31, JAILHOUSE_SIGNATURE = ''JAILHOUS''\<rparr>"

definition ex_firmware :: firmware where
  "ex_firmware = \<lparr>fw_size = 0x200000,
     fw_header = \<lparr>signature = ''JAILHOUS'', core_size = 0x300000, percpu_size = 0x8000\<rparr>\<rparr>"

definition ex_env :: kernel_env where
  "ex_env = \<lparr>lock_ok = True, kmalloc_ok = True, kzalloc_ok = True, kobject_add_err = 0,
     module_get_ok = True, ioremap_ok = (\<lambda>_. True), cpu_down_err = (\<lambda>_. 0),
     cpu_up_err = (\<lambda>_. 0), request_firmware = (0, ex_firmware), num_possible_cpus = 4,
     entry_rets = [0, 0, 0, 0], leave_rets = [0, 0, 0, 0], hc_cell_create_ret = 1,
     hc_cell_destroy_ret = 0, err_init = 0\<rparr>"

definition ex_system :: jailhouse_system where
  "ex_system =
     \<lparr>system = \<lparr>desc_name = ''root'', cpu_set = [True, True, True, True], mem_regions = []\<rparr>,
      hv_phys_start = 0x3c000000, hv_size = 0x4000000, system_config_size = 0x1000,
      system_config_readable = True\<rparr>"

definition ex_init :: driver_state where
  "ex_init = \<lparr>enabled = False, hypervisor_mem = None, hv_core_percpu_size = 0,
     offlined_cpus = {}, error_code = 0, cells = [], cpu_online_mask = {0, 1, 2, 3},
     module_refcount = 0, trace = []\<rparr>"

definition ex_enabled :: driver_state where
  "ex_enabled = \<lparr>enabled = True, hypervisor_mem = Some (0x3c000000, 0x4000000),
     hv_core_percpu_size = 0x320000, offlined_cpus = {}, error_code = 0,
     cells = [\<lparr>kobj_name = ''root'', cell_id = 0\<rparr>], cpu_online_mask = {0, 1, 2, 3},
     module_refcount = 1, trace = []\<rparr>"

definition ex_two_cells :: driver_state where
  "ex_two_cells = \<lparr>enabled = True, hypervisor_mem = Some (0x3c000000, 0x4000000),
     hv_core_percpu_size = 0x320000, offlined_cpus = {2, 3}, error_code = 0,
     cells = [\<lparr>kobj_name = ''root'', cell_id = 0\<rparr>, \<lparr>kobj_name = ''A'', cell_id = 1\<rparr>,
              \<lparr>kobj_name = ''B'', cell_id = 2\<rparr>],
     cpu_online_mask = {0, 1}, module_refcount = 1, trace = []\<rparr>"

definition ex_desc :: "string \<Rightarrow> bool list \<Rightarrow> jailhouse_cell_desc" where
  "ex_desc n cpus = \<lparr>desc_name = n, cpu_set = cpus, mem_regions = []\<rparr>"

definition ex_one_cell :: driver_state where
  "ex_one_cell = \<lparr>enabled = True, hypervisor_mem = Some (0x3c000000, 0x4000000),
     hv_core_percpu_size = 0x320000, offlined_cpus = {3}, error_code = 0,
     cells = [\<lparr>kobj_name = ''root'', cell_id = 0\<rparr>, \<lparr>kobj_name = ''A'', cell_id = 1\<rparr>],
     cpu_online_mask = {0, 1, 2}, module_refcount = 1, trace = []\<rparr>"

definition ex_short_header :: firmware where
  "ex_short_header = \<lparr>fw_size = 0x200000,
     fw_header = \<lparr>signature = ''JAILHOUS'', core_size = 0x1000, percpu_size = 0x1000\<rparr>\<rparr>"

definition ex_small_region :: jailhouse_system where
  "ex_small_region = ex_system\<lparr>hv_size := 0x100000\<rparr>"

definition ex_created :: driver_state where
  "ex_created = ex_enabled\<lparr>offlined_cpus := {2, 3}, cpu_online_mask := {0, 1},
     cells := [\<lparr>kobj_name = ''root'', cell_id = 0\<rparr>, \<lparr>kobj_name = ''B'', cell_id = 1\<rparr>],
     trace := [Cpu_down 2, Cpu_down 3, Hc_cell_create]\<rparr>"

text \<open>
  A sequence of requests after Enable: \<open>A\<close> is created with CPU 2, \<open>B\<close> with CPU 3,
  and \<open>A\<close> is destroyed with the CPU set it was created with; then Disable. And a
  machine on which CPU 3 is offline when the hypervisor is enabled, with the cell
  \<open>B\<close> that claims it.
\<close>

definition ex_booted :: driver_state where
  "ex_booted = ex_enabled\<lparr>trace := [Ioremap 0x3c000000 0x4000000, Memcpy 0x200000,
     Memset 0x200000 0x3e00000, Hv_entry, Hv_entry, Hv_entry, Hv_entry]\<rparr>"

definition ex_requests :: "request list" where
  "ex_requests =
     [Create_cell ex_env
        \<lparr>new_config = Some (ex_desc ''A'' [False, False, True, False]), new_images = []\<rparr>,
      Create_cell (ex_env\<lparr>hc_cell_create_ret := 2\<rparr>)
        \<lparr>new_config = Some (ex_desc ''B'' [False, False, False, True]), new_images = []\<rparr>,
      Destroy_cell ex_env \<lparr>cell_config = Some (ex_desc ''A'' [False, False, True, False])\<rparr>]"

definition ex_with_a :: driver_state where
  "ex_with_a = ex_booted\<lparr>offlined_cpus := {2}, cpu_online_mask := {0, 1, 3},
     cells := [\<lparr>kobj_name = ''root'', cell_id = 0\<rparr>, \<lparr>kobj_name = ''A'', cell_id = 1\<rparr>],
     trace := trace ex_booted @ [Cpu_down 2, Hc_cell_create]\<rparr>"

definition ex_with_a_b :: driver_state where
  "ex_with_a_b = ex_booted\<lparr>offlined_cpus := {2, 3}, cpu_online_mask := {0, 1},
     cells := [\<lparr>kobj_name = ''root'', cell_id = 0\<rparr>, \<lparr>kobj_name = ''A'', cell_id = 1\<rparr>,
               \<lparr>kobj_name = ''B'', cell_id = 2\<rparr>],
     trace := trace ex_booted @ [Cpu_down 2, Hc_cell_create, Cpu_down 3, Hc_cell_create]\<rparr>"

definition ex_with_b :: driver_state where
  "ex_with_b = ex_booted\<lparr>offlined_cpus := {3}, cpu_online_mask := {0, 1, 2},
     cells := [\<lparr>kobj_name = ''root'', cell_id = 0\<rparr>, \<lparr>kobj_name = ''B'', cell_id = 2\<rparr>],
     trace := trace ex_booted @ [Cpu_down 2, Hc_cell_create, Cpu_down 3, Hc_cell_create,
                                 Hc_cell_destroy 1, Cpu_up 2]\<rparr>"

definition ex_stopped :: driver_state where
  "ex_stopped = ex_with_b\<lparr>enabled := False, hypervisor_mem := None, offlined_cpus := {},
     cells := [], cpu_online_mask := {0, 1, 2, 3}, module_refcount := 0,
     trace := trace ex_with_b @
       [Hc_disable, Hc_disable, Hc_disable, Hc_disable, Vunmap, Cpu_up 3]\<rparr>"

definition ex_three_online :: driver_state where
  "ex_three_online = ex_enabled\<lparr>cpu_online_mask := {0, 1, 2}\<rparr>"

definition ex_offline_claimed :: driver_state where
  "ex_offline_claimed = ex_enabled\<lparr>cpu_online_mask := {0, 1, 2},
     cells := [\<lparr>kobj_name = ''root'', cell_id = 0\<rparr>, \<lparr>kobj_name = ''B'', cell_id = 1\<rparr>],
     trace := [Hc_cell_create]\<rparr>"

lemmas ex_defs = ex_macros_def ex_firmware_def ex_env_def ex_system_def ex_init_def ex_enabled_def

lemmas ex_seq_defs = ex_booted_def ex_with_a_def ex_with_a_b_def ex_with_b_def ex_enabled_def

lemmas enable_defs = jailhouse_enable_def error_unlock_def error_put_module_def error_free_cell_def
  error_release_fw_def error_unmap_def vunmap_hypervisor_mem_def module_put_def map_and_copy_def copy_overruns_def
  create_cell_def is_null_def terminate_name_def c_str_def register_cell_def
  on_each_cpu_enter_def enter_hypervisor_def PAGE_ALIGN_def PAGE_SIZE_def

section \<open>Properties of the loops\<close>

subsection \<open>The CPUs of a configuration\<close>

lemma find_next_bit_filter:
  "filter (\<lambda>i. bits ! i) [off..<sz] =
     (let c = find_next_bit bits sz off in if c < sz then c # filter (\<lambda>i. bits ! i) [Suc c..<sz] else [])"
proof (induction bits sz off rule: find_next_bit.induct)
  case (1 bits sz off)
  show ?case
  proof (cases "off < sz")
    case False
    then show ?thesis by (subst find_next_bit.simps) simp
  next
    case True
    show ?thesis
    proof (cases "bits ! off")
      case True
      with \<open>off < sz\<close> show ?thesis
        by (subst find_next_bit.simps) (simp add: upt_conv_Cons)
    next
      case False
      with \<open>off < sz\<close> have e: "find_next_bit bits sz off = find_next_bit bits sz (Suc off)"
        by (subst find_next_bit.simps) simp
      from False \<open>off < sz\<close> have "filter (\<lambda>i. bits ! i) [off..<sz] = filter (\<lambda>i. bits ! i) [Suc off..<sz]"
        by (simp add: upt_conv_Cons)
      with 1 [OF \<open>off < sz\<close> False] e show ?thesis by simp
    qed
  qed
qed

lemma for_each_cell_cpu_from_filter:
  "for_each_cell_cpu_from n config =
     filter (\<lambda>i. cpu_set config ! i) [nat (n + 1)..<length (cpu_set config)]"
proof (induction n config rule: for_each_cell_cpu_from.induct)
  case (1 cpu config)
  show ?case
    apply (subst for_each_cell_cpu_from.simps)
    apply (subst find_next_bit_filter)
    using 1
    apply (auto simp: Let_def cell_cpumask_next_def nat_add_distrib)
    done
qed

lemma for_each_cell_cpu_filter:
  "for_each_cell_cpu config = filter (\<lambda>i. cpu_set config ! i) [0..<length (cpu_set config)]"
  by (simp add: for_each_cell_cpu_def for_each_cell_cpu_from_filter)

lemma distinct_for_each_cell_cpu: "distinct (for_each_cell_cpu config)"
  by (simp add: for_each_cell_cpu_filter)

lemma set_for_each_cell_cpu:
  "set (for_each_cell_cpu config) = {i. i < length (cpu_set config) \<and> cpu_set config ! i}"
  by (auto simp: for_each_cell_cpu_filter)

subsection \<open>Primitive steps\<close>

lemma cpu_down_fields [simp]:
  "fst (cpu_down k c s) = cpu_down_err k c"
  "enabled (snd (cpu_down k c s)) = enabled s"
  "cells (snd (cpu_down k c s)) = cells s"
  "hypervisor_mem (snd (cpu_down k c s)) = hypervisor_mem s"
  "hv_core_percpu_size (snd (cpu_down k c s)) = hv_core_percpu_size s"
  "error_code (snd (cpu_down k c s)) = error_code s"
  "module_refcount (snd (cpu_down k c s)) = module_refcount s"
  "offlined_cpus (snd (cpu_down k c s)) = offlined_cpus s"
  "cpu_online_mask (snd (cpu_down k c s)) =
     (if cpu_down_err k c = 0 then cpu_online_mask s - {c} else cpu_online_mask s)"
  "trace (snd (cpu_down k c s)) = trace s @ [Cpu_down c]"
  by (simp_all add: cpu_down_def)

lemma cpu_up_fields [simp]:
  "fst (cpu_up k c s) = cpu_up_err k c"
  "enabled (snd (cpu_up k c s)) = enabled s"
  "cells (snd (cpu_up k c s)) = cells s"
  "hypervisor_mem (snd (cpu_up k c s)) = hypervisor_mem s"
  "hv_core_percpu_size (snd (cpu_up k c s)) = hv_core_percpu_size s"
  "error_code (snd (cpu_up k c s)) = error_code s"
  "module_refcount (snd (cpu_up k c s)) = module_refcount s"
  "offlined_cpus (snd (cpu_up k c s)) = offlined_cpus s"
  "cpu_online_mask (snd (cpu_up k c s)) =
     (if cpu_up_err k c = 0 then insert c (cpu_online_mask s) else cpu_online_mask s)"
  "trace (snd (cpu_up k c s)) = trace s @ [Cpu_up c]"
  by (simp_all add: cpu_up_def)

lemma cpu_set_offlined_fields [simp]:
  "enabled (cpu_set_offlined c s) = enabled s"
  "cells (cpu_set_offlined c s) = cells s"
  "hypervisor_mem (cpu_set_offlined c s) = hypervisor_mem s"
  "hv_core_percpu_size (cpu_set_offlined c s) = hv_core_percpu_size s"
  "error_code (cpu_set_offlined c s) = error_code s"
  "module_refcount (cpu_set_offlined c s) = module_refcount s"
  "offlined_cpus (cpu_set_offlined c s) = insert c (offlined_cpus s)"
  "cpu_online_mask (cpu_set_offlined c s) = cpu_online_mask s"
  "trace (cpu_set_offlined c s) = trace s"
  by (simp_all add: cpu_set_offlined_def)

lemma cpu_clear_offlined_fields [simp]:
  "enabled (cpu_clear_offlined c s) = enabled s"
  "cells (cpu_clear_offlined c s) = cells s"
  "hypervisor_mem (cpu_clear_offlined c s) = hypervisor_mem s"
  "hv_core_percpu_size (cpu_clear_offlined c s) = hv_core_percpu_size s"
  "error_code (cpu_clear_offlined c s) = error_code s"
  "module_refcount (cpu_clear_offlined c s) = module_refcount s"
  "offlined_cpus (cpu_clear_offlined c s) = offlined_cpus s - {c}"
  "cpu_online_mask (cpu_clear_offlined c s) = cpu_online_mask s"
  "trace (cpu_clear_offlined c s) = trace s"
  by (simp_all add: cpu_clear_offlined_def)

subsection \<open>The loops over CPUs\<close>

lemma offline_cell_cpus_frame:
  "enabled (snd (offline_cell_cpus k cpus err s)) = enabled s \<and>
   cells (snd (offline_cell_cpus k cpus err s)) = cells s \<and>
   hypervisor_mem (snd (offline_cell_cpus k cpus err s)) = hypervisor_mem s \<and>
   hv_core_percpu_size (snd (offline_cell_cpus k cpus err s)) = hv_core_percpu_size s \<and>
   error_code (snd (offline_cell_cpus k cpus err s)) = error_code s \<and>
   module_refcount (snd (offline_cell_cpus k cpus err s)) = module_refcount s"
  by (induction cpus arbitrary: err s) (simp_all add: cpu_online_def)

lemma offline_cell_cpus_masks:
  "cpu_online_mask (snd (offline_cell_cpus k cpus err s)) \<subseteq> cpu_online_mask s \<and>
   cpu_online_mask s - cpu_online_mask (snd (offline_cell_cpus k cpus err s)) \<subseteq> set cpus \<and>
   offlined_cpus (snd (offline_cell_cpus k cpus err s)) =
     offlined_cpus s \<union> (cpu_online_mask s - cpu_online_mask (snd (offline_cell_cpus k cpus err s)))"
proof (induction cpus arbitrary: err s)
  case Nil
  show ?case by simp
next
  case (Cons c cpus)
  show ?case
  proof (cases "cpu_online s c \<and> cpu_down_err k c = 0")
    case True
    let ?s1 = "cpu_set_offlined c (snd (cpu_down k c s))"
    from Cons [of 0 ?s1] True show ?thesis
      by (auto simp: cpu_online_def)
  next
    case False
    with Cons [of err s] show ?thesis by (auto simp: cpu_online_def)
  qed
qed

lemma offline_cell_cpus_Inr:
  "fst (offline_cell_cpus k cpus err s) = Inr e \<Longrightarrow>
     (\<forall>c\<in>set cpus. c \<in> cpu_online_mask s \<longrightarrow> cpu_down_err k c = 0) \<and>
     cpu_online_mask (snd (offline_cell_cpus k cpus err s)) = cpu_online_mask s - set cpus \<and>
     e = (if set cpus \<inter> cpu_online_mask s = {} then err else 0)"
proof (induction cpus arbitrary: err s)
  case Nil
  then show ?case by simp
next
  case (Cons c cpus)
  show ?case
  proof (cases "cpu_online s c")
    case False
    with Cons.prems have "fst (offline_cell_cpus k cpus err s) = Inr e" by simp
    from Cons.IH [OF this] False show ?thesis by (auto simp: cpu_online_def)
  next
    case True
    with Cons.prems have z: "cpu_down_err k c = 0" by (auto split: if_splits)
    let ?s1 = "cpu_set_offlined c (snd (cpu_down k c s))"
    from Cons.prems True z have "fst (offline_cell_cpus k cpus 0 ?s1) = Inr e" by simp
    from Cons.IH [OF this] True z show ?thesis by (auto simp: cpu_online_def)
  qed
qed

lemma offline_cell_cpus_Inl:
  "fst (offline_cell_cpus k cpus err s) = Inl e \<Longrightarrow>
     e \<noteq> 0 \<and> (\<exists>c\<in>set cpus. c \<in> cpu_online_mask s \<and> cpu_down_err k c = e)"
proof (induction cpus arbitrary: err s)
  case Nil
  then show ?case by simp
next
  case (Cons c cpus)
  show ?case
  proof (cases "cpu_online s c")
    case False
    with Cons.prems have "fst (offline_cell_cpus k cpus err s) = Inl e" by simp
    from Cons.IH [OF this] show ?thesis by auto
  next
    case True
    show ?thesis
    proof (cases "cpu_down_err k c = 0")
      case False
      with Cons.prems True show ?thesis by (auto simp: cpu_online_def)
    next
      case z: True
      let ?s1 = "cpu_set_offlined c (snd (cpu_down k c s))"
      from Cons.prems True z have "fst (offline_cell_cpus k cpus 0 ?s1) = Inl e" by simp
      from Cons.IH [OF this] z show ?thesis by auto
    qed
  qed
qed

lemma error_cpu_online_frame:
  "enabled (error_cpu_online k cpus s) = enabled s \<and>
   cells (error_cpu_online k cpus s) = cells s \<and>
   hypervisor_mem (error_cpu_online k cpus s) = hypervisor_mem s \<and>
   hv_core_percpu_size (error_cpu_online k cpus s) = hv_core_percpu_size s \<and>
   error_code (error_cpu_online k cpus s) = error_code s \<and>
   module_refcount (error_cpu_online k cpus s) = module_refcount s"
  by (induction cpus arbitrary: s) (simp_all add: cpu_online_def)

lemma error_cpu_online_masks:
  "cpu_online_mask (error_cpu_online k cpus s) =
     cpu_online_mask s \<union> {c \<in> set cpus. cpu_up_err k c = 0} \<and>
   offlined_cpus (error_cpu_online k cpus s) =
     offlined_cpus s - {c \<in> set cpus. c \<notin> cpu_online_mask s \<and> cpu_up_err k c = 0}"
proof (induction cpus arbitrary: s)
  case Nil
  show ?case by simp
next
  case (Cons c cpus)
  show ?case
  proof (cases "cpu_online s c")
    case True
    with Cons [of s] show ?thesis by (auto simp: cpu_online_def)
  next
    case False
    show ?thesis
    proof (cases "cpu_up_err k c = 0")
      case True
      from Cons [of "cpu_clear_offlined c (snd (cpu_up k c s))"] False True show ?thesis
        by (auto simp: cpu_online_def)
    next
      case nz: False
      from Cons [of "snd (cpu_up k c s)"] False nz show ?thesis
        by (auto simp: cpu_online_def)
    qed
  qed
qed

lemma online_cell_cpus_frame:
  "enabled (online_cell_cpus k cpus s) = enabled s \<and>
   cells (online_cell_cpus k cpus s) = cells s \<and>
   hypervisor_mem (online_cell_cpus k cpus s) = hypervisor_mem s \<and>
   hv_core_percpu_size (online_cell_cpus k cpus s) = hv_core_percpu_size s \<and>
   error_code (online_cell_cpus k cpus s) = error_code s \<and>
   module_refcount (online_cell_cpus k cpus s) = module_refcount s"
  by (induction cpus arbitrary: s) simp_all

lemma online_cell_cpus_masks:
  "offlined_cpus (online_cell_cpus k cpus s) = offlined_cpus s - set cpus \<and>
   cpu_online_mask (online_cell_cpus k cpus s) =
     cpu_online_mask s \<union> {c \<in> set cpus \<inter> offlined_cpus s. cpu_up_err k c = 0}"
proof (induction cpus arbitrary: s)
  case Nil
  show ?case by simp
next
  case (Cons c cpus)
  show ?case
  proof (cases "c \<in> offlined_cpus s")
    case True
    from Cons [of "cpu_clear_offlined c (snd (cpu_up k c s))"] True show ?thesis
      by auto
  next
    case False
    with Cons [of s] show ?thesis by auto
  qed
qed

lemma online_cell_cpus_trace:
  "distinct cpus \<Longrightarrow>
   trace (online_cell_cpus k cpus s) =
     trace s @ map Cpu_up (filter (\<lambda>c. c \<in> offlined_cpus s) cpus)"
proof (induction cpus arbitrary: s)
  case Nil
  show ?case by simp
next
  case (Cons c cpus)
  then have d: "distinct cpus" and n: "c \<notin> set cpus" by auto
  have f: "filter (\<lambda>x. x \<in> offlined_cpus s - {c}) cpus = filter (\<lambda>x. x \<in> offlined_cpus s) cpus"
    using n by (intro filter_cong) auto
  show ?case
  proof (cases "c \<in> offlined_cpus s")
    case True
    from Cons.IH [OF d, of "cpu_clear_offlined c (snd (cpu_up k c s))"] True f show ?thesis
      by simp
  next
    case False
    with Cons.IH [OF d, of s] show ?thesis by simp
  qed
qed

lemma online_offlined_cpus_frame:
  "enabled (online_offlined_cpus k cpus s) = enabled s \<and>
   cells (online_offlined_cpus k cpus s) = cells s \<and>
   hypervisor_mem (online_offlined_cpus k cpus s) = hypervisor_mem s \<and>
   hv_core_percpu_size (online_offlined_cpus k cpus s) = hv_core_percpu_size s \<and>
   error_code (online_offlined_cpus k cpus s) = error_code s \<and>
   module_refcount (online_offlined_cpus k cpus s) = module_refcount s"
  by (induction cpus arbitrary: s) simp_all

lemma online_offlined_cpus_masks:
  "offlined_cpus (online_offlined_cpus k cpus s) = offlined_cpus s - set cpus \<and>
   cpu_online_mask (online_offlined_cpus k cpus s) =
     cpu_online_mask s \<union> {c \<in> set cpus. cpu_up_err k c = 0}"
proof (induction cpus arbitrary: s)
  case Nil
  show ?case by simp
next
  case (Cons c cpus)
  from Cons [of "cpu_clear_offlined c (snd (cpu_up k c s))"] show ?case by auto
qed

section \<open>Enabling the hypervisor\<close>

lemma ex_enable:
  "jailhouse_enable ex_macros ex_env (Some ex_system) ex_init =
     (Return 0, ex_enabled\<lparr>trace := [Ioremap 0x3c000000 0x4000000, Memcpy 0x200000,
        Memset 0x200000 0x3e00000, Hv_entry, Hv_entry, Hv_entry, Hv_entry]\<rparr>)"
  by (simp add: ex_defs enable_defs Let_def)

text \<open>
  C6. Enable in a state that is already enabled changes nothing: the registry, the
  mapping of the hypervisor memory, the offlined CPUs and the enabled flag are those
  of the state before the call, which is any enabled state and so the one the first
  successful Enable left. Once the argument has been read and the lock taken, the
  result is \<open>-EBUSY\<close>, the code of AlreadyEnabled; a faulting argument gives
  \<open>-EFAULT\<close> and an interrupted wait for the lock \<open>-EINTR\<close>, before the flag is
  looked at.
\<close>

theorem enable_already_enabled:
  "enabled s \<Longrightarrow>
   jailhouse_enable M k arg s =
     (Return (if arg = None then - EFAULT else if \<not> lock_ok k then - EINTR else - EBUSY), s)"
  by (simp add: jailhouse_enable_def error_unlock_def Let_def split: option.splits)

theorem enable_already_enabled_witness:
  "enabled (snd (jailhouse_enable ex_macros ex_env (Some ex_system) ex_init)) \<and>
   jailhouse_enable ex_macros ex_env (Some ex_system)
       (snd (jailhouse_enable ex_macros ex_env (Some ex_system) ex_init)) =
     (Return (- EBUSY), snd (jailhouse_enable ex_macros ex_env (Some ex_system) ex_init))"
proof -
  have h: "enabled (snd (jailhouse_enable ex_macros ex_env (Some ex_system) ex_init))"
    by (simp add: ex_enable ex_enabled_def)
  show ?thesis
    using h enable_already_enabled [OF h, of ex_macros ex_env "Some ex_system"]
    by (simp add: ex_env_def)
qed

section \<open>Creating and destroying cells\<close>

lemma for_each_cell_cpu_terminate_name [simp]:
  "for_each_cell_cpu (terminate_name M cfg) = for_each_cell_cpu cfg"
  by (simp add: for_each_cell_cpu_filter terminate_name_def)

lemma find_cell_None_iff:
  "find_cell s config = None \<longleftrightarrow> c_str (desc_name config) \<notin> kobj_name ` set (cells s)"
  by (auto simp: find_cell_def find_None_iff image_iff)

lemma find_cell_Some:
  "find_cell s config = Some c \<Longrightarrow> c \<in> set (cells s) \<and> kobj_name c = c_str (desc_name config)"
  by (auto simp: find_cell_def find_Some_iff)

subsection \<open>The registry is empty while the hypervisor is disabled\<close>

lemma offline_cell_cpus_frameD:
  "offline_cell_cpus k cpus err s = (r, s1) \<Longrightarrow>
     enabled s1 = enabled s \<and> cells s1 = cells s \<and> hypervisor_mem s1 = hypervisor_mem s \<and>
     hv_core_percpu_size s1 = hv_core_percpu_size s \<and> error_code s1 = error_code s \<and>
     module_refcount s1 = module_refcount s"
  using offline_cell_cpus_frame [of k cpus err s] by simp

lemma create_frame:
  "enabled (snd (jailhouse_cell_create M k arg s)) = enabled s \<and>
   hypervisor_mem (snd (jailhouse_cell_create M k arg s)) = hypervisor_mem s \<and>
   hv_core_percpu_size (snd (jailhouse_cell_create M k arg s)) = hv_core_percpu_size s \<and>
   module_refcount (snd (jailhouse_cell_create M k arg s)) = module_refcount s"
  by (auto simp: jailhouse_cell_create_def Let_def jailhouse_call1_create_def register_cell_def
      error_cpu_online_frame
      split: option.splits sum.splits prod.splits dest!: offline_cell_cpus_frameD)

lemma destroy_frame:
  "enabled (snd (jailhouse_cell_destroy M k arg s)) = enabled s \<and>
   hypervisor_mem (snd (jailhouse_cell_destroy M k arg s)) = hypervisor_mem s \<and>
   hv_core_percpu_size (snd (jailhouse_cell_destroy M k arg s)) = hv_core_percpu_size s \<and>
   module_refcount (snd (jailhouse_cell_destroy M k arg s)) = module_refcount s"
  by (auto simp: jailhouse_cell_destroy_def Let_def jailhouse_call1_destroy_def delete_cell_def
      online_cell_cpus_frame split: option.splits)

lemma create_disabled: "\<not> enabled s \<Longrightarrow> snd (jailhouse_cell_create M k arg s) = s"
  by (simp add: jailhouse_cell_create_def Let_def split: option.splits)

lemma destroy_disabled: "\<not> enabled s \<Longrightarrow> snd (jailhouse_cell_destroy M k arg s) = s"
  by (simp add: jailhouse_cell_destroy_def Let_def split: option.splits)

lemma registry_inv_init: "registry_inv ex_init"
  by (simp add: registry_inv_def ex_init_def)

lemma registry_inv_create:
  "registry_inv s \<Longrightarrow> registry_inv (snd (jailhouse_cell_create M k arg s))"
  using create_frame [of M k arg s] create_disabled [of s M k arg]
  by (auto simp: registry_inv_def)

lemma registry_inv_destroy:
  "registry_inv s \<Longrightarrow> registry_inv (snd (jailhouse_cell_destroy M k arg s))"
  using destroy_frame [of M k arg s] destroy_disabled [of s M k arg]
  by (auto simp: registry_inv_def)

lemma registry_inv_disable:
  "registry_inv s \<Longrightarrow> jailhouse_disable k s = Some (r, s') \<Longrightarrow> registry_inv s'"
  by (auto simp: registry_inv_def jailhouse_disable_def Let_def module_put_def
      online_offlined_cpus_frame split: if_splits option.splits)

lemma registry_inv_enable:
  "registry_inv s \<Longrightarrow> registry_inv (snd (jailhouse_enable M k arg s))"
  by (auto simp: registry_inv_def jailhouse_enable_def Let_def error_unlock_def
      error_put_module_def error_free_cell_def error_release_fw_def error_unmap_def
      vunmap_hypervisor_mem_def module_put_def map_and_copy_def copy_overruns_def register_cell_def
      split: option.splits sum.splits prod.splits)


subsection \<open>A name that is taken\<close>

text \<open>
  C7. A CreateCell call whose configuration name, cut at
  \<^verbatim>\<open>JAILHOUSE_CELL_NAME_MAXLEN\<close>, is the name of a registered cell returns the state
  it was given: no CPU leaves the online mask, the trace gains no hypervisor call and
  no \<^verbatim>\<open>cpu_down\<close>, and the registry is the same. The result is \<open>-EEXIST\<close>, the code
  of NameConflict, once the buffer for the configuration has been allocated and the
  lock taken; before that the call fails with \<open>-ENOMEM\<close> or \<open>-EINTR\<close>.
\<close>

theorem create_name_conflict:
  assumes "registry_inv s" and "new_config p = Some cfg"
    and "c_str (desc_name (terminate_name M cfg)) \<in> kobj_name ` set (cells s)"
  shows "jailhouse_cell_create M k (Some p) s =
           (if \<not> kmalloc_ok k then - ENOMEM else if \<not> lock_ok k then - EINTR else - EEXIST, s)"
proof -
  from assms(3) have "cells s \<noteq> []" by auto
  with assms(1) have en: "enabled s" by (auto simp: registry_inv_def)
  from assms(3) have "find_cell s (terminate_name M cfg) \<noteq> None"
    by (simp add: find_cell_None_iff)
  with en assms(2) show ?thesis
    by (simp add: jailhouse_cell_create_def Let_def)
qed

theorem create_name_conflict_witness:
  "registry_inv ex_enabled \<and>
   jailhouse_cell_create ex_macros ex_env
     (Some \<lparr>new_config = Some (ex_desc ''root'' [False, False, True, True]), new_images = []\<rparr>)
     ex_enabled = (- EEXIST, ex_enabled)"
proof -
  have 1: "registry_inv ex_enabled" by (simp add: registry_inv_def ex_enabled_def)
  have 2: "new_config \<lparr>new_config = Some (ex_desc ''root'' [False, False, True, True]), new_images = []\<rparr>
     = Some (ex_desc ''root'' [False, False, True, True])" by simp
  have 3: "c_str (desc_name (terminate_name ex_macros (ex_desc ''root'' [False, False, True, True])))
     \<in> kobj_name ` set (cells ex_enabled)"
    by (simp add: c_str_def terminate_name_def ex_desc_def ex_enabled_def ex_macros_def)
  show ?thesis
    using 1 create_name_conflict [OF 1 2 3, of ex_env]
    by (simp add: ex_env_def)
qed

subsection \<open>DestroyCell that fails\<close>

text \<open>
  C9. With the hypervisor enabled, the configuration read and the lock taken,
  DestroyCell on a name that no registered cell has returns \<open>-ENOENT\<close> (NotFound) and
  the state unchanged; and when the destroy hypercall returns a nonzero value the call
  returns that value, and the state differs from the one before only by the record of
  the hypercall in the trace: the cell is still registered and the offlined CPUs and
  the online mask are the same.
\<close>

theorem destroy_failure_intact:
  assumes "cell_config p = Some cfg" and "kmalloc_ok k" and "lock_ok k" and "enabled s"
  shows "(c_str (desc_name (terminate_name M cfg)) \<notin> kobj_name ` set (cells s) \<longrightarrow>
            jailhouse_cell_destroy M k (Some p) s = (- ENOENT, s)) \<and>
         (\<forall>c. find_cell s (terminate_name M cfg) = Some c \<and> hc_cell_destroy_ret k \<noteq> 0 \<longrightarrow>
            jailhouse_cell_destroy M k (Some p) s =
              (hc_cell_destroy_ret k, s\<lparr>trace := trace s @ [Hc_cell_destroy (cell_id c)]\<rparr>))"
  using assms
  by (auto simp: jailhouse_cell_destroy_def Let_def jailhouse_call1_destroy_def
      find_cell_None_iff [symmetric])

theorem destroy_failure_intact_witness:
  "jailhouse_cell_destroy ex_macros ex_env
     (Some \<lparr>cell_config = Some (ex_desc ''nosuch'' [False, False, True, False])\<rparr>) ex_two_cells =
     (- ENOENT, ex_two_cells) \<and>
   jailhouse_cell_destroy ex_macros (ex_env\<lparr>hc_cell_destroy_ret := - EBUSY\<rparr>)
     (Some \<lparr>cell_config = Some (ex_desc ''A'' [False, False, True, False])\<rparr>) ex_two_cells =
     (- EBUSY, ex_two_cells\<lparr>trace := [Hc_cell_destroy 1]\<rparr>)"
proof -
  have e: "enabled ex_two_cells" by (simp add: ex_two_cells_def)
  have n: "c_str (desc_name (terminate_name ex_macros (ex_desc ''nosuch'' [False, False, True, False])))
             \<notin> kobj_name ` set (cells ex_two_cells)"
    by (simp add: c_str_def terminate_name_def ex_desc_def ex_two_cells_def ex_macros_def)
  have f: "find_cell ex_two_cells (terminate_name ex_macros (ex_desc ''A'' [False, False, True, False]))
             = Some \<lparr>kobj_name = ''A'', cell_id = 1\<rparr>"
    by (simp add: find_cell_def c_str_def terminate_name_def ex_desc_def ex_two_cells_def ex_macros_def)
  have 1: "jailhouse_cell_destroy ex_macros ex_env
     (Some \<lparr>cell_config = Some (ex_desc ''nosuch'' [False, False, True, False])\<rparr>) ex_two_cells =
     (- ENOENT, ex_two_cells)"
    using n e destroy_failure_intact [of "\<lparr>cell_config = Some (ex_desc ''nosuch'' [False, False, True, False])\<rparr>"
        "ex_desc ''nosuch'' [False, False, True, False]" ex_env ex_two_cells ex_macros]
    by (simp add: ex_env_def)
  have 2: "jailhouse_cell_destroy ex_macros (ex_env\<lparr>hc_cell_destroy_ret := - EBUSY\<rparr>)
     (Some \<lparr>cell_config = Some (ex_desc ''A'' [False, False, True, False])\<rparr>) ex_two_cells =
     (- EBUSY, ex_two_cells\<lparr>trace := [Hc_cell_destroy 1]\<rparr>)"
    using f e destroy_failure_intact [of "\<lparr>cell_config = Some (ex_desc ''A'' [False, False, True, False])\<rparr>"
        "ex_desc ''A'' [False, False, True, False]" "ex_env\<lparr>hc_cell_destroy_ret := - EBUSY\<rparr>"
        ex_two_cells ex_macros]
    by (simp add: ex_env_def EBUSY_def ex_two_cells_def)
  from 1 2 show ?thesis by simp
qed

subsection \<open>The CPUs a successful DestroyCell brings back\<close>

lemma destroy_success:
  assumes "fst (jailhouse_cell_destroy M k (Some p) s) = 0" and "cell_config p = Some cfg"
  shows "\<exists>c. find_cell s (terminate_name M cfg) = Some c \<and>
           cells (snd (jailhouse_cell_destroy M k (Some p) s)) = remove1 c (cells s) \<and>
           trace (snd (jailhouse_cell_destroy M k (Some p) s)) =
             trace s @ Hc_cell_destroy (cell_id c) #
               map Cpu_up (filter (\<lambda>x. x \<in> offlined_cpus s) (for_each_cell_cpu cfg)) \<and>
           offlined_cpus (snd (jailhouse_cell_destroy M k (Some p) s)) =
             offlined_cpus s - set (for_each_cell_cpu cfg) \<and>
           cpu_online_mask (snd (jailhouse_cell_destroy M k (Some p) s)) =
             cpu_online_mask s \<union>
             {x \<in> set (for_each_cell_cpu cfg) \<inter> offlined_cpus s. cpu_up_err k x = 0} \<and>
           enabled (snd (jailhouse_cell_destroy M k (Some p) s)) = enabled s"
proof -
  let ?s' = "snd (jailhouse_cell_destroy M k (Some p) s)"
  from assms obtain c where c: "find_cell s (terminate_name M cfg) = Some c"
    and s': "?s' = online_cell_cpus k (for_each_cell_cpu cfg)
                    (delete_cell c (s\<lparr>trace := trace s @ [Hc_cell_destroy (cell_id c)]\<rparr>))"
    by (auto simp: jailhouse_cell_destroy_def Let_def jailhouse_call1_destroy_def errno_defs
        split: option.splits if_splits)
  let ?s1 = "delete_cell c (s\<lparr>trace := trace s @ [Hc_cell_destroy (cell_id c)]\<rparr>)"
  have f: "offlined_cpus ?s1 = offlined_cpus s" "cpu_online_mask ?s1 = cpu_online_mask s"
    "trace ?s1 = trace s @ [Hc_cell_destroy (cell_id c)]" "cells ?s1 = remove1 c (cells s)"
    "enabled ?s1 = enabled s"
    by (simp_all add: delete_cell_def)
  have m: "offlined_cpus ?s' = offlined_cpus s - set (for_each_cell_cpu cfg)"
    "cpu_online_mask ?s' = cpu_online_mask s \<union>
       {x \<in> set (for_each_cell_cpu cfg) \<inter> offlined_cpus s. cpu_up_err k x = 0}"
    using online_cell_cpus_masks [of k "for_each_cell_cpu cfg" ?s1] by (simp_all add: s' f)
  have t: "trace ?s' = trace s @ Hc_cell_destroy (cell_id c) #
             map Cpu_up (filter (\<lambda>x. x \<in> offlined_cpus s) (for_each_cell_cpu cfg))"
    using online_cell_cpus_trace [OF distinct_for_each_cell_cpu, of k cfg ?s1] by (simp add: s' f)
  have cs: "cells ?s' = remove1 c (cells s)" "enabled ?s' = enabled s"
    using online_cell_cpus_frame [of k "for_each_cell_cpu cfg" ?s1] by (simp_all add: s' f)
  from c m t cs show ?thesis by blast
qed

lemmas destroy_defs = jailhouse_cell_destroy_def jailhouse_call1_destroy_def delete_cell_def
  find_cell_def terminate_name_def c_str_def cpu_up_def cpu_clear_offlined_def ex_desc_def

lemma ex_destroy:
  "jailhouse_cell_destroy ex_macros ex_env
     (Some \<lparr>cell_config = Some (ex_desc ''A'' [False, False, False, True])\<rparr>) ex_two_cells =
   (0, ex_two_cells\<lparr>offlined_cpus := {2}, cpu_online_mask := {0, 1, 3},
        cells := [\<lparr>kobj_name = ''root'', cell_id = 0\<rparr>, \<lparr>kobj_name = ''B'', cell_id = 2\<rparr>],
        trace := [Hc_cell_destroy 1, Cpu_up 3]\<rparr>)"
  apply (simp add: destroy_defs ex_env_def ex_macros_def ex_two_cells_def Let_def for_each_cell_cpu_filter upt_conv_Cons)
  apply auto
  done


section \<open>The call on every core\<close>

lemma on_each_cpu_enter_last:
  "on_each_cpu_enter rets ec = last (ec # filter (\<lambda>r. r \<noteq> 0) rets)"
  by (induction rets rule: rev_induct) (simp_all add: on_each_cpu_enter_def enter_hypervisor_def)

lemma last_nonzero:
  "\<exists>r\<in>set rets. r \<noteq> (0::int) \<Longrightarrow>
     last (filter (\<lambda>r. r \<noteq> 0) rets) \<noteq> 0 \<and> last (filter (\<lambda>r. r \<noteq> 0) rets) \<in> set rets"
proof -
  assume "\<exists>r\<in>set rets. r \<noteq> 0"
  then have ne: "filter (\<lambda>r. r \<noteq> 0) rets \<noteq> []" by (auto simp: filter_empty_conv)
  from last_in_set [OF ne] show ?thesis by auto
qed

lemma on_each_cpu_enter_nonzero:
  assumes "\<exists>r\<in>set rets. r \<noteq> 0"
  shows "on_each_cpu_enter rets 0 = last (filter (\<lambda>r. r \<noteq> 0) rets)"
proof -
  from assms have "filter (\<lambda>r. r \<noteq> 0) rets \<noteq> []" by (auto simp: filter_empty_conv)
  then show ?thesis by (simp add: on_each_cpu_enter_last)
qed

lemma touch_pages_aligned: "unat sz = n * 4096 \<Longrightarrow> touch_pages sz = Some ()"
proof (induction n arbitrary: sz)
  case 0
  then have "sz = 0" by (simp add: unat_eq_0)
  then show ?case by (subst touch_pages.simps) simp
next
  case (Suc n)
  then have ge: "(4096 :: u64) \<le> sz" by (simp add: word_le_nat_alt)
  then have pos: "sz > 0" by (auto simp: word_less_nat_alt word_le_nat_alt)
  from ge have "unat (sz - 4096) = unat sz - 4096" by (simp add: unat_sub)
  with Suc.prems have "unat (sz - 4096) = n * 4096" by simp
  from Suc.IH [OF this] pos show ?case
    by (subst touch_pages.simps) (simp add: PAGE_SIZE_def)
qed

lemma on_each_cpu_leave_aligned:
  "4096 dvd unat sz \<Longrightarrow> on_each_cpu_leave sz rets ec = Some (on_each_cpu_enter rets ec)"
proof (induction rets arbitrary: ec)
  case Nil
  show ?case by (simp add: on_each_cpu_enter_def)
next
  case (Cons r rets)
  from Cons.prems obtain n where "unat sz = n * 4096" by (auto simp: dvd_def mult.commute)
  then have "touch_pages sz = Some ()" by (rule touch_pages_aligned)
  with Cons show ?case
    by (simp add: leave_hypervisor_def on_each_cpu_enter_def enter_hypervisor_def)
qed

text \<open>
  What the code does when at least one core reports a nonzero status to the call on
  every core, on the paths where it returns. For Enable (the request reaches the
  call, and \<^verbatim>\<open>create_cell\<close> has constructed the root cell object): the result is the last nonzero status written to
  \<^verbatim>\<open>error_code\<close>, one of the statuses the cores reported; the enabled flag, the
  registry, the offlined CPUs, the online mask and the module reference count are
  those before the call, and the hypervisor memory is unmapped. For Disable (the
  page-touching loop of \<^verbatim>\<open>leave_hypervisor\<close> ends, which it does for a
  \<^verbatim>\<open>hv_core_percpu_size\<close> that is a multiple of the page size): the call returns, with
  the last nonzero status, and the state differs from the one before only in
  \<^verbatim>\<open>error_code\<close> and the trace of the hypercalls, so nothing is unmapped and the
  registry and the offlined CPUs are unchanged.
\<close>

lemma barrier_failure_returns:
  "(enable_reaches_barrier M k hdr s \<and> kzalloc_ok k \<and> kobject_add_err k = 0 \<and>
      (\<exists>r\<in>set (entry_rets k). r \<noteq> 0) \<longrightarrow>
      (\<exists>e s'. jailhouse_enable M k (Some hdr) s = (Return e, s') \<and>
         e \<noteq> 0 \<and> e \<in> set (entry_rets k) \<and> e = last (filter (\<lambda>r. r \<noteq> 0) (entry_rets k)) \<and>
         enabled s' = enabled s \<and> hypervisor_mem s' = None \<and> cells s' = cells s \<and>
         offlined_cpus s' = offlined_cpus s \<and> cpu_online_mask s' = cpu_online_mask s \<and>
         module_refcount s' = module_refcount s)) \<and>
   (lock_ok k \<and> enabled s \<and> 4096 dvd unat (hv_core_percpu_size s) \<and>
      (\<exists>r\<in>set (leave_rets k). r \<noteq> 0) \<longrightarrow>
      (\<exists>e. jailhouse_disable k s =
           Some (e, s\<lparr>error_code := e,
                     trace := trace s @ map (\<lambda>_. Hc_disable) (leave_rets k)\<rparr>) \<and>
         e \<noteq> 0 \<and> e \<in> set (leave_rets k) \<and> e = last (filter (\<lambda>r. r \<noteq> 0) (leave_rets k))))"
proof (intro conjI impI)
  assume a: "enable_reaches_barrier M k hdr s \<and> kzalloc_ok k \<and> kobject_add_err k = 0 \<and>
      (\<exists>r\<in>set (entry_rets k). r \<noteq> 0)"
  then obtain fw where fw: "request_firmware k = (0, fw)"
    by (auto simp: enable_reaches_barrier_def split: prod.splits)
  let ?e = "last (filter (\<lambda>r. r \<noteq> 0) (entry_rets k))"
  from a have e: "on_each_cpu_enter (entry_rets k) 0 = ?e" "?e \<noteq> 0" "?e \<in> set (entry_rets k)"
    using on_each_cpu_enter_nonzero [of "entry_rets k"] last_nonzero [of "entry_rets k"] by auto
  from a fw e show "\<exists>e s'. jailhouse_enable M k (Some hdr) s = (Return e, s') \<and>
         e \<noteq> 0 \<and> e \<in> set (entry_rets k) \<and> e = last (filter (\<lambda>r. r \<noteq> 0) (entry_rets k)) \<and>
         enabled s' = enabled s \<and> hypervisor_mem s' = None \<and> cells s' = cells s \<and>
         offlined_cpus s' = offlined_cpus s \<and> cpu_online_mask s' = cpu_online_mask s \<and>
         module_refcount s' = module_refcount s"
    by (simp add: enable_reaches_barrier_def jailhouse_enable_def Let_def error_unlock_def
        error_put_module_def error_free_cell_def error_release_fw_def error_unmap_def
        vunmap_hypervisor_mem_def module_put_def map_and_copy_def copy_overruns_def create_cell_def is_null_def
        terminate_name_def)
next
  assume a: "lock_ok k \<and> enabled s \<and> 4096 dvd unat (hv_core_percpu_size s) \<and>
      (\<exists>r\<in>set (leave_rets k). r \<noteq> 0)"
  let ?e = "last (filter (\<lambda>r. r \<noteq> 0) (leave_rets k))"
  from a have e: "on_each_cpu_enter (leave_rets k) 0 = ?e" "?e \<noteq> 0" "?e \<in> set (leave_rets k)"
    using on_each_cpu_enter_nonzero [of "leave_rets k"] last_nonzero [of "leave_rets k"] by auto
  from a have "on_each_cpu_leave (hv_core_percpu_size s) (leave_rets k) 0 = Some ?e"
    by (simp add: on_each_cpu_leave_aligned e)
  with a e show "\<exists>e. jailhouse_disable k s =
           Some (e, s\<lparr>error_code := e,
                     trace := trace s @ map (\<lambda>_. Hc_disable) (leave_rets k)\<rparr>) \<and>
         e \<noteq> 0 \<and> e \<in> set (leave_rets k) \<and> e = last (filter (\<lambda>r. r \<noteq> 0) (leave_rets k))"
    by (simp add: jailhouse_disable_def Let_def)
qed

lemma barrier_failure_returns_example:
  "jailhouse_enable ex_macros (ex_env\<lparr>entry_rets := [0, - 12, 0, - 12]\<rparr>) (Some ex_system) ex_init =
     (Return (- 12), ex_init\<lparr>hv_core_percpu_size := 0x320000, error_code := - 12,
        trace := [Ioremap 0x3c000000 0x4000000, Memcpy 0x200000, Memset 0x200000 0x3e00000,
                  Hv_entry, Hv_entry, Hv_entry, Hv_entry, Vunmap]\<rparr>) \<and>
   jailhouse_disable (ex_env\<lparr>leave_rets := [- 16, 0, - 16, - 16]\<rparr>) ex_enabled =
     Some (- 16, ex_enabled\<lparr>error_code := - 16,
        trace := [Hc_disable, Hc_disable, Hc_disable, Hc_disable]\<rparr>)"
proof -
  have 1: "enable_reaches_barrier ex_macros (ex_env\<lparr>entry_rets := [0, - 12, 0, - 12]\<rparr>) ex_system ex_init"
    by (simp add: enable_reaches_barrier_def ex_defs PAGE_ALIGN_def PAGE_SIZE_def
        copy_overruns_def)
  have 2: "4096 dvd unat (hv_core_percpu_size ex_enabled)"
    by (simp add: ex_enabled_def)
  have 3: "jailhouse_enable ex_macros (ex_env\<lparr>entry_rets := [0, - 12, 0, - 12]\<rparr>) (Some ex_system) ex_init =
     (Return (- 12), ex_init\<lparr>hv_core_percpu_size := 0x320000, error_code := - 12,
        trace := [Ioremap 0x3c000000 0x4000000, Memcpy 0x200000, Memset 0x200000 0x3e00000,
                  Hv_entry, Hv_entry, Hv_entry, Hv_entry, Vunmap]\<rparr>)"
    by (simp add: ex_defs enable_defs Let_def)
  show ?thesis
    using 1 2 3 barrier_failure_returns [of ex_macros "ex_env\<lparr>entry_rets := [0, - 12, 0, - 12]\<rparr>"
        ex_system ex_init] 
      barrier_failure_returns [of ex_macros "ex_env\<lparr>leave_rets := [- 16, 0, - 16, - 16]\<rparr>"
        ex_system ex_enabled]
    by (simp add: ex_env_def ex_enabled_def)
qed

text \<open>
  C3. An Enable call in which a core reports a nonzero status and which does not
  return that error. \<^verbatim>\<open>create_cell\<close> reports a failure as an \<^verbatim>\<open>ERR_PTR\<close>, never as
  \<^verbatim>\<open>NULL\<close>, and \<^verbatim>\<open>jailhouse_enable\<close> tests its result with \<^verbatim>\<open>if (!root_cell)\<close>, so
  after a failed allocation of the root cell the request goes on with the error
  pointer. Here \<^verbatim>\<open>kzalloc\<close> fails, the image fits the region, and two of the four cores
  report \<open>- 12\<close>: the code reaches \<^verbatim>\<open>error_unmap\<close>, unmaps the region, and at
  \<^verbatim>\<open>error_free_cell\<close> calls \<^verbatim>\<open>kobject_put(&root_cell->kobj)\<close> on the error pointer. The
  request ends in the invalid access: no status is returned, and the module
  reference taken at the start is still held.
\<close>

theorem enable_barrier_failure_err_ptr_root:
  "create_cell (ex_env\<lparr>kzalloc_ok := False\<rparr>) (terminate_name ex_macros (system ex_system)) =
     Inl (- ENOMEM) \<and>
   (\<exists>r\<in>set (entry_rets (ex_env\<lparr>kzalloc_ok := False, entry_rets := [0, - 12, 0, - 12]\<rparr>)). r \<noteq> 0) \<and>
   module_refcount ex_init = 0 \<and>
   jailhouse_enable ex_macros (ex_env\<lparr>kzalloc_ok := False, entry_rets := [0, - 12, 0, - 12]\<rparr>)
     (Some ex_system) ex_init =
     (Oops, ex_init\<lparr>hv_core_percpu_size := 0x320000, error_code := - 12, module_refcount := 1,
        trace := [Ioremap 0x3c000000 0x4000000, Memcpy 0x200000, Memset 0x200000 0x3e00000,
                  Hv_entry, Hv_entry, Hv_entry, Hv_entry, Vunmap]\<rparr>)"
  by (simp add: ex_defs enable_defs Let_def errno_defs)

section \<open>CreateCell on concrete requests\<close>

lemmas create_defs = jailhouse_cell_create_def jailhouse_call1_create_def create_cell_def
  register_cell_def find_cell_def terminate_name_def c_str_def cpu_online_def cpu_up_def
  cpu_down_def cpu_set_offlined_def cpu_clear_offlined_def ex_desc_def

text \<open>
  CreateCell for \<open>B\<close> with CPUs 2 and 3, in the state Enable leaves: both CPUs are
  withdrawn and recorded, and the cell is registered with the id the hypervisor
  returned.
\<close>

lemma ex_create:
  "jailhouse_cell_create ex_macros ex_env
     (Some \<lparr>new_config = Some (ex_desc ''B'' [False, False, True, True]), new_images = []\<rparr>)
     ex_enabled = (0, ex_created)"
  apply (simp add: create_defs ex_env_def ex_macros_def ex_enabled_def ex_created_def Let_def
      for_each_cell_cpu_filter upt_conv_Cons)
  apply auto
  done

text \<open>
  C4. A successful CreateCell that does not return 0. Only the root cell is
  registered, CPU 3 is offline and CPUs 0, 1 and 2 are online. CreateCell for \<open>B\<close>
  with no preload image claims CPU 3: no \<^verbatim>\<open>load_image\<close> and no \<^verbatim>\<open>cpu_down\<close> runs, so
  nothing is ever assigned to \<^verbatim>\<open>err\<close>; the hypervisor creates the cell with id 2, the
  cell is registered, and the call returns the indeterminate value \<open>e\<close> that the
  uninitialised \<^verbatim>\<open>err\<close> holds.
\<close>

theorem create_returns_uninitialised_err:
  "jailhouse_cell_create ex_macros (ex_env\<lparr>hc_cell_create_ret := 2, err_init := e\<rparr>)
     (Some \<lparr>new_config = Some (ex_desc ''B'' [False, False, False, True]), new_images = []\<rparr>)
     (ex_enabled\<lparr>cpu_online_mask := {0, 1, 2}\<rparr>) =
   (e, ex_enabled\<lparr>cpu_online_mask := {0, 1, 2},
       cells := [\<lparr>kobj_name = ''root'', cell_id = 0\<rparr>, \<lparr>kobj_name = ''B'', cell_id = 2\<rparr>],
       trace := [Hc_cell_create]\<rparr>)"
  by (simp add: create_defs ex_env_def ex_macros_def ex_enabled_def Let_def
      for_each_cell_cpu_filter upt_conv_Cons)

section \<open>DestroyCell and the CPU set the caller supplies\<close>

text \<open>
  The claim C10 as it is stated fails twice. Its consequence fails where the supplied
  set differs from the set the cell was created with only in CPUs that are not
  recorded in \<^verbatim>\<open>offlined_cpus\<close>: \<open>B\<close> is created with CPUs 2 and 3 and destroyed with a
  configuration naming CPUs 1, 2 and 3; the call returns 0, CPUs 2 and 3 are brought
  up and cleared, so none of the cell's CPUs is left offlined, and no other cell is
  registered whose CPUs could be restored. And the CPUs brought back online are not
  the whole intersection when \<^verbatim>\<open>cpu_up\<close> fails, which the code only logs: \<open>B\<close>
  destroyed with its own CPUs 2 and 3, with \<^verbatim>\<open>cpu_up\<close> failing on CPU 3, returns 0
  and leaves CPU 3 offline, though it is in the supplied set and was recorded.
\<close>

theorem destroy_supplied_cpus_counterexample:
  "jailhouse_cell_create ex_macros ex_env
     (Some \<lparr>new_config = Some (ex_desc ''B'' [False, False, True, True]), new_images = []\<rparr>)
     ex_enabled = (0, ex_created) \<and>
   set (for_each_cell_cpu (ex_desc ''B'' [False, True, True, True])) \<noteq>
     set (for_each_cell_cpu (ex_desc ''B'' [False, False, True, True])) \<and>
   jailhouse_cell_destroy ex_macros ex_env
     (Some \<lparr>cell_config = Some (ex_desc ''B'' [False, True, True, True])\<rparr>) ex_created =
     (0, ex_enabled\<lparr>trace := [Cpu_down 2, Cpu_down 3, Hc_cell_create, Hc_cell_destroy 1,
          Cpu_up 2, Cpu_up 3]\<rparr>) \<and>
   offlined_cpus ex_enabled = {} \<and>
   cells ex_enabled = [\<lparr>kobj_name = ''root'', cell_id = 0\<rparr>] \<and>
   3 \<in> set (for_each_cell_cpu (ex_desc ''B'' [False, False, True, True])) \<inter>
         offlined_cpus ex_created \<and>
   jailhouse_cell_destroy ex_macros
     (ex_env\<lparr>cpu_up_err := (\<lambda>c. if c = 3 then - EBUSY else 0)\<rparr>)
     (Some \<lparr>cell_config = Some (ex_desc ''B'' [False, False, True, True])\<rparr>) ex_created =
     (0, ex_enabled\<lparr>cpu_online_mask := {0, 1, 2},
          trace := [Cpu_down 2, Cpu_down 3, Hc_cell_create, Hc_cell_destroy 1,
          Cpu_up 2, Cpu_up 3]\<rparr>)"
proof -
  have "1 \<in> set (for_each_cell_cpu (ex_desc ''B'' [False, True, True, True]))"
    "1 \<notin> set (for_each_cell_cpu (ex_desc ''B'' [False, False, True, True]))"
    by (simp_all add: for_each_cell_cpu_filter ex_desc_def upt_conv_Cons)
  then have 1: "set (for_each_cell_cpu (ex_desc ''B'' [False, True, True, True])) \<noteq>
     set (for_each_cell_cpu (ex_desc ''B'' [False, False, True, True]))"
    by blast
  have 2: "3 \<in> set (for_each_cell_cpu (ex_desc ''B'' [False, False, True, True])) \<inter>
         offlined_cpus ex_created"
    by (simp add: for_each_cell_cpu_filter ex_desc_def upt_conv_Cons ex_created_def)
  have 3: "jailhouse_cell_destroy ex_macros ex_env
     (Some \<lparr>cell_config = Some (ex_desc ''B'' [False, True, True, True])\<rparr>) ex_created =
     (0, ex_enabled\<lparr>trace := [Cpu_down 2, Cpu_down 3, Hc_cell_create, Hc_cell_destroy 1,
          Cpu_up 2, Cpu_up 3]\<rparr>)"
    apply (simp add: destroy_defs ex_env_def ex_macros_def ex_enabled_def ex_created_def Let_def
        for_each_cell_cpu_filter upt_conv_Cons)
    apply auto
    done
  have 4: "jailhouse_cell_destroy ex_macros
     (ex_env\<lparr>cpu_up_err := (\<lambda>c. if c = 3 then - EBUSY else 0)\<rparr>)
     (Some \<lparr>cell_config = Some (ex_desc ''B'' [False, False, True, True])\<rparr>) ex_created =
     (0, ex_enabled\<lparr>cpu_online_mask := {0, 1, 2},
          trace := [Cpu_down 2, Cpu_down 3, Hc_cell_create, Hc_cell_destroy 1,
          Cpu_up 2, Cpu_up 3]\<rparr>)"
    apply (simp add: destroy_defs ex_env_def ex_macros_def ex_enabled_def ex_created_def Let_def
        for_each_cell_cpu_filter upt_conv_Cons EBUSY_def)
    apply auto
    done
  have 5: "offlined_cpus ex_enabled = {}"
    "cells ex_enabled = [\<lparr>kobj_name = ''root'', cell_id = 0\<rparr>]"
    by (simp_all add: ex_enabled_def)
  show ?thesis by (intro conjI) (rule ex_create 1 2 3 4 5)+
qed

text \<open>
  C10, amended. For every DestroyCell call that succeeds, \<^verbatim>\<open>cpu_up\<close> is called on
  exactly the CPUs of the configuration the caller supplied that are set in
  \<^verbatim>\<open>offlined_cpus\<close>, in ascending order; the CPUs online afterwards are those online
  before and those of that intersection on which \<^verbatim>\<open>cpu_up\<close> returned 0; and exactly
  the supplied CPUs are cleared from \<^verbatim>\<open>offlined_cpus\<close>. The CPU set recorded when the
  cell was created is never consulted: \<^verbatim>\<open>struct cell\<close> holds none. So for any set
  \<open>owned\<close> (the creation-time set of the cell), a successful destroy whose supplied
  set differs from \<open>owned\<close> on the CPUs recorded in \<^verbatim>\<open>offlined_cpus\<close> leaves a recorded
  CPU of \<open>owned\<close> recorded as offlined, or clears a recorded CPU outside \<open>owned\<close>
  (one withdrawn for another cell) and brings it online when \<^verbatim>\<open>cpu_up\<close> succeeds
  on it.
\<close>

theorem destroy_supplied_cpus_amended:
  assumes "jailhouse_cell_destroy M k (Some p) s = (0, s')" and "cell_config p = Some cfg"
  shows
    "(\<exists>c. find_cell s (terminate_name M cfg) = Some c \<and> cells s' = remove1 c (cells s) \<and>
          trace s' = trace s @ Hc_cell_destroy (cell_id c) #
            map Cpu_up (filter (\<lambda>x. x \<in> offlined_cpus s) (for_each_cell_cpu cfg))) \<and>
     offlined_cpus s' = offlined_cpus s - set (for_each_cell_cpu cfg) \<and>
     cpu_online_mask s' = cpu_online_mask s \<union>
       {x \<in> set (for_each_cell_cpu cfg) \<inter> offlined_cpus s. cpu_up_err k x = 0} \<and>
     (set (for_each_cell_cpu cfg) \<inter> offlined_cpus s \<noteq> owned \<inter> offlined_cpus s \<longrightarrow>
        (\<exists>x\<in>owned. x \<in> offlined_cpus s \<and> x \<in> offlined_cpus s') \<or>
        (\<exists>x\<in>offlined_cpus s - owned. x \<notin> offlined_cpus s' \<and>
            (cpu_up_err k x = 0 \<longrightarrow> x \<in> cpu_online_mask s')))"
proof -
  from assms(1) have r: "fst (jailhouse_cell_destroy M k (Some p) s) = 0"
    and s': "snd (jailhouse_cell_destroy M k (Some p) s) = s'" by simp_all
  from destroy_success [OF r assms(2)] s' obtain c where
    c: "find_cell s (terminate_name M cfg) = Some c" "cells s' = remove1 c (cells s)"
      "trace s' = trace s @ Hc_cell_destroy (cell_id c) #
         map Cpu_up (filter (\<lambda>x. x \<in> offlined_cpus s) (for_each_cell_cpu cfg))" and
    m: "offlined_cpus s' = offlined_cpus s - set (for_each_cell_cpu cfg)"
      "cpu_online_mask s' = cpu_online_mask s \<union>
         {x \<in> set (for_each_cell_cpu cfg) \<inter> offlined_cpus s. cpu_up_err k x = 0}"
    by auto
  have "(\<exists>x\<in>owned. x \<in> offlined_cpus s \<and> x \<in> offlined_cpus s') \<or>
        (\<exists>x\<in>offlined_cpus s - owned. x \<notin> offlined_cpus s' \<and>
            (cpu_up_err k x = 0 \<longrightarrow> x \<in> cpu_online_mask s'))"
    if "set (for_each_cell_cpu cfg) \<inter> offlined_cpus s \<noteq> owned \<inter> offlined_cpus s"
    using that m by auto
  with c m show ?thesis by blast
qed

theorem destroy_supplied_cpus_amended_witness:
  "jailhouse_cell_destroy ex_macros ex_env
     (Some \<lparr>cell_config = Some (ex_desc ''A'' [False, False, False, True])\<rparr>) ex_two_cells =
   (0, ex_two_cells\<lparr>offlined_cpus := {2}, cpu_online_mask := {0, 1, 3},
        cells := [\<lparr>kobj_name = ''root'', cell_id = 0\<rparr>, \<lparr>kobj_name = ''B'', cell_id = 2\<rparr>],
        trace := [Hc_cell_destroy 1, Cpu_up 3]\<rparr>) \<and>
   set (for_each_cell_cpu (ex_desc ''A'' [False, False, False, True])) \<inter> offlined_cpus ex_two_cells
     \<noteq> {2} \<inter> offlined_cpus ex_two_cells \<and>
   offlined_cpus ex_two_cells - set (for_each_cell_cpu (ex_desc ''A'' [False, False, False, True])) =
     {2} \<and>
   cpu_online_mask ex_two_cells \<union>
     {x \<in> set (for_each_cell_cpu (ex_desc ''A'' [False, False, False, True])) \<inter>
          offlined_cpus ex_two_cells. cpu_up_err ex_env x = 0} = {0, 1, 3} \<and>
   ((\<exists>x\<in>{2}. x \<in> offlined_cpus ex_two_cells \<and>
        x \<in> offlined_cpus (ex_two_cells\<lparr>offlined_cpus := {2}, cpu_online_mask := {0, 1, 3},
          cells := [\<lparr>kobj_name = ''root'', cell_id = 0\<rparr>, \<lparr>kobj_name = ''B'', cell_id = 2\<rparr>],
          trace := [Hc_cell_destroy 1, Cpu_up 3]\<rparr>)) \<or>
    (\<exists>x\<in>offlined_cpus ex_two_cells - {2}.
        x \<notin> offlined_cpus (ex_two_cells\<lparr>offlined_cpus := {2}, cpu_online_mask := {0, 1, 3},
          cells := [\<lparr>kobj_name = ''root'', cell_id = 0\<rparr>, \<lparr>kobj_name = ''B'', cell_id = 2\<rparr>],
          trace := [Hc_cell_destroy 1, Cpu_up 3]\<rparr>) \<and>
        (cpu_up_err ex_env x = 0 \<longrightarrow>
         x \<in> cpu_online_mask (ex_two_cells\<lparr>offlined_cpus := {2}, cpu_online_mask := {0, 1, 3},
          cells := [\<lparr>kobj_name = ''root'', cell_id = 0\<rparr>, \<lparr>kobj_name = ''B'', cell_id = 2\<rparr>],
          trace := [Hc_cell_destroy 1, Cpu_up 3]\<rparr>))))"
proof -
  let ?cfg = "ex_desc ''A'' [False, False, False, True]"
  have 0: "cell_config \<lparr>cell_config = Some ?cfg\<rparr> = Some ?cfg" by simp
  have "3 \<in> set (for_each_cell_cpu ?cfg) \<inter> offlined_cpus ex_two_cells"
    "3 \<notin> {2} \<inter> offlined_cpus ex_two_cells"
    by (simp_all add: for_each_cell_cpu_filter ex_desc_def upt_conv_Cons ex_two_cells_def)
  then have 1: "set (for_each_cell_cpu ?cfg) \<inter>
      offlined_cpus ex_two_cells \<noteq> {2} \<inter> offlined_cpus ex_two_cells"
    by blast
  note T = destroy_supplied_cpus_amended [OF ex_destroy 0, of "{2}"]
  from T have 2: "offlined_cpus ex_two_cells - set (for_each_cell_cpu ?cfg) = {2}"
    by simp
  from T have 3: "cpu_online_mask ex_two_cells \<union>
     {x \<in> set (for_each_cell_cpu ?cfg) \<inter> offlined_cpus ex_two_cells. cpu_up_err ex_env x = 0} =
     {0, 1, 3}"
    by simp
  from T 1 have 4: "(\<exists>x\<in>{2}. x \<in> offlined_cpus ex_two_cells \<and>
        x \<in> offlined_cpus (ex_two_cells\<lparr>offlined_cpus := {2}, cpu_online_mask := {0, 1, 3},
          cells := [\<lparr>kobj_name = ''root'', cell_id = 0\<rparr>, \<lparr>kobj_name = ''B'', cell_id = 2\<rparr>],
          trace := [Hc_cell_destroy 1, Cpu_up 3]\<rparr>)) \<or>
    (\<exists>x\<in>offlined_cpus ex_two_cells - {2}.
        x \<notin> offlined_cpus (ex_two_cells\<lparr>offlined_cpus := {2}, cpu_online_mask := {0, 1, 3},
          cells := [\<lparr>kobj_name = ''root'', cell_id = 0\<rparr>, \<lparr>kobj_name = ''B'', cell_id = 2\<rparr>],
          trace := [Hc_cell_destroy 1, Cpu_up 3]\<rparr>) \<and>
        (cpu_up_err ex_env x = 0 \<longrightarrow>
         x \<in> cpu_online_mask (ex_two_cells\<lparr>offlined_cpus := {2}, cpu_online_mask := {0, 1, 3},
          cells := [\<lparr>kobj_name = ''root'', cell_id = 0\<rparr>, \<lparr>kobj_name = ''B'', cell_id = 2\<rparr>],
          trace := [Hc_cell_destroy 1, Cpu_up 3]\<rparr>)))"
    by (elim conjE impE) assumption
  show ?thesis by (intro conjI) (rule ex_destroy 1 2 3 4)+
qed

section \<open>CreateCell with a CPU that is already offline\<close>

lemma offline_cell_cpus_trace:
  "\<exists>t. trace (snd (offline_cell_cpus k cpus err s)) = trace s @ t \<and>
       set t \<subseteq> Cpu_down ` (set cpus \<inter> cpu_online_mask s)"
proof (induction cpus arbitrary: err s)
  case Nil
  show ?case by simp
next
  case (Cons c cpus)
  show ?case
  proof (cases "cpu_online s c")
    case False
    with Cons [of err s] show ?thesis by auto
  next
    case True
    show ?thesis
    proof (cases "cpu_down_err k c = 0")
      case False
      with True show ?thesis by (auto simp: cpu_online_def)
    next
      case z: True
      let ?s1 = "cpu_set_offlined c (snd (cpu_down k c s))"
      from Cons [of 0 ?s1] obtain t where
        t: "trace (snd (offline_cell_cpus k cpus 0 ?s1)) = trace ?s1 @ t"
           "set t \<subseteq> Cpu_down ` (set cpus \<inter> cpu_online_mask ?s1)" by blast
      from t(2) z have "set (Cpu_down c # t) \<subseteq> Cpu_down ` (set (c # cpus) \<inter> cpu_online_mask s)"
        using True by (auto simp: cpu_online_def)
      moreover from t(1) True z
      have "trace (snd (offline_cell_cpus k (c # cpus) err s)) = trace s @ (Cpu_down c # t)"
        by simp
      ultimately show ?thesis by blast
    qed
  qed
qed

lemma error_cpu_online_trace:
  "\<exists>t. trace (error_cpu_online k cpus s) = trace s @ t \<and> set t \<subseteq> range Cpu_up"
proof (induction cpus arbitrary: s)
  case Nil
  show ?case by simp
next
  case (Cons c cpus)
  show ?case
  proof (cases "cpu_online s c")
    case True
    with Cons [of s] show ?thesis by simp
  next
    case False
    let ?s1 = "if cpu_up_err k c = 0 then cpu_clear_offlined c (snd (cpu_up k c s))
               else snd (cpu_up k c s)"
    from Cons [of ?s1] obtain t where
      t: "trace (error_cpu_online k cpus ?s1) = trace ?s1 @ t" "set t \<subseteq> range Cpu_up" by blast
    have "trace ?s1 = trace s @ [Cpu_up c]" by simp
    with t False have "trace (error_cpu_online k (c # cpus) s) = trace s @ (Cpu_up c # t)"
      by (simp split: if_splits)
    moreover from t(2) have "set (Cpu_up c # t) \<subseteq> range Cpu_up" by auto
    ultimately show ?thesis by blast
  qed
qed

lemma create_prepared_eq:
  assumes "create_prepared M k p cfg s"
  shows "jailhouse_cell_create M k (Some p) s =
     (case fst (offline_cell_cpus k (for_each_cell_cpu cfg)
                 (projr (load_images k (terminate_name M cfg) (new_images p) (err_init k))) s) of
        Inl e \<Rightarrow>
          (e, error_cpu_online k (for_each_cell_cpu cfg)
                (snd (offline_cell_cpus k (for_each_cell_cpu cfg)
                   (projr (load_images k (terminate_name M cfg) (new_images p) (err_init k))) s)))
      | Inr err1 \<Rightarrow>
          let s2 = snd (jailhouse_call1_create k
                (snd (offline_cell_cpus k (for_each_cell_cpu cfg)
                   (projr (load_images k (terminate_name M cfg) (new_images p) (err_init k))) s)))
          in if hc_cell_create_ret k < 0
             then (hc_cell_create_ret k, error_cpu_online k (for_each_cell_cpu cfg) s2)
             else (err1, register_cell (new_cell M k cfg) s2))"
proof -
  from assms obtain err where
    l: "load_images k (terminate_name M cfg) (new_images p) (err_init k) = Inr err"
    by (cases "load_images k (terminate_name M cfg) (new_images p) (err_init k)")
       (auto simp: create_prepared_def)
  from assms l show ?thesis
    by (auto simp: create_prepared_def jailhouse_cell_create_def Let_def create_cell_def
        jailhouse_call1_create_def new_cell_def split: prod.splits sum.splits)
qed


lemma jailhouse_call1_create_fields [simp]:
  "fst (jailhouse_call1_create k s) = hc_cell_create_ret k"
  "enabled (snd (jailhouse_call1_create k s)) = enabled s"
  "cells (snd (jailhouse_call1_create k s)) = cells s"
  "hypervisor_mem (snd (jailhouse_call1_create k s)) = hypervisor_mem s"
  "hv_core_percpu_size (snd (jailhouse_call1_create k s)) = hv_core_percpu_size s"
  "error_code (snd (jailhouse_call1_create k s)) = error_code s"
  "module_refcount (snd (jailhouse_call1_create k s)) = module_refcount s"
  "offlined_cpus (snd (jailhouse_call1_create k s)) = offlined_cpus s"
  "cpu_online_mask (snd (jailhouse_call1_create k s)) = cpu_online_mask s"
  "trace (snd (jailhouse_call1_create k s)) = trace s @ [Hc_cell_create]"
  by (simp_all add: jailhouse_call1_create_def)

lemma register_cell_fields [simp]:
  "enabled (register_cell c s) = enabled s"
  "cells (register_cell c s) = cells s @ [c]"
  "hypervisor_mem (register_cell c s) = hypervisor_mem s"
  "hv_core_percpu_size (register_cell c s) = hv_core_percpu_size s"
  "error_code (register_cell c s) = error_code s"
  "module_refcount (register_cell c s) = module_refcount s"
  "offlined_cpus (register_cell c s) = offlined_cpus s"
  "cpu_online_mask (register_cell c s) = cpu_online_mask s"
  "trace (register_cell c s) = trace s"
  by (simp_all add: register_cell_def)

lemma load_images_Inl: "load_images k config imgs err = Inl e \<Longrightarrow> e \<noteq> 0"
  by (induction imgs arbitrary: err) (auto split: if_splits)

lemma create_not_prepared:
  "\<not> create_prepared M k p cfg s \<Longrightarrow> new_config p = Some cfg \<Longrightarrow>
     snd (jailhouse_cell_create M k (Some p) s) = s"
  by (auto simp: create_prepared_def jailhouse_cell_create_def Let_def create_cell_def
      split: sum.splits)

lemma create_not_prepared_nonzero:
  "\<not> create_prepared M k p cfg s \<Longrightarrow> new_config p = Some cfg \<Longrightarrow>
     fst (jailhouse_cell_create M k (Some p) s) \<noteq> 0"
  by (auto simp: create_prepared_def jailhouse_cell_create_def Let_def create_cell_def
      errno_defs split: sum.splits dest: load_images_Inl)

lemma create_overlap_prepared:
  assumes prep: "create_prepared M k p cfg s"
    and claimed: "cpu \<in> set (for_each_cell_cpu cfg)"
    and withdrawn: "cpu \<in> offlined_cpus s"
    and offline: "cpu \<notin> cpu_online_mask s"
  shows
    "(\<exists>t. trace (snd (jailhouse_cell_create M k (Some p) s)) = trace s @ t \<and>
          Cpu_down cpu \<notin> set t) \<and>
     ((\<exists>c\<in>set (for_each_cell_cpu cfg) \<inter> cpu_online_mask s. cpu_down_err k c \<noteq> 0) \<or>
        hc_cell_create_ret k < 0 \<longrightarrow>
        cells (snd (jailhouse_cell_create M k (Some p) s)) = cells s \<and>
        fst (jailhouse_cell_create M k (Some p) s) \<noteq> 0 \<and>
        (fst (jailhouse_cell_create M k (Some p) s) = hc_cell_create_ret k \<or>
         (\<exists>c\<in>set (for_each_cell_cpu cfg) \<inter> cpu_online_mask s.
             fst (jailhouse_cell_create M k (Some p) s) = cpu_down_err k c)) \<and>
        (\<forall>c\<in>cpu_online_mask s. cpu_up_err k c = 0 \<longrightarrow>
             c \<in> cpu_online_mask (snd (jailhouse_cell_create M k (Some p) s)))) \<and>
     (\<not> ((\<exists>c\<in>set (for_each_cell_cpu cfg) \<inter> cpu_online_mask s. cpu_down_err k c \<noteq> 0) \<or>
           hc_cell_create_ret k < 0) \<longrightarrow>
        cells (snd (jailhouse_cell_create M k (Some p) s)) = cells s @ [new_cell M k cfg])"
proof -
  let ?cpus = "for_each_cell_cpu cfg"
  let ?err = "projr (load_images k (terminate_name M cfg) (new_images p) (err_init k))"
  let ?O = "offline_cell_cpus k ?cpus ?err s"
  let ?R = "jailhouse_cell_create M k (Some p) s"
  let ?fail = "(\<exists>c\<in>set ?cpus \<inter> cpu_online_mask s. cpu_down_err k c \<noteq> 0) \<or> hc_cell_create_ret k < 0"
  note R = create_prepared_eq [OF prep]
  from offline_cell_cpus_trace [of k ?cpus ?err s] obtain t1 where
    t1: "trace (snd ?O) = trace s @ t1" "set t1 \<subseteq> Cpu_down ` (set ?cpus \<inter> cpu_online_mask s)"
    by blast
  from t1(2) offline have n1: "Cpu_down cpu \<notin> set t1" by auto
  note m = offline_cell_cpus_masks [of k ?cpus ?err s]
  note f = offline_cell_cpus_frame [of k ?cpus ?err s]
  have restored: "\<forall>c\<in>cpu_online_mask s. cpu_up_err k c = 0 \<longrightarrow>
      c \<in> cpu_online_mask (error_cpu_online k ?cpus s1)"
    if "cpu_online_mask s1 = cpu_online_mask (snd ?O)" for s1
    using m that error_cpu_online_masks [of k ?cpus s1] by auto
  show ?thesis
  proof (cases "fst ?O")
    case (Inl e)
    from offline_cell_cpus_Inl [OF Inl] have e: "e \<noteq> 0"
      "\<exists>c\<in>set ?cpus \<inter> cpu_online_mask s. cpu_down_err k c = e" by auto
    then have fail: ?fail by auto
    have Req: "?R = (e, error_cpu_online k ?cpus (snd ?O))" using R Inl by simp
    from error_cpu_online_trace [of k ?cpus "snd ?O"] obtain t2 where
      t2: "trace (error_cpu_online k ?cpus (snd ?O)) = trace (snd ?O) @ t2"
          "set t2 \<subseteq> range Cpu_up" by blast
    from t1 t2 n1 have "trace (snd ?R) = trace s @ (t1 @ t2) \<and> Cpu_down cpu \<notin> set (t1 @ t2)"
      by (auto simp: Req)
    then have tr: "\<exists>t. trace (snd ?R) = trace s @ t \<and> Cpu_down cpu \<notin> set t" by blast
    have cs: "cells (snd ?R) = cells s" by (simp add: Req error_cpu_online_frame f)
    from restored [of "snd ?O"] have bk: "\<forall>c\<in>cpu_online_mask s. cpu_up_err k c = 0 \<longrightarrow>
      c \<in> cpu_online_mask (snd ?R)" by (simp add: Req)
    from e have r: "fst ?R \<noteq> 0"
      "\<exists>c\<in>set ?cpus \<inter> cpu_online_mask s. fst ?R = cpu_down_err k c"
      by (auto simp: Req)
    from tr cs bk r fail show ?thesis by blast
  next
    case (Inr err1)
    from offline_cell_cpus_Inr [OF Inr]
    have ok: "\<forall>c\<in>set ?cpus. c \<in> cpu_online_mask s \<longrightarrow> cpu_down_err k c = 0" by simp
    let ?s2 = "snd (jailhouse_call1_create k (snd ?O))"
    show ?thesis
    proof (cases "hc_cell_create_ret k < 0")
      case True
      have Req: "?R = (hc_cell_create_ret k, error_cpu_online k ?cpus ?s2)"
        using R Inr True by (simp add: Let_def)
      from error_cpu_online_trace [of k ?cpus ?s2] obtain t2 where
        t2: "trace (error_cpu_online k ?cpus ?s2) = trace ?s2 @ t2"
            "set t2 \<subseteq> range Cpu_up" by blast
      from t1 t2 n1 have "trace (snd ?R) = trace s @ (t1 @ Hc_cell_create # t2) \<and>
          Cpu_down cpu \<notin> set (t1 @ Hc_cell_create # t2)"
        by (auto simp: Req)
      then have tr: "\<exists>t. trace (snd ?R) = trace s @ t \<and> Cpu_down cpu \<notin> set t" by blast
      have cs: "cells (snd ?R) = cells s" by (simp add: Req error_cpu_online_frame f)
      from restored [of ?s2] have bk: "\<forall>c\<in>cpu_online_mask s. cpu_up_err k c = 0 \<longrightarrow>
        c \<in> cpu_online_mask (snd ?R)" by (simp add: Req)
      from True have r: "fst ?R \<noteq> 0" "fst ?R = hc_cell_create_ret k" by (auto simp: Req)
      from tr cs bk r True show ?thesis by blast
    next
      case False
      have Req: "?R = (err1, register_cell (new_cell M k cfg) ?s2)"
        using R Inr False by (simp add: Let_def)
      from t1 n1 have "trace (snd ?R) = trace s @ (t1 @ [Hc_cell_create]) \<and>
          Cpu_down cpu \<notin> set (t1 @ [Hc_cell_create])"
        by (auto simp: Req)
      then have tr: "\<exists>t. trace (snd ?R) = trace s @ t \<and> Cpu_down cpu \<notin> set t" by blast
      have cs: "cells (snd ?R) = cells s @ [new_cell M k cfg]" by (simp add: Req f)
      from ok False have nf: "\<not> ?fail" by auto
      from tr cs nf show ?thesis by blast
    qed
  qed
qed


text \<open>
  The claim C2 as it is stated fails: with cell \<open>A\<close> registered and CPU 3 withdrawn
  for it, CreateCell for \<open>B\<close> claiming CPUs 2 and 3 takes CPU 2 down, skips CPU 3, and,
  when the hypervisor returns the id 2, registers \<open>B\<close> and returns 0.
\<close>

theorem create_overlap_counterexample:
  "3 \<in> set (for_each_cell_cpu (ex_desc ''B'' [False, False, True, True])) \<and>
   3 \<in> offlined_cpus ex_one_cell \<and>
   jailhouse_cell_create ex_macros (ex_env\<lparr>hc_cell_create_ret := 2\<rparr>)
     (Some \<lparr>new_config = Some (ex_desc ''B'' [False, False, True, True]), new_images = []\<rparr>)
     ex_one_cell =
   (0, ex_one_cell\<lparr>offlined_cpus := {2, 3}, cpu_online_mask := {0, 1},
       cells := [\<lparr>kobj_name = ''root'', cell_id = 0\<rparr>, \<lparr>kobj_name = ''A'', cell_id = 1\<rparr>,
                 \<lparr>kobj_name = ''B'', cell_id = 2\<rparr>],
       trace := [Cpu_down 2, Hc_cell_create]\<rparr>)"
  apply (simp add: create_defs ex_env_def ex_macros_def ex_one_cell_def Let_def
      for_each_cell_cpu_filter upt_conv_Cons)
  apply auto
  done

text \<open>
  C2, amended. \<^verbatim>\<open>jailhouse_cell_create\<close> calls \<^verbatim>\<open>cpu_down\<close> only under
  \<^verbatim>\<open>if (cpu_online(cpu))\<close>, so a claimed CPU that is already offline and recorded as
  withdrawn for a registered cell is skipped and is no reason to fail. For every
  CreateCell call whose argument and configuration are readable and whose
  configuration claims such a CPU: no
  \<^verbatim>\<open>cpu_down\<close> is called on that CPU. The call fails when it does not get as far as
  the withdrawal of the CPUs (the buffer for the configuration, the lock, the
  enabled flag, a free name, the images or the cell object fail), when \<^verbatim>\<open>cpu_down\<close>
  fails on one of the claimed CPUs that are online, or when the create hypercall
  returns a negative value: in each of these cases it returns a nonzero code,
  registers nothing, and every CPU that was online before the call and on which
  \<^verbatim>\<open>cpu_up\<close> succeeds is online after it; in the last two cases the code is the one
  \<^verbatim>\<open>cpu_down\<close> or the hypervisor returned. In the remaining case the cell is
  registered.
\<close>

theorem create_overlap_amended:
  assumes cfg: "new_config p = Some cfg"
    and claimed: "cpu \<in> set (for_each_cell_cpu cfg)"
    and withdrawn: "cpu \<in> offlined_cpus s"
    and offline: "cpu \<notin> cpu_online_mask s"
  shows
    "(\<exists>t. trace (snd (jailhouse_cell_create M k (Some p) s)) = trace s @ t \<and>
          Cpu_down cpu \<notin> set t) \<and>
     (\<not> create_prepared M k p cfg s \<or>
      (\<exists>c\<in>set (for_each_cell_cpu cfg) \<inter> cpu_online_mask s. cpu_down_err k c \<noteq> 0) \<or>
      hc_cell_create_ret k < 0 \<longrightarrow>
        cells (snd (jailhouse_cell_create M k (Some p) s)) = cells s \<and>
        fst (jailhouse_cell_create M k (Some p) s) \<noteq> 0 \<and>
        (\<forall>c\<in>cpu_online_mask s. cpu_up_err k c = 0 \<longrightarrow>
             c \<in> cpu_online_mask (snd (jailhouse_cell_create M k (Some p) s)))) \<and>
     (create_prepared M k p cfg s \<and>
      ((\<exists>c\<in>set (for_each_cell_cpu cfg) \<inter> cpu_online_mask s. cpu_down_err k c \<noteq> 0) \<or>
       hc_cell_create_ret k < 0) \<longrightarrow>
        fst (jailhouse_cell_create M k (Some p) s) = hc_cell_create_ret k \<or>
        (\<exists>c\<in>set (for_each_cell_cpu cfg) \<inter> cpu_online_mask s.
             fst (jailhouse_cell_create M k (Some p) s) = cpu_down_err k c)) \<and>
     (create_prepared M k p cfg s \<and>
      \<not> (\<exists>c\<in>set (for_each_cell_cpu cfg) \<inter> cpu_online_mask s. cpu_down_err k c \<noteq> 0) \<and>
      \<not> hc_cell_create_ret k < 0 \<longrightarrow>
        cells (snd (jailhouse_cell_create M k (Some p) s)) = cells s @ [new_cell M k cfg])"
proof (cases "create_prepared M k p cfg s")
  case True
  from create_overlap_prepared [OF True claimed withdrawn offline] True show ?thesis
    by blast
next
  case False
  from create_not_prepared [OF False cfg] create_not_prepared_nonzero [OF False cfg]
  have "snd (jailhouse_cell_create M k (Some p) s) = s"
    "fst (jailhouse_cell_create M k (Some p) s) \<noteq> 0" by simp_all
  with False show ?thesis by simp
qed

theorem create_overlap_amended_witness:
  "3 \<in> set (for_each_cell_cpu (ex_desc ''B'' [False, False, True, True])) \<and>
   3 \<in> offlined_cpus ex_one_cell \<and> 3 \<notin> cpu_online_mask ex_one_cell \<and>
   hc_cell_create_ret (ex_env\<lparr>hc_cell_create_ret := - EBUSY\<rparr>) < 0 \<and>
   cells (snd (jailhouse_cell_create ex_macros (ex_env\<lparr>hc_cell_create_ret := - EBUSY\<rparr>)
     (Some \<lparr>new_config = Some (ex_desc ''B'' [False, False, True, True]), new_images = []\<rparr>)
     ex_one_cell)) = cells ex_one_cell \<and>
   2 \<in> cpu_online_mask (snd (jailhouse_cell_create ex_macros
     (ex_env\<lparr>hc_cell_create_ret := - EBUSY\<rparr>)
     (Some \<lparr>new_config = Some (ex_desc ''B'' [False, False, True, True]), new_images = []\<rparr>)
     ex_one_cell)) \<and>
   \<not> create_prepared ex_macros ex_env
     \<lparr>new_config = Some (ex_desc ''A'' [False, False, True, True]), new_images = []\<rparr>
     (ex_desc ''A'' [False, False, True, True]) ex_one_cell \<and>
   cells (snd (jailhouse_cell_create ex_macros ex_env
     (Some \<lparr>new_config = Some (ex_desc ''A'' [False, False, True, True]), new_images = []\<rparr>)
     ex_one_cell)) = cells ex_one_cell \<and>
   cells (snd (jailhouse_cell_create ex_macros (ex_env\<lparr>hc_cell_create_ret := 2\<rparr>)
     (Some \<lparr>new_config = Some (ex_desc ''B'' [False, False, True, True]), new_images = []\<rparr>)
     ex_one_cell)) =
     cells ex_one_cell @ [new_cell ex_macros (ex_env\<lparr>hc_cell_create_ret := 2\<rparr>)
                            (ex_desc ''B'' [False, False, True, True])]"
proof -
  let ?k = "ex_env\<lparr>hc_cell_create_ret := - EBUSY\<rparr>"
  let ?k2 = "ex_env\<lparr>hc_cell_create_ret := 2\<rparr>"
  let ?cfg = "ex_desc ''B'' [False, False, True, True]"
  let ?p = "\<lparr>new_config = Some ?cfg, new_images = []\<rparr>"
  let ?cfgA = "ex_desc ''A'' [False, False, True, True]"
  let ?pA = "\<lparr>new_config = Some ?cfgA, new_images = []\<rparr>"
  have c: "new_config ?p = Some ?cfg" "new_config ?pA = Some ?cfgA" by simp_all
  have 2: "3 \<in> set (for_each_cell_cpu (ex_desc n [False, False, True, True]))" for n
    by (simp add: for_each_cell_cpu_filter ex_desc_def upt_conv_Cons)
  have 3: "3 \<in> offlined_cpus ex_one_cell" and 4: "3 \<notin> cpu_online_mask ex_one_cell"
    by (simp_all add: ex_one_cell_def)
  have 5: "hc_cell_create_ret ?k < 0" by (simp add: EBUSY_def)
  have 6: "2 \<in> cpu_online_mask ex_one_cell" "cpu_up_err ?k 2 = 0"
    by (simp_all add: ex_one_cell_def ex_env_def)
  have 7: "\<not> create_prepared ex_macros ex_env ?pA ?cfgA ex_one_cell"
    by (simp add: create_prepared_def ex_env_def ex_one_cell_def ex_macros_def ex_desc_def
        find_cell_def terminate_name_def c_str_def)
  have 8: "create_prepared ex_macros ?k2 ?p ?cfg ex_one_cell"
    by (simp add: create_prepared_def ex_env_def ex_one_cell_def ex_macros_def ex_desc_def
        find_cell_def terminate_name_def c_str_def)
  have 9: "\<not> (\<exists>c\<in>set (for_each_cell_cpu ?cfg) \<inter> cpu_online_mask ex_one_cell.
      cpu_down_err ?k2 c \<noteq> 0)" "\<not> hc_cell_create_ret ?k2 < 0"
    by (simp_all add: ex_env_def)
  from create_overlap_amended [OF c(1) 2 3 4, of ex_macros ?k] 5 6
  have a: "cells (snd (jailhouse_cell_create ex_macros ?k (Some ?p) ex_one_cell)) = cells ex_one_cell \<and>
        2 \<in> cpu_online_mask (snd (jailhouse_cell_create ex_macros ?k (Some ?p) ex_one_cell))"
    by blast
  from create_overlap_amended [OF c(2) 2 3 4, of ex_macros ex_env] 7
  have b: "cells (snd (jailhouse_cell_create ex_macros ex_env (Some ?pA) ex_one_cell)) =
      cells ex_one_cell" by blast
  from create_overlap_amended [OF c(1) 2 3 4, of ex_macros ?k2] 8 9
  have d: "cells (snd (jailhouse_cell_create ex_macros ?k2 (Some ?p) ex_one_cell)) =
      cells ex_one_cell @ [new_cell ex_macros ?k2 ?cfg]" by blast
  from 2 3 4 5 7 a b d show ?thesis by blast
qed

section \<open>The rollback of CreateCell\<close>

lemma rollback_restores:
  assumes sub: "set cpus \<subseteq> cpu_online_mask s"
    and inv: "offlined_cpus s \<inter> cpu_online_mask s = {}"
    and on1: "cpu_online_mask s1 = cpu_online_mask (snd (offline_cell_cpus k cpus err s))"
    and off1: "offlined_cpus s1 = offlined_cpus (snd (offline_cell_cpus k cpus err s))"
  shows "offlined_cpus s \<subseteq> offlined_cpus (error_cpu_online k cpus s1) \<and>
         offlined_cpus (error_cpu_online k cpus s1) - offlined_cpus s \<subseteq>
           {c \<in> set cpus. cpu_up_err k c \<noteq> 0} \<and>
         cpu_online_mask (error_cpu_online k cpus s1) =
           cpu_online_mask s - (offlined_cpus (error_cpu_online k cpus s1) - offlined_cpus s)"
proof -
  let ?O = "snd (offline_cell_cpus k cpus err s)"
  from offline_cell_cpus_masks [of k cpus err s] have
    m: "cpu_online_mask ?O \<subseteq> cpu_online_mask s"
       "cpu_online_mask s - cpu_online_mask ?O \<subseteq> set cpus"
       "offlined_cpus ?O = offlined_cpus s \<union> (cpu_online_mask s - cpu_online_mask ?O)"
    by simp_all
  from error_cpu_online_masks [of k cpus s1] on1 off1 have
    r: "cpu_online_mask (error_cpu_online k cpus s1) =
          cpu_online_mask ?O \<union> {c \<in> set cpus. cpu_up_err k c = 0}"
       "offlined_cpus (error_cpu_online k cpus s1) =
          offlined_cpus ?O - {c \<in> set cpus. c \<notin> cpu_online_mask ?O \<and> cpu_up_err k c = 0}"
    by simp_all
  have 1: "offlined_cpus s \<subseteq> offlined_cpus (error_cpu_online k cpus s1)"
    using m r inv sub by auto
  have 2: "offlined_cpus (error_cpu_online k cpus s1) - offlined_cpus s \<subseteq>
           {c \<in> set cpus. cpu_up_err k c \<noteq> 0}"
    using m r by auto
  have 3: "cpu_online_mask (error_cpu_online k cpus s1) =
           cpu_online_mask s - (offlined_cpus (error_cpu_online k cpus s1) - offlined_cpus s)"
    using m r inv sub by auto
  from 1 2 3 show ?thesis by blast
qed

text \<open>
  The claim C1 as it is stated fails, in two ways. First: cell \<open>A\<close> is registered,
  CPU 3 was withdrawn for it and CPUs 0, 1 and 2 are online; CreateCell for \<open>B\<close>
  claims CPUs 2 and 3, takes CPU 2 down, skips CPU 3, and the hypervisor rejects the
  cell. The loop at \<^verbatim>\<open>error_cpu_online\<close> brings up every CPU of the configuration
  that is not online: CPU 2, and CPU 3 as well, which it clears from
  \<^verbatim>\<open>offlined_cpus\<close> although \<open>A\<close> is still registered. Second: only the root cell
  is registered and all CPUs are online; CreateCell for \<open>B\<close> takes CPUs 2 and 3 down,
  the hypervisor rejects the cell, and in the rollback \<^verbatim>\<open>cpu_up\<close> fails on CPU 3:
  the loop clears a CPU only if \<^verbatim>\<open>cpu_up(cpu) == 0\<close>, so CPU 3, which the failed
  cell claimed, stays in \<^verbatim>\<open>offlined_cpus\<close>.
\<close>

theorem create_rollback_counterexample:
  "jailhouse_cell_create ex_macros (ex_env\<lparr>hc_cell_create_ret := - EBUSY\<rparr>)
     (Some \<lparr>new_config = Some (ex_desc ''B'' [False, False, True, True]), new_images = []\<rparr>)
     ex_one_cell =
   (- EBUSY, ex_one_cell\<lparr>offlined_cpus := {}, cpu_online_mask := {0, 1, 2, 3},
       trace := [Cpu_down 2, Hc_cell_create, Cpu_up 2, Cpu_up 3]\<rparr>) \<and>
   3 \<in> offlined_cpus ex_one_cell \<and>
   jailhouse_cell_create ex_macros
     (ex_env\<lparr>hc_cell_create_ret := - EBUSY, cpu_up_err := (\<lambda>c. if c = 3 then - EBUSY else 0)\<rparr>)
     (Some \<lparr>new_config = Some (ex_desc ''B'' [False, False, True, True]), new_images = []\<rparr>)
     ex_enabled =
   (- EBUSY, ex_enabled\<lparr>offlined_cpus := {3}, cpu_online_mask := {0, 1, 2},
       trace := [Cpu_down 2, Cpu_down 3, Hc_cell_create, Cpu_up 2, Cpu_up 3]\<rparr>) \<and>
   3 \<in> set (for_each_cell_cpu (ex_desc ''B'' [False, False, True, True]))"
proof -
  have 1: "jailhouse_cell_create ex_macros (ex_env\<lparr>hc_cell_create_ret := - EBUSY\<rparr>)
     (Some \<lparr>new_config = Some (ex_desc ''B'' [False, False, True, True]), new_images = []\<rparr>)
     ex_one_cell =
   (- EBUSY, ex_one_cell\<lparr>offlined_cpus := {}, cpu_online_mask := {0, 1, 2, 3},
       trace := [Cpu_down 2, Hc_cell_create, Cpu_up 2, Cpu_up 3]\<rparr>)"
    apply (simp add: create_defs ex_env_def ex_macros_def ex_one_cell_def Let_def
        for_each_cell_cpu_filter upt_conv_Cons EBUSY_def)
    apply auto
    done
  have 2: "jailhouse_cell_create ex_macros
     (ex_env\<lparr>hc_cell_create_ret := - EBUSY, cpu_up_err := (\<lambda>c. if c = 3 then - EBUSY else 0)\<rparr>)
     (Some \<lparr>new_config = Some (ex_desc ''B'' [False, False, True, True]), new_images = []\<rparr>)
     ex_enabled =
   (- EBUSY, ex_enabled\<lparr>offlined_cpus := {3}, cpu_online_mask := {0, 1, 2},
       trace := [Cpu_down 2, Cpu_down 3, Hc_cell_create, Cpu_up 2, Cpu_up 3]\<rparr>)"
    apply (simp add: create_defs ex_env_def ex_macros_def ex_enabled_def Let_def
        for_each_cell_cpu_filter upt_conv_Cons EBUSY_def)
    apply auto
    done
  have 3: "3 \<in> offlined_cpus ex_one_cell" by (simp add: ex_one_cell_def)
  have 4: "3 \<in> set (for_each_cell_cpu (ex_desc ''B'' [False, False, True, True]))"
    by (simp add: for_each_cell_cpu_filter ex_desc_def upt_conv_Cons)
  from 1 2 3 4 show ?thesis by simp
qed

text \<open>
  C1, amended. For a CreateCell call that gets as far as the withdrawal of the CPUs,
  claims only CPUs that were online before the call, and fails at a \<^verbatim>\<open>cpu_down\<close> or
  at the create hypercall: the call returns a nonzero code and registers no cell;
  every CPU that was offlined before the call is still offlined; the only CPUs added
  to the offlined ones are claimed CPUs on which \<^verbatim>\<open>cpu_up\<close> failed in the rollback, and
  exactly those have left the online mask. So when \<^verbatim>\<open>cpu_up\<close> succeeds on the claimed
  CPUs, the offlined CPUs and the online mask are those before the call.
\<close>

theorem create_rollback_amended:
  assumes prep: "create_prepared M k p cfg s"
    and fails: "(\<exists>c\<in>set (for_each_cell_cpu cfg) \<inter> cpu_online_mask s. cpu_down_err k c \<noteq> 0) \<or>
                hc_cell_create_ret k < 0"
    and sub: "set (for_each_cell_cpu cfg) \<subseteq> cpu_online_mask s"
    and inv: "offlined_cpus s \<inter> cpu_online_mask s = {}"
  shows
    "cells (snd (jailhouse_cell_create M k (Some p) s)) = cells s \<and>
     fst (jailhouse_cell_create M k (Some p) s) \<noteq> 0 \<and>
     offlined_cpus s \<subseteq> offlined_cpus (snd (jailhouse_cell_create M k (Some p) s)) \<and>
     offlined_cpus (snd (jailhouse_cell_create M k (Some p) s)) - offlined_cpus s \<subseteq>
       {c \<in> set (for_each_cell_cpu cfg). cpu_up_err k c \<noteq> 0} \<and>
     cpu_online_mask (snd (jailhouse_cell_create M k (Some p) s)) =
       cpu_online_mask s -
       (offlined_cpus (snd (jailhouse_cell_create M k (Some p) s)) - offlined_cpus s) \<and>
     ((\<forall>c\<in>set (for_each_cell_cpu cfg). cpu_up_err k c = 0) \<longrightarrow>
        offlined_cpus (snd (jailhouse_cell_create M k (Some p) s)) = offlined_cpus s \<and>
        cpu_online_mask (snd (jailhouse_cell_create M k (Some p) s)) = cpu_online_mask s)"
proof -
  let ?cpus = "for_each_cell_cpu cfg"
  let ?err = "projr (load_images k (terminate_name M cfg) (new_images p) (err_init k))"
  let ?O = "offline_cell_cpus k ?cpus ?err s"
  let ?R = "jailhouse_cell_create M k (Some p) s"
  note R = create_prepared_eq [OF prep]
  note f = offline_cell_cpus_frame [of k ?cpus ?err s]
  have "\<exists>e s1. ?R = (e, error_cpu_online k ?cpus s1) \<and> e \<noteq> 0 \<and>
          cpu_online_mask s1 = cpu_online_mask (snd ?O) \<and>
          offlined_cpus s1 = offlined_cpus (snd ?O) \<and> cells s1 = cells s"
  proof (cases "fst ?O")
    case (Inl e)
    from offline_cell_cpus_Inl [OF Inl] have "e \<noteq> 0" by simp
    moreover from R Inl have "?R = (e, error_cpu_online k ?cpus (snd ?O))" by simp
    ultimately show ?thesis using f by (intro exI [of _ e] exI [of _ "snd ?O"]) simp
  next
    case (Inr err1)
    from offline_cell_cpus_Inr [OF Inr] fails have neg: "hc_cell_create_ret k < 0" by auto
    let ?s2 = "snd (jailhouse_call1_create k (snd ?O))"
    from R Inr neg have "?R = (hc_cell_create_ret k, error_cpu_online k ?cpus ?s2)"
      by (simp add: Let_def)
    moreover have "cpu_online_mask ?s2 = cpu_online_mask (snd ?O)"
      "offlined_cpus ?s2 = offlined_cpus (snd ?O)" "cells ?s2 = cells s"
      using f by simp_all
    ultimately show ?thesis using neg
      by (intro exI [of _ "hc_cell_create_ret k"] exI [of _ ?s2]) simp
  qed
  then obtain e s1 where Req: "?R = (e, error_cpu_online k ?cpus s1)" and e: "e \<noteq> 0"
    and s1: "cpu_online_mask s1 = cpu_online_mask (snd ?O)"
      "offlined_cpus s1 = offlined_cpus (snd ?O)" "cells s1 = cells s" by blast
  note rb = rollback_restores [OF sub inv s1(1,2)]
  have cs: "cells (snd ?R) = cells s" by (simp add: Req error_cpu_online_frame s1)
  from rb have a: "offlined_cpus s \<subseteq> offlined_cpus (snd ?R)"
    "offlined_cpus (snd ?R) - offlined_cpus s \<subseteq> {c \<in> set ?cpus. cpu_up_err k c \<noteq> 0}"
    "cpu_online_mask (snd ?R) = cpu_online_mask s - (offlined_cpus (snd ?R) - offlined_cpus s)"
    by (simp_all add: Req)
  have b: "(\<forall>c\<in>set ?cpus. cpu_up_err k c = 0) \<longrightarrow>
        offlined_cpus (snd ?R) = offlined_cpus s \<and> cpu_online_mask (snd ?R) = cpu_online_mask s"
    using a by auto
  from cs e a b show ?thesis by (simp add: Req)
qed

theorem create_rollback_amended_witness:
  "create_prepared ex_macros (ex_env\<lparr>hc_cell_create_ret := - EBUSY\<rparr>)
     \<lparr>new_config = Some (ex_desc ''B'' [False, True, True]), new_images = []\<rparr>
     (ex_desc ''B'' [False, True, True]) ex_one_cell \<and>
   hc_cell_create_ret (ex_env\<lparr>hc_cell_create_ret := - EBUSY\<rparr>) < 0 \<and>
   set (for_each_cell_cpu (ex_desc ''B'' [False, True, True])) \<subseteq> cpu_online_mask ex_one_cell \<and>
   offlined_cpus ex_one_cell \<inter> cpu_online_mask ex_one_cell = {} \<and>
   cells (snd (jailhouse_cell_create ex_macros (ex_env\<lparr>hc_cell_create_ret := - EBUSY\<rparr>)
     (Some \<lparr>new_config = Some (ex_desc ''B'' [False, True, True]), new_images = []\<rparr>)
     ex_one_cell)) = cells ex_one_cell \<and>
   offlined_cpus (snd (jailhouse_cell_create ex_macros (ex_env\<lparr>hc_cell_create_ret := - EBUSY\<rparr>)
     (Some \<lparr>new_config = Some (ex_desc ''B'' [False, True, True]), new_images = []\<rparr>)
     ex_one_cell)) = {3} \<and>
   cpu_online_mask (snd (jailhouse_cell_create ex_macros (ex_env\<lparr>hc_cell_create_ret := - EBUSY\<rparr>)
     (Some \<lparr>new_config = Some (ex_desc ''B'' [False, True, True]), new_images = []\<rparr>)
     ex_one_cell)) = {0, 1, 2}"
proof -
  let ?k = "ex_env\<lparr>hc_cell_create_ret := - EBUSY\<rparr>"
  let ?cfg = "ex_desc ''B'' [False, True, True]"
  let ?p = "\<lparr>new_config = Some ?cfg, new_images = []\<rparr>"
  have prep: "create_prepared ex_macros ?k ?p ?cfg ex_one_cell"
    by (simp add: create_prepared_def ex_env_def ex_one_cell_def ex_macros_def ex_desc_def
        find_cell_def terminate_name_def c_str_def)
  have neg: "hc_cell_create_ret ?k < 0" by (simp add: EBUSY_def)
  have sub: "set (for_each_cell_cpu ?cfg) \<subseteq> cpu_online_mask ex_one_cell"
    by (simp add: for_each_cell_cpu_filter ex_desc_def upt_conv_Cons ex_one_cell_def)
  have inv: "offlined_cpus ex_one_cell \<inter> cpu_online_mask ex_one_cell = {}"
    by (simp add: ex_one_cell_def)
  have up: "\<forall>c\<in>set (for_each_cell_cpu ?cfg). cpu_up_err ?k c = 0" by (simp add: ex_env_def)
  have st: "offlined_cpus ex_one_cell = {3}" "cpu_online_mask ex_one_cell = {0, 1, 2}"
    by (simp_all add: ex_one_cell_def)
  from create_rollback_amended [OF prep _ sub inv] neg up st
  have "cells (snd (jailhouse_cell_create ex_macros ?k (Some ?p) ex_one_cell)) = cells ex_one_cell \<and>
   offlined_cpus (snd (jailhouse_cell_create ex_macros ?k (Some ?p) ex_one_cell)) = {3} \<and>
   cpu_online_mask (snd (jailhouse_cell_create ex_macros ?k (Some ?p) ex_one_cell)) = {0, 1, 2}"
    by simp
  with prep neg sub inv show ?thesis by simp
qed

section \<open>The size check of Enable\<close>

lemma and_not_eq_minus: "(x :: u64) AND NOT m = x - (x AND m)"
  by (metis (no_types, lifting) bit.conj_disj_distrib bit.de_Morgan_conj
    bit_and_iff disjunctive_diff word_and_not word_ao_absorbs(8))

lemma page_align_bounds:
  assumes "unat c + 4095 < 2 ^ 64"
  shows "unat c \<le> unat (PAGE_ALIGN c) \<and> unat (PAGE_ALIGN c) \<le> unat c + 4095"
proof -
  let ?x = "c + 4095"
  from assms have ux: "unat ?x = unat c + 4095"
    by (simp add: unat_add_lem [THEN iffD1])
  have le1: "unat (?x AND 4095) \<le> 4095"
    using word_and_le1 [of ?x 4095] by (simp add: word_le_nat_alt)
  have "?x AND 4095 \<le> ?x" by (rule word_and_le2)
  then have "unat (?x - (?x AND 4095)) = unat ?x - unat (?x AND 4095)"
    by (rule unat_sub)
  moreover have "?x AND NOT 4095 = ?x - (?x AND 4095)" by (rule and_not_eq_minus)
  then have "PAGE_ALIGN c = ?x - (?x AND 4095)" by (simp add: PAGE_ALIGN_def PAGE_SIZE_def)
  ultimately have "unat (PAGE_ALIGN c) = unat ?x - unat (?x AND 4095)" by simp
  with le1 ux show ?thesis by simp
qed

lemma required_size_no_wrap:
  assumes "unat (core_size (fw_header fw)) + 4095 +
             unat (num_possible_cpus k) * unat (percpu_size (fw_header fw)) +
             unat (system_config_size hdr) < 2 ^ 64"
  shows "unat (core_size (fw_header fw)) \<le> unat (required_size k fw hdr)"
proof -
  let ?h = "fw_header fw"
  let ?n = "ucast (num_possible_cpus k) :: u64"
  have "unat (num_possible_cpus k) < 2 ^ 32"
    using unsigned_less [of "num_possible_cpus k", where 'a = nat] by simp
  then have "unat (num_possible_cpus k) < 2 ^ 64" by simp
  then have n: "unat ?n = unat (num_possible_cpus k)"
    by (simp add: unsigned_ucast_eq take_bit_nat_eq_self)
  from assms have c: "unat (core_size ?h) + 4095 < 2 ^ 64" by simp
  note pa = page_align_bounds [OF c]
  from assms n have "unat ?n * unat (percpu_size ?h) < 2 ^ 64" by simp
  then have m: "unat (?n * percpu_size ?h) = unat ?n * unat (percpu_size ?h)"
    by (simp add: unat_mult_lem [THEN iffD1])
  from assms pa m n
  have "unat (PAGE_ALIGN (core_size ?h)) + unat (?n * percpu_size ?h) < 2 ^ 64" by simp
  then have a1: "unat (PAGE_ALIGN (core_size ?h) + ?n * percpu_size ?h) =
      unat (PAGE_ALIGN (core_size ?h)) + unat (?n * percpu_size ?h)"
    by (simp add: unat_add_lem [THEN iffD1])
  from assms pa m n a1
  have "unat (PAGE_ALIGN (core_size ?h) + ?n * percpu_size ?h) + unat (system_config_size hdr) < 2 ^ 64"
    by simp
  then have "unat (required_size k fw hdr) =
      unat (PAGE_ALIGN (core_size ?h) + ?n * percpu_size ?h) + unat (system_config_size hdr)"
    unfolding required_size_def by (simp add: unat_add_lem [THEN iffD1])
  with a1 pa show ?thesis by simp
qed

lemma enable_check_fails:
  assumes "enable_reaches_check M k s" and "request_firmware k = (0, fw)"
    and "hv_size hdr \<le> required_size k fw hdr"
  shows "jailhouse_enable M k (Some hdr) s =
           (Return (- EINVAL),
            s\<lparr>hv_core_percpu_size := PAGE_ALIGN (core_size (fw_header fw)) +
                 ucast (num_possible_cpus k) * percpu_size (fw_header fw)\<rparr>)"
  using assms
  by (simp add: enable_reaches_check_def required_size_def jailhouse_enable_def Let_def
      error_unlock_def error_put_module_def error_free_cell_def error_release_fw_def
      module_put_def create_cell_def is_null_def terminate_name_def)

lemma enable_check_no_map:
  assumes "request_firmware k = (err, fw)" and "hv_size hdr \<le> required_size k fw hdr"
  shows "fst (jailhouse_enable M k (Some hdr) s) \<noteq> Return 0 \<and>
         hypervisor_mem (snd (jailhouse_enable M k (Some hdr) s)) = hypervisor_mem s \<and>
         trace (snd (jailhouse_enable M k (Some hdr) s)) = trace s"
  using assms
  by (auto simp: required_size_def jailhouse_enable_def Let_def
      error_unlock_def error_put_module_def error_free_cell_def error_release_fw_def
      module_put_def create_cell_def is_null_def terminate_name_def errno_defs
      split: sum.splits)

lemma enable_trace:
  assumes "request_firmware k = (err, fw)"
  shows "\<exists>t. trace (snd (jailhouse_enable M k (Some hdr) s)) = trace s @ t \<and>
           set t \<subseteq> {Ioremap (hv_phys_start hdr) (hv_size hdr), Memcpy (fw_size fw),
                     Memset (fw_size fw) (hv_size hdr - fw_size fw), Hv_entry, Vunmap}"
  using assms
  by (auto simp: required_size_def jailhouse_enable_def Let_def
      error_unlock_def error_put_module_def error_free_cell_def error_release_fw_def
      error_unmap_def vunmap_hypervisor_mem_def map_and_copy_def copy_overruns_def
      register_cell_def module_put_def create_cell_def is_null_def terminate_name_def
      split: sum.splits)

lemma enable_returns:
  assumes "enable_reaches_check M k s" and "request_firmware k = (0, fw)"
    and "\<not> copy_overruns hdr fw"
  shows "\<exists>e. fst (jailhouse_enable M k (Some hdr) s) = Return e"
  using assms
  by (auto simp: enable_reaches_check_def jailhouse_enable_def Let_def error_unlock_def
      error_put_module_def error_free_cell_def error_release_fw_def error_unmap_def
      create_cell_def is_null_def terminate_name_def copy_overruns_def)

text \<open>
  The claim C5 as it is stated fails in its consequence: the check passes for a 1 MiB
  region and an image whose header declares a core of one page and a page per CPU,
  while the image file is 2 MiB long. The region is mapped, and the copy of the image
  runs over the end of the mapping: the request ends in a fault inside \<^verbatim>\<open>memcpy\<close>,
  with the region still mapped and the module reference still held.
\<close>

theorem enable_size_check_counterexample:
  "\<not> hv_size ex_small_region \<le>
       required_size (ex_env\<lparr>request_firmware := (0, ex_short_header)\<rparr>) ex_short_header
         ex_small_region \<and>
   jailhouse_enable ex_macros (ex_env\<lparr>request_firmware := (0, ex_short_header)\<rparr>)
       (Some ex_small_region) ex_init =
     (Oops, ex_init\<lparr>hypervisor_mem := Some (0x3c000000, 0x100000),
        hv_core_percpu_size := 0x5000, module_refcount := 1,
        trace := [Ioremap 0x3c000000 0x100000, Memcpy 0x200000]\<rparr>) \<and>
   \<not> copy_in_region (hv_size ex_small_region) (Memcpy 0x200000)"
  by (simp add: required_size_def copy_in_region_def ex_short_header_def ex_small_region_def
      ex_defs enable_defs Let_def)

text \<open>
  C5, amended. The check compares the size of the region with
  \<^verbatim>\<open>PAGE_ALIGN(header->core_size)\<close> plus \<^verbatim>\<open>num_possible_cpus() * header->percpu_size\<close>
  plus the size of the configuration, computed in unsigned 64-bit arithmetic from
  what the header of the image declares. For every Enable call whose argument is
  readable, with the image that \<^verbatim>\<open>request_firmware\<close> hands over: when the size of the
  region is at most that sum, the region is not mapped, nothing is copied and the
  call does not succeed; and when moreover the request reaches the check with the
  root cell object constructed (the lock is taken, the hypervisor is disabled, the
  module reference is taken, \<^verbatim>\<open>kzalloc\<close> and \<^verbatim>\<open>kobject_add\<close> of \<^verbatim>\<open>create_cell\<close>
  succeed, the image is found and carries the signature), the call returns
  \<open>-EINVAL\<close>, the code that is also used for a bad signature, and the state changes
  in \<^verbatim>\<open>hv_core_percpu_size\<close> only. When the check passes, the image file is not
  longer than the core size its header declares, and that sum does not wrap, the
  copy of the image and the zero-fill of the rest both lie within the region; and a
  request that reached the check with the root cell object constructed returns.
\<close>

theorem enable_size_check_amended:
  assumes fw: "request_firmware k = (err, fw)"
  shows
    "(hv_size hdr \<le> required_size k fw hdr \<longrightarrow>
        fst (jailhouse_enable M k (Some hdr) s) \<noteq> Return 0 \<and>
        hypervisor_mem (snd (jailhouse_enable M k (Some hdr) s)) = hypervisor_mem s \<and>
        trace (snd (jailhouse_enable M k (Some hdr) s)) = trace s \<and>
        (enable_reaches_check M k s \<longrightarrow>
           jailhouse_enable M k (Some hdr) s =
             (Return (- EINVAL),
              s\<lparr>hv_core_percpu_size := PAGE_ALIGN (core_size (fw_header fw)) +
                   ucast (num_possible_cpus k) * percpu_size (fw_header fw)\<rparr>))) \<and>
     (\<not> hv_size hdr \<le> required_size k fw hdr \<and>
      unat (fw_size fw) \<le> unat (core_size (fw_header fw)) \<and>
      unat (core_size (fw_header fw)) + 4095 +
        unat (num_possible_cpus k) * unat (percpu_size (fw_header fw)) +
        unat (system_config_size hdr) < 2 ^ 64 \<longrightarrow>
        (\<exists>t. trace (snd (jailhouse_enable M k (Some hdr) s)) = trace s @ t \<and>
             (\<forall>ev\<in>set t. copy_in_region (hv_size hdr) ev)) \<and>
        (enable_reaches_check M k s \<longrightarrow>
           (\<exists>e. fst (jailhouse_enable M k (Some hdr) s) = Return e)))"
proof (intro conjI impI)
  assume small: "hv_size hdr \<le> required_size k fw hdr"
  from enable_check_no_map [OF fw small, of M s]
  show "fst (jailhouse_enable M k (Some hdr) s) \<noteq> Return 0"
    "hypervisor_mem (snd (jailhouse_enable M k (Some hdr) s)) = hypervisor_mem s"
    "trace (snd (jailhouse_enable M k (Some hdr) s)) = trace s"
    by simp_all
  assume stage: "enable_reaches_check M k s"
  with fw have "request_firmware k = (0, fw)" by (simp add: enable_reaches_check_def)
  with stage small show "jailhouse_enable M k (Some hdr) s =
          (Return (- EINVAL),
           s\<lparr>hv_core_percpu_size := PAGE_ALIGN (core_size (fw_header fw)) +
                ucast (num_possible_cpus k) * percpu_size (fw_header fw)\<rparr>)"
    by (intro enable_check_fails)
next
  assume a: "\<not> hv_size hdr \<le> required_size k fw hdr \<and>
      unat (fw_size fw) \<le> unat (core_size (fw_header fw)) \<and>
      unat (core_size (fw_header fw)) + 4095 +
        unat (num_possible_cpus k) * unat (percpu_size (fw_header fw)) +
        unat (system_config_size hdr) < 2 ^ 64"
  then have "unat (core_size (fw_header fw)) \<le> unat (required_size k fw hdr)"
    by (intro required_size_no_wrap) simp
  moreover from a have "unat (required_size k fw hdr) < unat (hv_size hdr)"
    by (simp add: word_le_nat_alt)
  ultimately have lt: "unat (fw_size fw) < unat (hv_size hdr)" using a by simp
  then have "fw_size fw \<le> hv_size hdr" by (simp add: word_le_nat_alt)
  then have "unat (hv_size hdr - fw_size fw) = unat (hv_size hdr) - unat (fw_size fw)"
    by (rule unat_sub)
  with lt have ok: "copy_in_region (hv_size hdr) (Memcpy (fw_size fw))"
    "copy_in_region (hv_size hdr) (Memset (fw_size fw) (hv_size hdr - fw_size fw))"
    by (simp_all add: copy_in_region_def)
  from enable_trace [OF fw, of M hdr s] obtain t where
    t: "trace (snd (jailhouse_enable M k (Some hdr) s)) = trace s @ t"
       "set t \<subseteq> {Ioremap (hv_phys_start hdr) (hv_size hdr), Memcpy (fw_size fw),
                     Memset (fw_size fw) (hv_size hdr - fw_size fw), Hv_entry, Vunmap}"
    by blast
  from t(2) ok have "\<forall>ev\<in>set t. copy_in_region (hv_size hdr) ev"
    by (auto simp: copy_in_region_def)
  with t(1) show "\<exists>t. trace (snd (jailhouse_enable M k (Some hdr) s)) = trace s @ t \<and>
             (\<forall>ev\<in>set t. copy_in_region (hv_size hdr) ev)" by blast
  assume stage: "enable_reaches_check M k s"
  with fw have fw0: "request_firmware k = (0, fw)" by (simp add: enable_reaches_check_def)
  from lt have "\<not> copy_overruns hdr fw" by (simp add: copy_overruns_def word_less_nat_alt)
  with stage fw0 show "\<exists>e. fst (jailhouse_enable M k (Some hdr) s) = Return e"
    by (intro enable_returns)
qed

theorem enable_size_check_amended_witness:
  "jailhouse_enable ex_macros ex_env (Some (ex_system\<lparr>hv_size := 0x321000\<rparr>)) ex_init =
     (Return (- EINVAL), ex_init\<lparr>hv_core_percpu_size := 0x320000\<rparr>) \<and>
   hypervisor_mem (snd (jailhouse_enable ex_macros (ex_env\<lparr>kzalloc_ok := False\<rparr>)
     (Some (ex_system\<lparr>hv_size := 0x321000\<rparr>)) ex_init)) = None \<and>
   copy_in_region (hv_size ex_system) (Memcpy 0x200000) \<and>
   copy_in_region (hv_size ex_system) (Memset 0x200000 0x3e00000) \<and>
   (\<exists>e. fst (jailhouse_enable ex_macros ex_env (Some ex_system) ex_init) = Return e)"
proof -
  have 1: "enable_reaches_check ex_macros ex_env ex_init"
    by (simp add: enable_reaches_check_def ex_defs)
  have 2: "request_firmware ex_env = (0, ex_firmware)"
    "request_firmware (ex_env\<lparr>kzalloc_ok := False\<rparr>) = (0, ex_firmware)"
    by (simp_all add: ex_env_def)
  have 3: "hv_size (ex_system\<lparr>hv_size := 0x321000\<rparr>) \<le>
             required_size ex_env ex_firmware (ex_system\<lparr>hv_size := 0x321000\<rparr>)"
    "hv_size (ex_system\<lparr>hv_size := 0x321000\<rparr>) \<le>
             required_size (ex_env\<lparr>kzalloc_ok := False\<rparr>) ex_firmware
               (ex_system\<lparr>hv_size := 0x321000\<rparr>)"
    by (simp_all add: required_size_def ex_defs PAGE_ALIGN_def PAGE_SIZE_def)
  have 4: "\<not> hv_size ex_system \<le> required_size ex_env ex_firmware ex_system"
    by (simp add: required_size_def ex_defs PAGE_ALIGN_def PAGE_SIZE_def)
  have 5: "unat (fw_size ex_firmware) \<le> unat (core_size (fw_header ex_firmware))"
    "unat (core_size (fw_header ex_firmware)) + 4095 +
        unat (num_possible_cpus ex_env) * unat (percpu_size (fw_header ex_firmware)) +
        unat (system_config_size ex_system) < 2 ^ 64"
    by (simp_all add: ex_defs)
  from enable_size_check_amended [OF 2(1), of "ex_system\<lparr>hv_size := 0x321000\<rparr>" ex_macros ex_init]
    1 3(1)
  have a: "jailhouse_enable ex_macros ex_env (Some (ex_system\<lparr>hv_size := 0x321000\<rparr>)) ex_init =
     (Return (- EINVAL), ex_init\<lparr>hv_core_percpu_size := 0x320000\<rparr>)"
    by (simp add: ex_defs PAGE_ALIGN_def PAGE_SIZE_def)
  from enable_size_check_amended [OF 2(2), of "ex_system\<lparr>hv_size := 0x321000\<rparr>" ex_macros ex_init]
    3(2)
  have b: "hypervisor_mem (snd (jailhouse_enable ex_macros (ex_env\<lparr>kzalloc_ok := False\<rparr>)
     (Some (ex_system\<lparr>hv_size := 0x321000\<rparr>)) ex_init)) = None"
    by (simp add: ex_init_def)
  from enable_size_check_amended [OF 2(1), of ex_system ex_macros ex_init] 1 4 5
  obtain t where t: "trace (snd (jailhouse_enable ex_macros ex_env (Some ex_system) ex_init)) =
      trace ex_init @ t" "\<forall>ev\<in>set t. copy_in_region (hv_size ex_system) ev"
    and r: "\<exists>e. fst (jailhouse_enable ex_macros ex_env (Some ex_system) ex_init) = Return e"
    by blast
  have "trace (snd (jailhouse_enable ex_macros ex_env (Some ex_system) ex_init)) =
      [Ioremap 0x3c000000 0x4000000, Memcpy 0x200000,
        Memset 0x200000 0x3e00000, Hv_entry, Hv_entry, Hv_entry, Hv_entry]"
    by (simp add: ex_enable ex_enabled_def)
  moreover have "trace ex_init = []" by (simp add: ex_init_def)
  ultimately have "t = [Ioremap 0x3c000000 0x4000000, Memcpy 0x200000,
        Memset 0x200000 0x3e00000, Hv_entry, Hv_entry, Hv_entry, Hv_entry]"
    using t(1) by simp
  with t(2) have "copy_in_region (hv_size ex_system) (Memcpy 0x200000) \<and>
     copy_in_region (hv_size ex_system) (Memset 0x200000 0x3e00000)" by simp
  with a b r show ?thesis by simp
qed

section \<open>CPU conservation\<close>

lemma create_registered:
  assumes reg: "length (cells (snd (jailhouse_cell_create M k (Some p) s))) = Suc (length (cells s))"
    and cfg: "new_config p = Some cfg"
  shows "create_prepared M k p cfg s \<and>
         cells (snd (jailhouse_cell_create M k (Some p) s)) = cells s @ [new_cell M k cfg] \<and>
         offlined_cpus (snd (jailhouse_cell_create M k (Some p) s)) =
           offlined_cpus s \<union> (set (for_each_cell_cpu cfg) \<inter> cpu_online_mask s) \<and>
         cpu_online_mask (snd (jailhouse_cell_create M k (Some p) s)) =
           cpu_online_mask s - set (for_each_cell_cpu cfg) \<and>
         enabled (snd (jailhouse_cell_create M k (Some p) s)) = enabled s"
proof -
  let ?cpus = "for_each_cell_cpu cfg"
  let ?err = "projr (load_images k (terminate_name M cfg) (new_images p) (err_init k))"
  let ?O = "offline_cell_cpus k ?cpus ?err s"
  let ?R = "jailhouse_cell_create M k (Some p) s"
  have prep: "create_prepared M k p cfg s"
  proof (rule ccontr)
    assume "\<not> create_prepared M k p cfg s"
    from create_not_prepared [OF this cfg] reg show False by simp
  qed
  note R = create_prepared_eq [OF prep]
  note f = offline_cell_cpus_frame [of k ?cpus ?err s]
  note m = offline_cell_cpus_masks [of k ?cpus ?err s]
  show ?thesis
  proof (cases "fst ?O")
    case (Inl e)
    with R have "?R = (e, error_cpu_online k ?cpus (snd ?O))" by simp
    then have "cells (snd ?R) = cells s" by (simp add: error_cpu_online_frame f)
    with reg show ?thesis by simp
  next
    case (Inr err1)
    let ?s2 = "snd (jailhouse_call1_create k (snd ?O))"
    show ?thesis
    proof (cases "hc_cell_create_ret k < 0")
      case True
      with R Inr have "?R = (hc_cell_create_ret k, error_cpu_online k ?cpus ?s2)"
        by (simp add: Let_def)
      then have "cells (snd ?R) = cells s" by (simp add: error_cpu_online_frame f)
      with reg show ?thesis by simp
    next
      case False
      with R Inr have Req: "?R = (err1, register_cell (new_cell M k cfg) ?s2)"
        by (simp add: Let_def)
      from offline_cell_cpus_Inr [OF Inr]
      have on: "cpu_online_mask (snd ?O) = cpu_online_mask s - set ?cpus" by simp
      with m have off: "offlined_cpus (snd ?O) = offlined_cpus s \<union> (set ?cpus \<inter> cpu_online_mask s)"
        by auto
      from prep on off f show ?thesis by (simp add: Req)
    qed
  qed
qed

lemma map_remove1_distinct:
  "distinct (map f xs) \<Longrightarrow> x \<in> set xs \<Longrightarrow> map f (remove1 x xs) = remove1 (f x) (map f xs)"
proof (induction xs)
  case Nil
  then show ?case by simp
next
  case (Cons a xs)
  show ?case
  proof (cases "x = a")
    case True
    then show ?thesis by simp
  next
    case False
    with Cons.prems have "x \<in> set xs" by simp
    then have "f x \<in> f ` set xs" by (rule imageI)
    with Cons.prems have "f x \<noteq> f a" by auto
    with Cons False \<open>x \<in> set xs\<close> show ?thesis by simp
  qed
qed

lemma map_fst_filter_distinct:
  "distinct (map fst own) \<Longrightarrow>
     map fst (filter (\<lambda>e. fst e \<noteq> n) own) = remove1 n (map fst own)"
  by (induction own) (auto simp: remove1_idem)

lemma disjoint_sets_append:
  "disjoint_sets (As @ [B]) = (disjoint_sets As \<and> \<Union> (set As) \<inter> B = {})"
  by (induction As) auto

lemma owners_filter:
  assumes "distinct (map fst own)" and "disjoint_sets (map snd own)" and "(n, S) \<in> set own"
  shows "\<Union> (set (map snd (filter (\<lambda>e. fst e \<noteq> n) own))) = \<Union> (set (map snd own)) - S \<and>
         disjoint_sets (map snd (filter (\<lambda>e. fst e \<noteq> n) own))"
  using assms
proof (induction own)
  case Nil
  then show ?case by simp
next
  case (Cons e own)
  show ?case
  proof (cases "fst e = n")
    case True
    with Cons.prems have e: "e = (n, S)" and nin: "n \<notin> fst ` set own"
      by (auto simp: rev_image_eqI)
    from nin have "filter (\<lambda>e. fst e \<noteq> n) own = own"
      by (auto simp: filter_id_conv)
    with True e Cons.prems show ?thesis by auto
  next
    case False
    with Cons.prems have in_rest: "(n, S) \<in> set own" by auto
    from Cons.prems have d: "distinct (map fst own)" "disjoint_sets (map snd own)"
      and de: "snd e \<inter> \<Union> (set (map snd own)) = {}" by auto
    from Cons.IH [OF d in_rest] have IH:
      "\<Union> (set (map snd (filter (\<lambda>e. fst e \<noteq> n) own))) = \<Union> (set (map snd own)) - S"
      "disjoint_sets (map snd (filter (\<lambda>e. fst e \<noteq> n) own))" by auto
    from in_rest have "S \<subseteq> \<Union> (set (map snd own))" by force
    with de have "snd e \<inter> S = {}" by auto
    with False IH de show ?thesis by auto
  qed
qed


lemma step_create:
  assumes tr: "tracked s own" and co: "conserved s own"
    and di: "disciplined M (Create_cell k p) (s, own)"
    and su: "succeed M (Create_cell k p) (s, own) = Some (s', own')"
  shows "tracked s' own' \<and> conserved s' own'"
proof -
  from su obtain cfg where cfg: "new_config p = Some cfg"
    and reg: "length (cells (snd (jailhouse_cell_create M k (Some p) s))) = Suc (length (cells s))"
    and s': "s' = snd (jailhouse_cell_create M k (Some p) s)"
    and own': "own' = own @ [(cell_name M cfg, set (for_each_cell_cpu cfg))]"
    by (auto split: option.splits if_splits)
  let ?cpus = "set (for_each_cell_cpu cfg)"
  from create_registered [OF reg cfg] s' have
    prep: "create_prepared M k p cfg s" and
    cs: "cells s' = cells s @ [new_cell M k cfg]" and
    off: "offlined_cpus s' = offlined_cpus s \<union> (?cpus \<inter> cpu_online_mask s)" and
    on: "cpu_online_mask s' = cpu_online_mask s - ?cpus" and
    en: "enabled s' = enabled s" by simp_all
  from di cfg have sub: "?cpus \<subseteq> cpu_online_mask s" by simp
  from prep have "find_cell s (terminate_name M cfg) = None" by (simp add: create_prepared_def)
  then have fresh: "cell_name M cfg \<notin> set (map kobj_name (cells s))"
    by (simp add: find_cell_None_iff cell_name_def)
  have nm: "kobj_name (new_cell M k cfg) = cell_name M cfg"
    by (simp add: new_cell_def cell_name_def)
  from tr have t: "enabled s" "cells s \<noteq> []" "map kobj_name (tl (cells s)) = map fst own"
    "distinct (map kobj_name (cells s))" "offlined_cpus s \<inter> cpu_online_mask s = {}"
    "disjoint_sets (map snd own)" by (simp_all add: tracked_def)
  from co have c: "offlined_cpus s = \<Union> (set (map snd own))" by (simp add: conserved_def)
  have 1: "map kobj_name (tl (cells s')) = map fst own'"
    using t(2,3) by (simp add: cs own' nm)
  have 2: "distinct (map kobj_name (cells s'))"
    using t(4) fresh by (simp add: cs nm)
  have 3: "offlined_cpus s' \<inter> cpu_online_mask s' = {}"
    using t(5) by (auto simp: off on)
  from c t(5) sub have "\<Union> (set (map snd own)) \<inter> ?cpus = {}" by auto
  with t(6) have 4: "disjoint_sets (map snd own')"
    by (simp add: own' disjoint_sets_append)
  from sub c have 5: "offlined_cpus s' = \<Union> (set (map snd own'))"
    by (auto simp: off own')
  from t(1,2) en cs 1 2 3 4 5 show ?thesis by (simp add: tracked_def conserved_def)
qed

lemma step_destroy:
  assumes tr: "tracked s own" and co: "conserved s own"
    and di: "disciplined M (Destroy_cell k p) (s, own)"
    and su: "succeed M (Destroy_cell k p) (s, own) = Some (s', own')"
  shows "tracked s' own' \<and> conserved s' own'"
proof -
  from su obtain cfg where cfg: "cell_config p = Some cfg"
    and ok: "fst (jailhouse_cell_destroy M k (Some p) s) = 0"
    and s': "s' = snd (jailhouse_cell_destroy M k (Some p) s)"
    and own': "own' = filter (\<lambda>e. fst e \<noteq> cell_name M cfg) own"
    by (auto split: option.splits if_splits)
  let ?cpus = "set (for_each_cell_cpu cfg)"
  let ?n = "cell_name M cfg"
  from destroy_success [OF ok cfg] s' obtain c where
    c: "find_cell s (terminate_name M cfg) = Some c" and
    cs: "cells s' = remove1 c (cells s)" and
    off: "offlined_cpus s' = offlined_cpus s - ?cpus" and
    on: "cpu_online_mask s' = cpu_online_mask s \<union>
          {x \<in> ?cpus \<inter> offlined_cpus s. cpu_up_err k x = 0}" and
    en: "enabled s' = enabled s" by auto
  from find_cell_Some [OF c] have cin: "c \<in> set (cells s)" and cn: "kobj_name c = ?n"
    by (simp_all add: cell_name_def)
  from di cfg have mem: "(?n, ?cpus) \<in> set own" by simp
  from tr have t: "enabled s" "cells s \<noteq> []" "map kobj_name (tl (cells s)) = map fst own"
    "distinct (map kobj_name (cells s))" "offlined_cpus s \<inter> cpu_online_mask s = {}"
    "disjoint_sets (map snd own)" by (simp_all add: tracked_def)
  from co have conv: "offlined_cpus s = \<Union> (set (map snd own))" by (simp add: conserved_def)
  from t(2) obtain r rest where rr: "cells s = r # rest" by (cases "cells s") auto
  with t(3,4) have rest: "map kobj_name rest = map fst own" "kobj_name r \<notin> set (map kobj_name rest)"
    "distinct (map kobj_name rest)" by simp_all
  from mem have "?n \<in> set (map fst own)" by force
  with rest(1,2) have "?n \<noteq> kobj_name r" by metis
  with cn have cr: "c \<noteq> r" by auto
  with cin rr have crest: "c \<in> set rest" by simp
  from cr rr have cs2: "cells s' = r # remove1 c rest" by (simp add: cs)
  from rest(3) have dfst: "distinct (map fst own)" by (simp add: rest(1) [symmetric])
  have 1: "map kobj_name (tl (cells s')) = map fst own'"
    using map_remove1_distinct [OF rest(3) crest] map_fst_filter_distinct [OF dfst, of ?n]
    by (simp add: cs2 own' cn rest(1))
  have "map kobj_name (cells s') = remove1 ?n (map kobj_name (cells s))"
    using map_remove1_distinct [OF t(4) cin] by (simp add: cs cn)
  with t(4) have 2: "distinct (map kobj_name (cells s'))" by simp
  have 3: "offlined_cpus s' \<inter> cpu_online_mask s' = {}"
    using t(5) by (auto simp: off on)
  from owners_filter [OF dfst t(6) mem] conv
  have 4: "disjoint_sets (map snd own')" and 5: "offlined_cpus s' = \<Union> (set (map snd own'))"
    by (simp_all add: own' off)
  from t(1) en cs2 1 2 3 4 5 show ?thesis by (simp add: tracked_def conserved_def)
qed

lemma run_tracked:
  "tracked s own \<Longrightarrow> conserved s own \<Longrightarrow> all_disciplined M qs (s, own) \<Longrightarrow>
   run M qs (s, own) = Some (s', own') \<Longrightarrow> tracked s' own' \<and> conserved s' own'"
proof (induction qs arbitrary: s own)
  case Nil
  then show ?case by simp
next
  case (Cons q qs)
  from Cons.prems(4) obtain s1 own1 where
    su: "succeed M q (s, own) = Some (s1, own1)" and rest: "run M qs (s1, own1) = Some (s', own')"
    by (auto split: option.splits)
  from Cons.prems(3) su have di: "disciplined M q (s, own)" and
    adi: "all_disciplined M qs (s1, own1)" by simp_all
  have "tracked s1 own1 \<and> conserved s1 own1"
  proof (cases q)
    case (Create_cell k p)
    with step_create [of s own M k p s1 own1] Cons.prems(1,2) di su show ?thesis by blast
  next
    case (Destroy_cell k p)
    with step_destroy [of s own M k p s1 own1] Cons.prems(1,2) di su show ?thesis by blast
  qed
  with Cons.IH [OF _ _ adi rest] show ?case by simp
qed

lemma disable_success:
  assumes "finite (offlined_cpus s)" and "jailhouse_disable k s = Some (0, s')"
  shows "offlined_cpus s' = {} \<and> cells s' = [] \<and> \<not> enabled s' \<and> hypervisor_mem s' = None"
proof -
  let ?s1 = "s\<lparr>error_code := 0, trace := trace s @ map (\<lambda>_. Hc_disable) (leave_rets k)\<rparr>"
  let ?s2 = "vunmap_hypervisor_mem ?s1"
  let ?s3 = "online_offlined_cpus k (sorted_list_of_set (offlined_cpus ?s2)) ?s2"
  from assms(2) have s': "s' = module_put (?s3\<lparr>cells := [], enabled := False\<rparr>)"
    by (auto simp: jailhouse_disable_def Let_def errno_defs split: if_splits option.splits)
  have o2: "offlined_cpus ?s2 = offlined_cpus s" "hypervisor_mem ?s2 = None"
    by (simp_all add: vunmap_hypervisor_mem_def)
  from assms(1) o2 have "set (sorted_list_of_set (offlined_cpus ?s2)) = offlined_cpus ?s2"
    by simp
  with online_offlined_cpus_masks [of k "sorted_list_of_set (offlined_cpus ?s2)" ?s2]
  have "offlined_cpus ?s3 = {}" by simp
  moreover have "hypervisor_mem ?s3 = None"
    using online_offlined_cpus_frame [of k "sorted_list_of_set (offlined_cpus ?s2)" ?s2] o2
    by simp
  ultimately show ?thesis by (simp add: s' module_put_def)
qed


text \<open>
  A CreateCell that returns 0 has registered its cell, so the requests that
  \<open>succeed\<close> accepts include every CreateCell whose caller sees the status 0.
\<close>

lemma create_zero_registered:
  assumes "fst (jailhouse_cell_create M k (Some p) s) = 0"
  shows "length (cells (snd (jailhouse_cell_create M k (Some p) s))) = Suc (length (cells s))"
proof -
  from assms obtain cfg where cfg: "new_config p = Some cfg"
    by (auto simp: jailhouse_cell_create_def errno_defs split: option.splits if_splits)
  have prep: "create_prepared M k p cfg s"
  proof (rule ccontr)
    assume "\<not> create_prepared M k p cfg s"
    with assms cfg show False
      by (auto simp: create_prepared_def jailhouse_cell_create_def Let_def create_cell_def
          errno_defs split: sum.splits if_splits dest: load_images_Inl)
  qed
  let ?cpus = "for_each_cell_cpu cfg"
  let ?err = "projr (load_images k (terminate_name M cfg) (new_images p) (err_init k))"
  let ?O = "offline_cell_cpus k ?cpus ?err s"
  note R = create_prepared_eq [OF prep]
  show ?thesis
  proof (cases "fst ?O")
    case (Inl e)
    with offline_cell_cpus_Inl [OF Inl] R assms show ?thesis by simp
  next
    case (Inr err1)
    with R assms have "\<not> hc_cell_create_ret k < 0" by (auto simp: Let_def split: if_splits)
    with R Inr show ?thesis
      by (simp add: Let_def offline_cell_cpus_frame)
  qed
qed

lemma ex_destroy_other_set:
  "jailhouse_cell_destroy ex_macros ex_env
     (Some \<lparr>cell_config = Some (ex_desc ''B'' [False, False, True, False])\<rparr>) ex_created =
   (0, ex_enabled\<lparr>offlined_cpus := {3}, cpu_online_mask := {0, 1, 2},
        trace := [Cpu_down 2, Cpu_down 3, Hc_cell_create, Hc_cell_destroy 1, Cpu_up 2]\<rparr>)"
  apply (simp add: destroy_defs ex_env_def ex_macros_def ex_enabled_def ex_created_def Let_def
      for_each_cell_cpu_filter upt_conv_Cons)
  apply auto
  done

lemma ex_tracked: "tracked ex_enabled [] \<and> conserved ex_enabled []"
  by (simp add: tracked_def conserved_def ex_enabled_def)

subsection \<open>The offlined CPUs stay a finite set\<close>

text \<open>
  A \<^verbatim>\<open>cpumask_t\<close> holds finitely many CPUs; the model's set of offlined CPUs is
  finite after loading the module and stays so under every request.
\<close>

lemma finite_offlined_offline_cell_cpus:
  "finite (offlined_cpus s) \<Longrightarrow> finite (offlined_cpus (snd (offline_cell_cpus k cpus err s)))"
proof -
  assume f: "finite (offlined_cpus s)"
  from offline_cell_cpus_masks [of k cpus err s]
  have "offlined_cpus (snd (offline_cell_cpus k cpus err s)) \<subseteq> offlined_cpus s \<union> set cpus"
    by auto
  moreover from f have "finite (offlined_cpus s \<union> set cpus)" by simp
  ultimately show ?thesis by (rule finite_subset)
qed

lemma finite_offlined_error_cpu_online:
  "finite (offlined_cpus s) \<Longrightarrow> finite (offlined_cpus (error_cpu_online k cpus s))"
  by (simp add: error_cpu_online_masks)

lemma finite_offlined_create:
  assumes "finite (offlined_cpus s)"
  shows "finite (offlined_cpus (snd (jailhouse_cell_create M k arg s)))"
proof (cases "\<exists>p cfg. arg = Some p \<and> new_config p = Some cfg \<and> create_prepared M k p cfg s")
  case False
  then have "snd (jailhouse_cell_create M k arg s) = s"
    using create_not_prepared [of M k _ _ s]
    by (cases arg) (auto simp: jailhouse_cell_create_def split: option.splits)
  with assms show ?thesis by simp
next
  case True
  then obtain p cfg where a: "arg = Some p" "create_prepared M k p cfg s" by blast
  let ?O = "offline_cell_cpus k (for_each_cell_cpu cfg)
              (projr (load_images k (terminate_name M cfg) (new_images p) (err_init k))) s"
  from assms have "finite (offlined_cpus (snd ?O))" by (rule finite_offlined_offline_cell_cpus)
  then show ?thesis
    by (simp add: a(1) create_prepared_eq [OF a(2)] Let_def finite_offlined_error_cpu_online
        split: sum.splits)
qed

lemma finite_offlined_destroy:
  assumes "finite (offlined_cpus s)"
  shows "finite (offlined_cpus (snd (jailhouse_cell_destroy M k arg s)))"
  using assms
  by (auto simp: jailhouse_cell_destroy_def Let_def jailhouse_call1_destroy_def delete_cell_def
      online_cell_cpus_masks split: option.splits)

lemma finite_offlined_enable:
  "finite (offlined_cpus s) \<Longrightarrow> finite (offlined_cpus (snd (jailhouse_enable M k arg s)))"
  by (auto simp: jailhouse_enable_def Let_def error_unlock_def
      error_put_module_def error_free_cell_def error_release_fw_def error_unmap_def
      vunmap_hypervisor_mem_def module_put_def map_and_copy_def copy_overruns_def register_cell_def
      split: option.splits sum.splits prod.splits)

lemma finite_offlined_disable:
  "finite (offlined_cpus s) \<Longrightarrow> jailhouse_disable k s = Some (r, s') \<Longrightarrow>
     finite (offlined_cpus s')"
  by (auto simp: jailhouse_disable_def Let_def module_put_def vunmap_hypervisor_mem_def
      online_offlined_cpus_masks split: if_splits option.splits)

subsection \<open>Conservation\<close>

text \<open>
  The state a successful Enable leaves, with no cell registered and no CPU offlined
  before it, satisfies \<open>tracked\<close> and \<open>conserved\<close> with no owner: sequences of
  requests start there.
\<close>

lemma enable_tracked:
  assumes "cells s = []" and "offlined_cpus s = {}"
    and "jailhouse_enable M k arg s = (Return 0, s')"
  shows "tracked s' [] \<and> conserved s' []"
  using assms
  by (auto simp: jailhouse_enable_def Let_def error_unlock_def error_put_module_def
      error_free_cell_def error_release_fw_def error_unmap_def vunmap_hypervisor_mem_def
      module_put_def map_and_copy_def copy_overruns_def register_cell_def tracked_def conserved_def errno_defs
      split: option.splits sum.splits prod.splits if_splits)

text \<open>
  The example sequence, request by request.
\<close>

lemma ex_enable_booted:
  "jailhouse_enable ex_macros ex_env (Some ex_system) ex_init = (Return 0, ex_booted)"
  by (simp add: ex_enable ex_booted_def)

lemma ex_create_a:
  "jailhouse_cell_create ex_macros ex_env
     (Some \<lparr>new_config = Some (ex_desc ''A'' [False, False, True, False]), new_images = []\<rparr>)
     ex_booted = (0, ex_with_a)"
  apply (simp add: create_defs ex_env_def ex_macros_def ex_seq_defs Let_def
      for_each_cell_cpu_filter upt_conv_Cons)
  apply auto
  done

lemma ex_create_b:
  "jailhouse_cell_create ex_macros (ex_env\<lparr>hc_cell_create_ret := 2\<rparr>)
     (Some \<lparr>new_config = Some (ex_desc ''B'' [False, False, False, True]), new_images = []\<rparr>)
     ex_with_a = (0, ex_with_a_b)"
  apply (simp add: create_defs ex_env_def ex_macros_def ex_seq_defs Let_def
      for_each_cell_cpu_filter upt_conv_Cons)
  apply auto
  done

lemma ex_destroy_a:
  "jailhouse_cell_destroy ex_macros ex_env
     (Some \<lparr>cell_config = Some (ex_desc ''A'' [False, False, True, False])\<rparr>)
     ex_with_a_b = (0, ex_with_b)"
  apply (simp add: destroy_defs ex_env_def ex_macros_def ex_seq_defs Let_def
      for_each_cell_cpu_filter upt_conv_Cons)
  apply auto
  done

lemma ex_cell_name:
  "cell_name ex_macros (ex_desc ''A'' cpus) = ''A''"
  "cell_name ex_macros (ex_desc ''B'' cpus) = ''B''"
  "cell_name ex_macros (ex_desc ''root'' cpus) = ''root''"
  by (simp_all add: cell_name_def c_str_def terminate_name_def ex_desc_def ex_macros_def)

lemma ex_cpus:
  "set (for_each_cell_cpu (ex_desc n [False, False, True, False])) = {2}"
  "set (for_each_cell_cpu (ex_desc n [False, False, False, True])) = {3}"
  "set (for_each_cell_cpu (ex_desc n [False, False, True, True])) = {2, 3}"
  by (auto simp: for_each_cell_cpu_filter ex_desc_def upt_conv_Cons)

lemma ex_run:
  "run ex_macros ex_requests (ex_booted, []) = Some (ex_with_b, [(''B'', {3})])"
proof -
  have l: "length (cells ex_with_a) = Suc (length (cells ex_booted))"
    "length (cells ex_with_a_b) = Suc (length (cells ex_with_a))"
    by (simp_all add: ex_seq_defs)
  show ?thesis
    by (simp add: ex_requests_def ex_create_a ex_create_b ex_destroy_a l ex_cell_name ex_cpus)
qed

lemma ex_all_disciplined:
  "all_disciplined ex_macros ex_requests (ex_booted, [])"
proof -
  have l: "length (cells ex_with_a) = Suc (length (cells ex_booted))"
    "length (cells ex_with_a_b) = Suc (length (cells ex_with_a))"
    by (simp_all add: ex_seq_defs)
  have m: "cpu_online_mask ex_booted = {0, 1, 2, 3}" "cpu_online_mask ex_with_a = {0, 1, 3}"
    by (simp_all add: ex_seq_defs)
  show ?thesis
    by (simp add: ex_requests_def ex_create_a ex_create_b ex_destroy_a l m ex_cell_name ex_cpus)
qed

lemma ex_disable_with_b: "jailhouse_disable ex_env ex_with_b = Some (0, ex_stopped)"
proof -
  have a: "4096 dvd unat (hv_core_percpu_size ex_with_b)"
    by (simp add: ex_seq_defs)
  have "on_each_cpu_enter (leave_rets ex_env) 0 = 0"
    by (simp add: on_each_cpu_enter_def enter_hypervisor_def ex_env_def)
  with on_each_cpu_leave_aligned [OF a, of "leave_rets ex_env" 0]
  have l: "on_each_cpu_leave (hv_core_percpu_size ex_with_b) (leave_rets ex_env) 0 = Some 0"
    by simp
  have e: "enabled ex_with_b" "lock_ok ex_env"
    by (simp_all add: ex_seq_defs ex_env_def)
  show ?thesis
    apply (simp add: jailhouse_disable_def l e Let_def)
    apply (simp add: ex_seq_defs ex_stopped_def ex_env_def
        vunmap_hypervisor_mem_def module_put_def cpu_up_def cpu_clear_offlined_def)
    apply auto
    done
qed

lemma ex_create_offline:
  "jailhouse_cell_create ex_macros ex_env
     (Some \<lparr>new_config = Some (ex_desc ''B'' [False, False, False, True]), new_images = []\<rparr>)
     ex_three_online = (0, ex_offline_claimed)"
  by (simp add: create_defs ex_env_def ex_macros_def ex_enabled_def ex_three_online_def
      ex_offline_claimed_def Let_def for_each_cell_cpu_filter upt_conv_Cons)

lemma ex_destroy_root:
  "jailhouse_cell_destroy ex_macros ex_env
     (Some \<lparr>cell_config = Some (ex_desc ''root'' [True, True, True, True])\<rparr>) ex_created =
   (0, ex_enabled\<lparr>cells := [\<lparr>kobj_name = ''B'', cell_id = 1\<rparr>],
        trace := [Cpu_down 2, Cpu_down 3, Hc_cell_create, Hc_cell_destroy 0, Cpu_up 2, Cpu_up 3]\<rparr>)"
  apply (simp add: destroy_defs ex_env_def ex_macros_def ex_enabled_def ex_created_def Let_def
      for_each_cell_cpu_filter upt_conv_Cons)
  apply auto
  done

text \<open>
  The claim C8 as it is stated fails in its first part, in three ways. From the
  enabled state with only the root cell, CreateCell for \<open>B\<close> with CPUs 2 and 3 and
  then DestroyCell for \<open>B\<close> with a configuration that names CPU 2 only both succeed
  (both return 0); afterwards no cell but the root cell is registered, and CPU 3 is
  still recorded as offlined. After the same CreateCell, DestroyCell for the root
  cell with the CPU set of the root cell succeeds as well (the driver does not guard
  the root cell): \<open>B\<close> stays registered and no CPU is recorded any more. And on a
  machine where CPU 3 is offline, CreateCell for \<open>B\<close> claiming CPU 3 succeeds without
  recording it: \<open>B\<close> is registered and no CPU is recorded.
\<close>

theorem cpu_conservation_counterexample:
  "tracked ex_enabled [] \<and> conserved ex_enabled [] \<and>
   run ex_macros
     [Create_cell ex_env
        \<lparr>new_config = Some (ex_desc ''B'' [False, False, True, True]), new_images = []\<rparr>,
      Destroy_cell ex_env \<lparr>cell_config = Some (ex_desc ''B'' [False, False, True, False])\<rparr>]
     (ex_enabled, []) =
   Some (ex_enabled\<lparr>offlined_cpus := {3}, cpu_online_mask := {0, 1, 2},
           trace := [Cpu_down 2, Cpu_down 3, Hc_cell_create, Hc_cell_destroy 1, Cpu_up 2]\<rparr>, []) \<and>
   \<not> conserved (ex_enabled\<lparr>offlined_cpus := {3}, cpu_online_mask := {0, 1, 2},
           trace := [Cpu_down 2, Cpu_down 3, Hc_cell_create, Hc_cell_destroy 1, Cpu_up 2]\<rparr>) [] \<and>
   run ex_macros
     [Create_cell ex_env
        \<lparr>new_config = Some (ex_desc ''B'' [False, False, True, True]), new_images = []\<rparr>,
      Destroy_cell ex_env \<lparr>cell_config = Some (ex_desc ''root'' [True, True, True, True])\<rparr>]
     (ex_enabled, []) =
   Some (ex_enabled\<lparr>cells := [\<lparr>kobj_name = ''B'', cell_id = 1\<rparr>],
           trace := [Cpu_down 2, Cpu_down 3, Hc_cell_create, Hc_cell_destroy 0, Cpu_up 2,
                     Cpu_up 3]\<rparr>, [(''B'', {2, 3})]) \<and>
   \<not> conserved (ex_enabled\<lparr>cells := [\<lparr>kobj_name = ''B'', cell_id = 1\<rparr>],
           trace := [Cpu_down 2, Cpu_down 3, Hc_cell_create, Hc_cell_destroy 0, Cpu_up 2,
                     Cpu_up 3]\<rparr>) [(''B'', {2, 3})] \<and>
   tracked ex_three_online [] \<and>
   conserved ex_three_online [] \<and>
   run ex_macros
     [Create_cell ex_env
        \<lparr>new_config = Some (ex_desc ''B'' [False, False, False, True]), new_images = []\<rparr>]
     (ex_three_online, []) =
   Some (ex_offline_claimed, [(''B'', {3})]) \<and>
   \<not> conserved ex_offline_claimed [(''B'', {3})]"
proof -
  have l: "length (cells ex_created) = Suc (length (cells ex_enabled))"
    by (simp add: ex_created_def ex_enabled_def)
  have o: "offlined_cpus ex_enabled = {}" by (simp add: ex_enabled_def)
  have 1: "run ex_macros
     [Create_cell ex_env
        \<lparr>new_config = Some (ex_desc ''B'' [False, False, True, True]), new_images = []\<rparr>,
      Destroy_cell ex_env \<lparr>cell_config = Some (ex_desc ''B'' [False, False, True, False])\<rparr>]
     (ex_enabled, []) =
   Some (ex_enabled\<lparr>offlined_cpus := {3}, cpu_online_mask := {0, 1, 2},
           trace := [Cpu_down 2, Cpu_down 3, Hc_cell_create, Hc_cell_destroy 1, Cpu_up 2]\<rparr>, [])"
    using l by (simp add: ex_create ex_destroy_other_set ex_cell_name)
  have 2: "\<not> conserved (ex_enabled\<lparr>offlined_cpus := {3}, cpu_online_mask := {0, 1, 2},
           trace := [Cpu_down 2, Cpu_down 3, Hc_cell_create, Hc_cell_destroy 1, Cpu_up 2]\<rparr>) []"
    by (simp add: conserved_def)
  have 3: "run ex_macros
     [Create_cell ex_env
        \<lparr>new_config = Some (ex_desc ''B'' [False, False, True, True]), new_images = []\<rparr>,
      Destroy_cell ex_env \<lparr>cell_config = Some (ex_desc ''root'' [True, True, True, True])\<rparr>]
     (ex_enabled, []) =
   Some (ex_enabled\<lparr>cells := [\<lparr>kobj_name = ''B'', cell_id = 1\<rparr>],
           trace := [Cpu_down 2, Cpu_down 3, Hc_cell_create, Hc_cell_destroy 0, Cpu_up 2,
                     Cpu_up 3]\<rparr>, [(''B'', {2, 3})])"
    using l by (simp add: ex_create ex_destroy_root ex_cell_name ex_cpus)
  have 4: "\<not> conserved (ex_enabled\<lparr>cells := [\<lparr>kobj_name = ''B'', cell_id = 1\<rparr>],
           trace := [Cpu_down 2, Cpu_down 3, Hc_cell_create, Hc_cell_destroy 0, Cpu_up 2,
                     Cpu_up 3]\<rparr>) [(''B'', {2, 3})]"
    by (simp add: conserved_def o)
  have 5: "tracked ex_three_online []"
    "conserved ex_three_online []"
    by (simp_all add: tracked_def conserved_def ex_enabled_def ex_three_online_def)
  have l6: "length (cells ex_offline_claimed) = Suc (length (cells ex_three_online))"
    by (simp add: ex_enabled_def ex_three_online_def ex_offline_claimed_def)
  have 6: "run ex_macros
     [Create_cell ex_env
        \<lparr>new_config = Some (ex_desc ''B'' [False, False, False, True]), new_images = []\<rparr>]
     (ex_three_online, []) =
   Some (ex_offline_claimed, [(''B'', {3})])"
    using l6 by (simp add: ex_create_offline ex_cell_name ex_cpus)
  have 7: "\<not> conserved ex_offline_claimed [(''B'', {3})]"
    by (simp add: conserved_def ex_offline_claimed_def o)
  from ex_tracked have t: "tracked ex_enabled []" "conserved ex_enabled []" by simp_all
  show ?thesis by (intro conjI) (rule t 1 2 3 4 5 6 7)+
qed

text \<open>
  C8, amended. The driver adds to \<^verbatim>\<open>offlined_cpus\<close> the claimed CPUs that are online
  when a cell is created, and removes from it the CPUs of the configuration handed
  to DestroyCell. Take a driver with no cell registered and no CPU recorded, a
  successful Enable, and then any sequence of CreateCell and DestroyCell calls that
  all succeed, in which every CreateCell claims only CPUs that are online at the
  call, and every DestroyCell names a cell that an earlier CreateCell of the sequence
  created and that is still registered (so never the root cell) and supplies the
  CPU set that cell was created with. Then the cells registered after the root cell
  are those of \<open>own'\<close>, and the CPUs recorded as offlined are exactly the union of
  the CPU sets these cells were created with. And after a Disable that returns 0,
  from any state that records finitely many CPUs (a \<^verbatim>\<open>cpumask_t\<close> holds no more), that
  set is empty, no cell is registered, and the hypervisor is disabled.
\<close>

theorem cpu_conservation_amended:
  "(cells s0 = [] \<and> offlined_cpus s0 = {} \<and> jailhouse_enable M k0 arg s0 = (Return 0, s) \<and>
      all_disciplined M qs (s, []) \<and> run M qs (s, []) = Some (s', own') \<longrightarrow>
      map kobj_name (tl (cells s')) = map fst own' \<and>
      offlined_cpus s' = \<Union> (set (map snd own'))) \<and>
   (finite (offlined_cpus t) \<and> jailhouse_disable k t = Some (0, t') \<longrightarrow>
      offlined_cpus t' = {} \<and> cells t' = [] \<and> \<not> enabled t')"
proof (intro conjI impI)
  assume a: "cells s0 = [] \<and> offlined_cpus s0 = {} \<and>
      jailhouse_enable M k0 arg s0 = (Return 0, s) \<and>
      all_disciplined M qs (s, []) \<and> run M qs (s, []) = Some (s', own')"
  then have "tracked s [] \<and> conserved s []" by (intro enable_tracked [of s0 M k0 arg s]) simp_all
  with a run_tracked [of s "[]" M qs s' own'] have "tracked s' own' \<and> conserved s' own'"
    by blast
  then show "map kobj_name (tl (cells s')) = map fst own'"
    "offlined_cpus s' = \<Union> (set (map snd own'))"
    by (simp_all add: tracked_def conserved_def)
next
  assume "finite (offlined_cpus t) \<and> jailhouse_disable k t = Some (0, t')"
  with disable_success [of t k t']
  show "offlined_cpus t' = {}" "cells t' = []" "\<not> enabled t'" by simp_all
qed

theorem cpu_conservation_amended_witness:
  "cells ex_init = [] \<and> offlined_cpus ex_init = {} \<and>
   jailhouse_enable ex_macros ex_env (Some ex_system) ex_init = (Return 0, ex_booted) \<and>
   all_disciplined ex_macros ex_requests (ex_booted, []) \<and>
   run ex_macros ex_requests (ex_booted, []) = Some (ex_with_b, [(''B'', {3})]) \<and>
   map kobj_name (tl (cells ex_with_b)) = map fst [(''B'', {3::nat})] \<and>
   offlined_cpus ex_with_b = \<Union> (set (map snd [(''B'', {3})])) \<and>
   finite (offlined_cpus ex_with_b) \<and>
   jailhouse_disable ex_env ex_with_b = Some (0, ex_stopped) \<and>
   offlined_cpus ex_stopped = {} \<and> cells ex_stopped = [] \<and> \<not> enabled ex_stopped"
proof -
  have i: "cells ex_init = []" "offlined_cpus ex_init = {}" by (simp_all add: ex_init_def)
  have f: "finite (offlined_cpus ex_with_b)" by (simp add: ex_seq_defs)
  note T = cpu_conservation_amended [of ex_init ex_macros ex_env "Some ex_system" ex_booted
      ex_requests ex_with_b "[(''B'', {3})]" ex_with_b ex_env ex_stopped]
  from T i ex_enable_booted ex_all_disciplined ex_run
  have 1: "map kobj_name (tl (cells ex_with_b)) = map fst [(''B'', {3::nat})]"
    "offlined_cpus ex_with_b = \<Union> (set (map snd [(''B'', {3})]))"
    by blast+
  from T f ex_disable_with_b
  have 2: "offlined_cpus ex_stopped = {}" "cells ex_stopped = []" "\<not> enabled ex_stopped"
    by blast+
  show ?thesis
    by (intro conjI) (rule i ex_enable_booted ex_all_disciplined ex_run 1 f ex_disable_with_b 2)+
qed

end
